(* ===== verification/App_Prelude.thy ===== *)
theory App_Prelude
  imports Main "HOL-Library.Word" "HOL-Library.Multiset"
begin

text \<open>
  Shared vocabulary of the development: the machine integers of the Go code, the error values
  that the client libraries return, and the generic lemmas about lists that several components
  use (first-match search, last-match update, cutting a list into bounded chunks).  The chunking
  contract is a locale, since two different loops of the program promise it: the log-metrics
  frames (push/protocol.go, chunkServices) and the inventory snapshot (push/pusher.go,
  sendSnapshot).
\<close>

section \<open>Machine integers\<close>

text \<open>Go's fixed-width integers.  Comparisons of signed values go through \<open>sint\<close>.\<close>

type_synonym int32 = "32 word"
type_synonym int64 = "64 word"
type_synonym uint64 = "64 word"

abbreviation int64_min :: int where "int64_min \<equiv> - (2 ^ 63)"
abbreviation int64_max :: int where "int64_max \<equiv> 2 ^ 63 - 1"

lemma sint_of_int64: "int64_min \<le> i \<Longrightarrow> i \<le> int64_max \<Longrightarrow> sint (word_of_int i :: int64) = i"
  by (simp add: sint_sbintrunc' signed_take_bit_int_eq_self)

lemma int64_of_sint: "word_of_int (sint w) = (w :: int64)"
  by (metis of_int_sint scast_id)

lemma sint_int64_inj: "sint a = sint b \<Longrightarrow> a = (b :: int64)"
  by (metis int64_of_sint)

lemma sint_int64_bounds: "int64_min \<le> sint (w :: int64) \<and> sint w \<le> int64_max"
  using sint_ge [of w] sint_lt [of w] by simp

section \<open>Errors\<close>

text \<open>
  The errors the code tells apart.  The Kubernetes client reports the reason of an API error;
  apierrors.IsNotFound and the conflict test of retry.RetryOnConflict are tests of that reason.
  Everything else is an opaque message.
\<close>

datatype go_error = ErrNotFound string | ErrConflict string | ErrOther string

primrec err_msg :: "go_error \<Rightarrow> string" where
  "err_msg (ErrNotFound s) = s"
| "err_msg (ErrConflict s) = s"
| "err_msg (ErrOther s) = s"

primrec IsNotFound :: "go_error \<Rightarrow> bool" where
  "IsNotFound (ErrNotFound s) = True"
| "IsNotFound (ErrConflict s) = False"
| "IsNotFound (ErrOther s) = False"

primrec IsConflict :: "go_error \<Rightarrow> bool" where
  "IsConflict (ErrNotFound s) = False"
| "IsConflict (ErrConflict s) = True"
| "IsConflict (ErrOther s) = False"

section \<open>Lists\<close>

lemma find_Some_mem: "find P xs = Some x \<Longrightarrow> x \<in> set xs \<and> P x"
  by (auto simp: find_Some_iff)

lemma find_map_comp: "find P (map f xs) = map_option f (find (P \<circ> f) xs)"
  by (induction xs) auto

lemma find_append: "find P (xs @ ys) = (case find P xs of None \<Rightarrow> find P ys | Some x \<Rightarrow> Some x)"
  by (induction xs) auto

lemma length_filter_full: "length (filter P xs) = length xs \<longleftrightarrow> (\<forall>x \<in> set xs. P x)"
proof (induction xs)
  case (Cons x xs)
  moreover have "length (filter P xs) \<noteq> Suc (length xs)"
    using length_filter_le [of P xs] by linarith
  ultimately show ?case by auto
qed simp

text \<open>With distinct keys the first and the last match of a key coincide.\<close>

lemma find_rev_distinct:
  "distinct (map f xs) \<Longrightarrow> find (\<lambda>x. f x = k) (rev xs) = find (\<lambda>x. f x = k) xs"
proof (induction xs)
  case (Cons x xs)
  then have "f x = k \<Longrightarrow> find (\<lambda>x. f x = k) xs = None" by (auto simp: find_None_iff image_iff)
  then show ?case using Cons by (auto simp: find_append split: option.splits)
qed simp

text \<open>Updating one element of a list keeps everything that the update function keeps.\<close>

lemma map_list_update_same: "(i < length xs \<Longrightarrow> f y = f (xs ! i)) \<Longrightarrow> map f (xs[i := y]) = map f xs"
  by (cases "i < length xs") (simp_all add: map_update list_update_same_conv list_update_beyond)

section \<open>Cutting a list into chunks\<close>

text \<open>
  The reference function: chunks of \<open>n\<close> elements, the last one possibly shorter, no empty chunk.
\<close>

function chunks :: "nat \<Rightarrow> 'a list \<Rightarrow> 'a list list" where
  "chunks n xs = (if n = 0 \<or> xs = [] then [] else take n xs # chunks n (drop n xs))"
  by pat_completeness auto
termination
  by (relation "measure (\<lambda>(n, xs). length xs)") auto

declare chunks.simps [simp del]

lemma chunks_Nil [simp]: "chunks n [] = []"
  by (simp add: chunks.simps)

lemma chunks_step: "0 < n \<Longrightarrow> xs \<noteq> [] \<Longrightarrow> chunks n xs = take n xs # chunks n (drop n xs)"
  by (subst chunks.simps) simp

lemma concat_chunks: "0 < n \<Longrightarrow> concat (chunks n xs) = xs"
proof (induction n xs rule: chunks.induct)
  case (1 n xs)
  then show ?case by (cases "xs = []") (simp_all add: chunks_step)
qed

lemma chunks_size: "c \<in> set (chunks n xs) \<Longrightarrow> c \<noteq> [] \<and> length c \<le> n"
proof (induction n xs rule: chunks.induct)
  case (1 n xs)
  then show ?case by (cases "n = 0 \<or> xs = []") (auto simp: chunks_step chunks.simps [of 0])
qed

text \<open>Every chunk but the last is full, so the number of chunks is the least possible.\<close>

lemma length_chunks: "0 < n \<Longrightarrow> length (chunks n xs) = (length xs + n - 1) div n"
proof (induction n xs rule: chunks.induct)
  case (1 n xs)
  show ?case
  proof (cases "xs = []")
    case True
    then show ?thesis using "1.prems" by simp
  next
    case False
    then have IH: "length (chunks n (drop n xs)) = (length xs - n + n - 1) div n"
      using "1.IH" "1.prems" by simp
    show ?thesis
    proof (cases "length xs \<le> n")
      case True
      then have "(length xs + n - 1) div n = 1"
        using False "1.prems" by (intro div_nat_eqI) (cases xs; simp)+
      then show ?thesis using True False "1.prems" by (simp add: chunks_step)
    next
      case long: False
      then have "length xs + n - 1 = (length xs - 1) + n" using "1.prems" by simp
      then have "(length xs + n - 1) div n = Suc ((length xs - 1) div n)"
        using "1.prems" by (simp only: div_add_self2 Suc_eq_plus1 neq0_conv)
      moreover have "length (chunks n (drop n xs)) = (length xs - 1) div n"
        using IH long by simp
      ultimately show ?thesis using False "1.prems" by (simp add: chunks_step)
    qed
  qed
qed

text \<open>
  The contract of a function that splits work into frames: nothing is lost, duplicated or
  reordered, no frame is empty and no frame exceeds the cap.
\<close>

locale chunking =
  fixes split :: "'a list \<Rightarrow> 'a list list"
    and cap :: nat
  assumes joined: "concat (split xs) = xs"
    and sized: "c \<in> set (split xs) \<Longrightarrow> c \<noteq> [] \<and> length c \<le> cap"
begin

lemma split_empty: "split [] = []"
proof (cases "split []")
  case (Cons c cs)
  then have "concat (c # cs) = []" using joined [of "[]"] by simp
  then have "c = []" by simp
  moreover have "c \<noteq> []" using sized [of c "[]"] Cons by simp
  ultimately show ?thesis by simp
qed simp

lemma split_members: "(\<Union>c \<in> set (split xs). set c) = set xs"
  using arg_cong [OF joined, of set xs] by simp

lemma split_total: "sum_list (map length (split xs)) = length xs"
  using arg_cong [OF joined, of length xs] by (simp add: length_concat)

lemma split_count: "length xs \<le> cap * length (split xs)"
proof -
  have "sum_list (map length (split xs)) \<le> sum_list (map (\<lambda>_. cap) (split xs))"
    by (rule sum_list_mono) (auto dest: sized)
  then show ?thesis by (simp add: split_total sum_list_triv mult.commute)
qed

lemma split_map: "concat (map (map f) (split xs)) = map f xs"
  using arg_cong [OF joined, of "map f" xs] by (simp add: map_concat)

end

lemma chunking_chunks: "0 < n \<Longrightarrow> chunking (chunks n) n"
  by unfold_locales (auto simp: concat_chunks dest: chunks_size)

end
