(* ===== verification/Go_Strings.thy ===== *)
theory Go_Strings
  imports App_Prelude "HOL-Library.Sublist"
begin

text \<open>
  The parts of Go's string library that the program calls, on byte strings (a Go string is a
  sequence of bytes, so a HOL \<open>string\<close> with one \<open>char\<close> per byte): strings.Split with a
  one-byte separator, strings.TrimSpace with its Unicode white space in UTF-8, decimal output
  (strconv.Itoa, strconv.FormatInt and the verb %d), and the scheme that url.Parse reads.
\<close>

section \<open>strings.Split and its inverse\<close>

fun split_on :: "char \<Rightarrow> string \<Rightarrow> string list" where
  "split_on c [] = [[]]"
| "split_on c (x # xs) =
     (if x = c then [] # split_on c xs
      else (case split_on c xs of [] \<Rightarrow> [[x]] | y # ys \<Rightarrow> (x # y) # ys))"

fun join_with :: "char \<Rightarrow> string list \<Rightarrow> string" where
  "join_with c [] = []"
| "join_with c [s] = s"
| "join_with c (s # t # ts) = s @ c # join_with c (t # ts)"

lemma split_on_nonempty [simp]: "split_on c s \<noteq> []"
  by (induction s) (auto split: list.splits)

lemma split_on_no_sep: "p \<in> set (split_on c s) \<Longrightarrow> c \<notin> set p"
  by (induction s arbitrary: p) (auto split: list.splits if_splits)

lemma split_on_plain: "c \<notin> set s \<Longrightarrow> split_on c s = [s]"
  by (induction s) auto

lemma split_on_append: "c \<notin> set s \<Longrightarrow> split_on c (s @ c # t) = s # split_on c t"
  by (induction s) auto

lemma split_on_hd: "hd (split_on c s) = takeWhile (\<lambda>x. x \<noteq> c) s"
  by (induction s) (auto split: list.splits simp: hd_def)

lemma split_join: "ts \<noteq> [] \<Longrightarrow> \<forall>t \<in> set ts. c \<notin> set t \<Longrightarrow> split_on c (join_with c ts) = ts"
  by (induction c ts rule: join_with.induct) (auto simp: split_on_plain split_on_append)

lemma join_split: "join_with c (split_on c s) = s"
proof (induction s)
  case (Cons x xs)
  obtain y ys where "split_on c xs = y # ys" by (cases "split_on c xs") auto
  then show ?case using Cons by (cases ys) auto
qed simp

section \<open>strings.TrimSpace\<close>

text \<open>
  The UTF-8 encodings of the runes for which unicode.IsSpace holds: the ASCII ones, U+0085,
  U+00A0, U+1680, U+2000 to U+200A, U+2028, U+2029, U+202F, U+205F and U+3000.  A byte sequence
  that is not valid UTF-8 decodes to U+FFFD, which is not a space, so a trailing or leading space
  rune is exactly one of these sequences.
\<close>

definition space_runes :: "string list" where
  "space_runes =
     [[CHR 0x09], [CHR 0x0A], [CHR 0x0B], [CHR 0x0C], [CHR 0x0D], [CHR 0x20],
      [CHR 0xC2, CHR 0x85], [CHR 0xC2, CHR 0xA0], [CHR 0xE1, CHR 0x9A, CHR 0x80],
      [CHR 0xE2, CHR 0x80, CHR 0x80], [CHR 0xE2, CHR 0x80, CHR 0x81],
      [CHR 0xE2, CHR 0x80, CHR 0x82], [CHR 0xE2, CHR 0x80, CHR 0x83],
      [CHR 0xE2, CHR 0x80, CHR 0x84], [CHR 0xE2, CHR 0x80, CHR 0x85],
      [CHR 0xE2, CHR 0x80, CHR 0x86], [CHR 0xE2, CHR 0x80, CHR 0x87],
      [CHR 0xE2, CHR 0x80, CHR 0x88], [CHR 0xE2, CHR 0x80, CHR 0x89],
      [CHR 0xE2, CHR 0x80, CHR 0x8A], [CHR 0xE2, CHR 0x80, CHR 0xA8],
      [CHR 0xE2, CHR 0x80, CHR 0xA9], [CHR 0xE2, CHR 0x80, CHR 0xAF],
      [CHR 0xE2, CHR 0x81, CHR 0x9F], [CHR 0xE3, CHR 0x80, CHR 0x80]]"

fun strip_prefix :: "string \<Rightarrow> string \<Rightarrow> string option" where
  "strip_prefix [] s = Some s"
| "strip_prefix (p # ps) [] = None"
| "strip_prefix (p # ps) (c # s) = (if p = c then strip_prefix ps s else None)"

fun strip_any :: "string list \<Rightarrow> string \<Rightarrow> string option" where
  "strip_any [] s = None"
| "strip_any (w # ws) s =
     (case strip_prefix w s of Some r \<Rightarrow> Some r | None \<Rightarrow> strip_any ws s)"

function trim_by :: "string list \<Rightarrow> string \<Rightarrow> string" where
  "trim_by ws s =
     (case strip_any ws s of
        None \<Rightarrow> s
      | Some r \<Rightarrow> if length r < length s then trim_by ws r else s)"
  by pat_completeness auto
termination
  by (relation "measure (\<lambda>(ws, s). length s)") auto

declare trim_by.simps [simp del]

definition TrimSpace :: "string \<Rightarrow> string" where
  "TrimSpace s = rev (trim_by (map rev space_runes) (rev (trim_by space_runes s)))"

lemma strip_prefix_iff: "strip_prefix w s = Some r \<longleftrightarrow> s = w @ r"
  by (induction w s rule: strip_prefix.induct) auto

lemma strip_any_None_iff: "strip_any ws s = None \<longleftrightarrow> (\<forall>w \<in> set ws. \<not> prefix w s)"
proof (induction ws)
  case (Cons w ws)
  have "strip_prefix w s = None \<longleftrightarrow> \<not> prefix w s"
    by (auto simp: prefix_def strip_prefix_iff [symmetric] dest: not_None_eq [THEN iffD1])
  then show ?case using Cons by (auto split: option.splits)
qed simp

lemma strip_any_Some: "strip_any ws s = Some r \<Longrightarrow> \<exists>w \<in> set ws. s = w @ r"
  by (induction ws) (auto split: option.splits simp: strip_prefix_iff)

lemma trim_by_suffix: "suffix (trim_by ws s) s"
proof (induction ws s rule: trim_by.induct)
  case (1 ws s)
  show ?case
  proof (cases "strip_any ws s")
    case None
    then show ?thesis by (simp add: trim_by.simps [of ws s])
  next
    case (Some r)
    then obtain w where "s = w @ r" by (auto dest: strip_any_Some)
    then have "suffix r s" by (simp add: suffix_def)
    then show ?thesis using "1.IH" [OF Some] Some
      by (auto simp: trim_by.simps [of ws s] intro: suffix_order.trans)
  qed
qed

text \<open>The result has no removable prefix, as long as no removable prefix is empty.\<close>

lemma trim_by_stuck: "[] \<notin> set ws \<Longrightarrow> strip_any ws (trim_by ws s) = None"
proof (induction ws s rule: trim_by.induct)
  case (1 ws s)
  show ?case
  proof (cases "strip_any ws s")
    case None
    then show ?thesis by (simp add: trim_by.simps [of ws s])
  next
    case (Some r)
    then obtain w where "w \<in> set ws" "s = w @ r" by (auto dest: strip_any_Some)
    then have "length r < length s" using "1.prems" by (cases w) auto
    then show ?thesis using "1.IH" [OF Some] "1.prems" Some by (simp add: trim_by.simps [of ws s])
  qed
qed

lemma trim_by_fixed: "strip_any ws s = None \<Longrightarrow> trim_by ws s = s"
  by (simp add: trim_by.simps)

text \<open>The specification of a trimmed string: no space rune at either end.\<close>

definition trimmed :: "string \<Rightarrow> bool" where
  "trimmed s \<longleftrightarrow> (\<forall>w \<in> set space_runes. \<not> prefix w s \<and> \<not> suffix w s)"

lemma space_runes_nonempty: "[] \<notin> set space_runes" "[] \<notin> set (map rev space_runes)"
  by (simp_all add: space_runes_def)

lemma rev_prefix_iff: "prefix (rev w) (rev s) \<longleftrightarrow> suffix w s"
  by (simp add: suffix_to_prefix)

lemma TrimSpace_trimmed: "trimmed (TrimSpace s)"
proof -
  let ?t = "trim_by space_runes s"
  let ?u = "trim_by (map rev space_runes) (rev ?t)"
  have left: "\<not> prefix w ?t" if "w \<in> set space_runes" for w
    using trim_by_stuck [OF space_runes_nonempty(1), of s] that by (auto simp: strip_any_None_iff)
  have "suffix ?u (rev ?t)" by (rule trim_by_suffix)
  then have pre: "prefix (rev ?u) ?t" by (simp add: suffix_to_prefix)
  have right: "\<not> prefix (rev w) ?u" if "w \<in> set space_runes" for w
    using trim_by_stuck [OF space_runes_nonempty(2), of "rev ?t"] that
    by (auto simp: strip_any_None_iff)
  show ?thesis
    unfolding trimmed_def TrimSpace_def
  proof (intro ballI conjI)
    fix w assume w: "w \<in> set space_runes"
    show "\<not> prefix w (rev ?u)" using left [OF w] pre prefix_order.trans by blast
    show "\<not> suffix w (rev ?u)" using right [OF w] by (simp add: suffix_to_prefix)
  qed
qed

lemma TrimSpace_id: "trimmed s \<Longrightarrow> TrimSpace s = s"
  by (simp add: trimmed_def TrimSpace_def trim_by_fixed strip_any_None_iff rev_prefix_iff)

lemma TrimSpace_idem [simp]: "TrimSpace (TrimSpace s) = TrimSpace s"
  by (simp add: TrimSpace_id TrimSpace_trimmed)

lemma TrimSpace_set: "set (TrimSpace s) \<subseteq> set s"
proof -
  have "set (trim_by (map rev space_runes) (rev (trim_by space_runes s))) \<subseteq> set (trim_by space_runes s)"
    using set_mono_suffix [OF trim_by_suffix, of "map rev space_runes" "rev (trim_by space_runes s)"]
    by simp
  also have "\<dots> \<subseteq> set s" using set_mono_suffix [OF trim_by_suffix] .
  finally show ?thesis by (simp add: TrimSpace_def)
qed

lemma TrimSpace_Nil [simp]: "TrimSpace [] = []"
  using TrimSpace_set [of "[]"] by simp

section \<open>Decimal output\<close>

definition digit :: "nat \<Rightarrow> char" where
  "digit d = ''0123456789'' ! d"

fun nat_digits :: "nat \<Rightarrow> string" where
  "nat_digits n = (if n < 10 then [digit n] else nat_digits (n div 10) @ [digit (n mod 10)])"

declare nat_digits.simps [simp del]

definition format_int :: "int \<Rightarrow> string" where
  "format_int i = (if i < 0 then CHR ''-'' # nat_digits (nat (- i)) else nat_digits (nat i))"

lemma digit_inj: "m < 10 \<Longrightarrow> n < 10 \<Longrightarrow> digit m = digit n \<longleftrightarrow> m = n"
  unfolding digit_def by (subst nth_eq_iff_index_eq) auto

definition digit_chars :: "char set" where
  "digit_chars = set ''0123456789''"

lemma digit_in: "n < 10 \<Longrightarrow> digit n \<in> digit_chars"
  unfolding digit_def digit_chars_def by (rule nth_mem) simp

lemma nat_digits_set: "set (nat_digits n) \<subseteq> digit_chars"
proof (induction n rule: nat_digits.induct)
  case (1 n)
  then show ?case
    using digit_in [of n] digit_in [of "n mod 10"]
    by (cases "n < 10") (simp_all add: nat_digits.simps [of n])
qed

lemma nat_digits_nonempty [simp]: "nat_digits n \<noteq> []" "[] \<noteq> nat_digits n"
  by (simp_all add: nat_digits.simps [of n])

lemma nat_digits_inj: "nat_digits m = nat_digits n \<longleftrightarrow> m = n"
proof (induction m arbitrary: n rule: nat_digits.induct)
  case (1 m)
  consider "m < 10" "n < 10" | "m < 10" "10 \<le> n" | "10 \<le> m" "n < 10" | "10 \<le> m" "10 \<le> n"
    by linarith
  then show ?case
  proof cases
    case 1
    then show ?thesis by (simp add: nat_digits.simps [of m] nat_digits.simps [of n] digit_inj)
  next
    case 2
    then show ?thesis
      by (auto simp: nat_digits.simps [of m] nat_digits.simps [of n])
  next
    case 3
    then show ?thesis
      by (auto simp: nat_digits.simps [of m] nat_digits.simps [of n])
  next
    case 4
    then have "nat_digits m = nat_digits n \<longleftrightarrow> m div 10 = n div 10 \<and> m mod 10 = n mod 10"
      using "1.IH" [of "n div 10"]
      by (simp add: nat_digits.simps [of m] nat_digits.simps [of n] digit_inj)
    also have "\<dots> \<longleftrightarrow> m = n" by (metis div_mod_decomp)
    finally show ?thesis .
  qed
qed

lemma nat_digits_free: "c \<notin> digit_chars \<Longrightarrow> c \<notin> set (nat_digits n)"
  using nat_digits_set by blast

lemma digit_chars_free [simp]:
  "CHR ''-'' \<notin> digit_chars" "CHR ''/'' \<notin> digit_chars" "CHR 0x0A \<notin> digit_chars"
  by (simp_all add: digit_chars_def)

lemma format_int_free: "c \<notin> digit_chars \<Longrightarrow> c \<noteq> CHR ''-'' \<Longrightarrow> c \<notin> set (format_int i)"
  by (simp add: format_int_def nat_digits_free)

lemma nat_digits_not_minus: "nat_digits n \<noteq> CHR ''-'' # s" "CHR ''-'' # s \<noteq> nat_digits n"
  using nat_digits_free [of "CHR ''-''" n] by (metis digit_chars_free(1) list.set_intros(1))+

lemma format_int_inj: "format_int i = format_int j \<longleftrightarrow> i = j"
  by (simp add: format_int_def nat_digits_inj nat_digits_not_minus) arith

text \<open>fmt.Sprintf with the format %d/%d.\<close>

definition ratio_string :: "nat \<Rightarrow> nat \<Rightarrow> string" where
  "ratio_string a b = nat_digits a @ ''/'' @ nat_digits b"

lemma ratio_string_inj: "ratio_string a b = ratio_string c d \<longleftrightarrow> a = c \<and> b = d"
proof
  assume eq: "ratio_string a b = ratio_string c d"
  have plain: "CHR ''/'' \<notin> set (nat_digits n)" for n by (simp add: nat_digits_free)
  have "split_on (CHR ''/'') (ratio_string m n) = [nat_digits m, nat_digits n]" for m n
    using split_on_append [OF plain, of m "nat_digits n"] split_on_plain [OF plain, of n]
    by (simp add: ratio_string_def)
  with eq have "[nat_digits a, nat_digits b] = [nat_digits c, nat_digits d]" by metis
  then show "a = c \<and> b = d" by (simp add: nat_digits_inj)
qed simp

section \<open>The scheme of a URL\<close>

text \<open>
  url.Parse first cuts the fragment at the first number sign, then reads the scheme: the
  longest initial run of letters, and of digits, plus, minus and dot after the first byte, ended
  by a colon.  A colon at the very start is an error, any other byte means that there is no
  scheme.  The scheme is lowercased.
\<close>

definition is_letter :: "char \<Rightarrow> bool" where
  "is_letter c \<longleftrightarrow>
     (65 \<le> (of_char c :: nat) \<and> (of_char c :: nat) \<le> 90) \<or>
     (97 \<le> (of_char c :: nat) \<and> (of_char c :: nat) \<le> 122)"

definition lower_ascii :: "char \<Rightarrow> char" where
  "lower_ascii c =
     (if 65 \<le> (of_char c :: nat) \<and> (of_char c :: nat) \<le> 90 then char_of ((of_char c :: nat) + 32) else c)"

text \<open>\<open>Inl\<close>: missing protocol scheme; \<open>Inr None\<close>: no scheme; \<open>Inr (Some s)\<close>: scheme \<open>s\<close>.\<close>

fun scan_scheme :: "string \<Rightarrow> string \<Rightarrow> go_error + string option" where
  "scan_scheme acc [] = Inr None"
| "scan_scheme acc (c # s) =
     (if is_letter c then scan_scheme (acc @ [c]) s
      else if c \<in> set ''0123456789+-.'' then
        (if acc = [] then Inr None else scan_scheme (acc @ [c]) s)
      else if c = CHR '':'' then
        (if acc = [] then Inl (ErrOther ''missing protocol scheme'') else Inr (Some acc))
      else Inr None)"

definition url_scheme :: "string \<Rightarrow> go_error + string" where
  "url_scheme raw =
     (case scan_scheme [] (takeWhile (\<lambda>c. c \<noteq> CHR ''#'') raw) of
        Inl e \<Rightarrow> Inl e
      | Inr None \<Rightarrow> Inr []
      | Inr (Some s) \<Rightarrow> Inr (map lower_ascii s))"

end
