(* ===== verification/Api_Types.thy ===== *)
theory Api_Types
  imports Go_Strings
begin

text \<open>
  The API types of api/v1beta1/application_types.go, one record per struct with the struct's
  fields in order, and StripVersion.  Times are nanoseconds since the epoch.  The types of
  k8s.io/apimachinery and k8s.io/api that the structs embed are data of other modules: of
  metav1.ObjectMeta the record holds the fields that this program reads, metav1.LabelSelector and
  metav1.GroupKind are plain data, and so are metav1.TypeMeta and corev1.ObjectReference, structs of
  strings.
\<close>

section \<open>Types of other modules\<close>

record TypeMeta =
  tm_Kind :: string
  tm_APIVersion :: string

record ObjectReference =
  ref_Kind :: string
  ref_Namespace :: string
  ref_Name :: string
  ref_UID :: string
  ref_APIVersion :: string
  ref_ResourceVersion :: string
  ref_FieldPath :: string

record GroupKind =
  gk_Group :: string
  gk_Kind :: string

record GroupVersionKind =
  gvk_Group :: string
  gvk_Version :: string
  gvk_Kind :: string

record NamespacedName =
  nn_Namespace :: string
  nn_Name :: string

record LabelSelectorRequirement =
  req_Key :: string
  req_Operator :: string
  req_Values :: "string list"

record LabelSelector =
  sel_MatchLabels :: "(string \<times> string) list"
  sel_MatchExpressions :: "LabelSelectorRequirement list"

record ObjectMeta =
  om_Name :: string
  om_Namespace :: string
  om_Generation :: int64
  om_DeletionTimestamp :: "int option"
  om_Labels :: "(string \<times> string) list"

record ListMeta =
  lm_ResourceVersion :: string
  lm_Continue :: string

section \<open>Condition types\<close>

definition Ready :: string where "Ready = ''Ready''"
definition Qualified :: string where "Qualified = ''Qualified''"
definition Settled :: string where "Settled = ''Settled''"
definition Cleanup :: string where "Cleanup = ''Cleanup''"
definition Error :: string where "Error = ''Error''"
definition ReasonInit :: string where "ReasonInit = ''Init''"

text \<open>The values of corev1.ConditionStatus.\<close>

definition ConditionTrue :: string where "ConditionTrue = ''True''"
definition ConditionFalse :: string where "ConditionFalse = ''False''"
definition ConditionUnknown :: string where "ConditionUnknown = ''Unknown''"

lemma condition_status_distinct [simp]:
  "ConditionTrue \<noteq> ConditionFalse" "ConditionFalse \<noteq> ConditionTrue"
  "ConditionTrue \<noteq> ConditionUnknown" "ConditionUnknown \<noteq> ConditionTrue"
  "ConditionFalse \<noteq> ConditionUnknown" "ConditionUnknown \<noteq> ConditionFalse"
  by (simp_all add: ConditionTrue_def ConditionFalse_def ConditionUnknown_def)

lemma condition_type_distinct [simp]: "Ready \<noteq> Error" "Error \<noteq> Ready"
  by (simp_all add: Ready_def Error_def)

section \<open>The structs\<close>

record ImageSpec =
  img_Source :: string
  img_Size :: string
  img_Type :: string

record ContactData =
  cd_Name :: string
  cd_URL :: string
  cd_Email :: string

record Link =
  link_Description :: string
  link_URL :: string

record Descriptor =
  desc_Type :: string
  desc_Version :: string
  desc_Description :: string
  desc_Icons :: "ImageSpec list"
  desc_Maintainers :: "ContactData list"
  desc_Owners :: "ContactData list"
  desc_Keywords :: "string list"
  desc_Links :: "Link list"
  desc_Notes :: string

record ConfigMapKeySelector =
  cmks_ObjectReference :: ObjectReference
  cmks_Key :: string

record SecretKeySelector =
  sks_ObjectReference :: ObjectReference
  sks_Key :: string

record ServiceSelector =
  ss_ObjectReference :: ObjectReference
  ss_Port :: "int32 option"
  ss_Path :: string
  ss_Protocol :: string

record IngressSelector =
  is_ObjectReference :: ObjectReference
  is_Host :: string
  is_Path :: string
  is_Protocol :: string

text \<open>The string types of the API, and the constants declared for them.\<close>

type_synonym ConditionType = string
type_synonym InfoItemType = string
type_synonym InfoItemSourceType = string
type_synonym ApplicationAssemblyPhase = string

definition ValueInfoItemType :: InfoItemType where "ValueInfoItemType = ''Value''"
definition ReferenceInfoItemType :: InfoItemType where "ReferenceInfoItemType = ''Reference''"

definition SecretKeyRefInfoItemSourceType :: InfoItemSourceType where
  "SecretKeyRefInfoItemSourceType = ''SecretKeyRef''"
definition ConfigMapKeyRefInfoItemSourceType :: InfoItemSourceType where
  "ConfigMapKeyRefInfoItemSourceType = ''ConfigMapKeyRef''"
definition ServiceRefInfoItemSourceType :: InfoItemSourceType where
  "ServiceRefInfoItemSourceType = ''ServiceRef''"
definition IngressRefInfoItemSourceType :: InfoItemSourceType where
  "IngressRefInfoItemSourceType = ''IngressRef''"

definition Pending :: ApplicationAssemblyPhase where "Pending = ''Pending''"
definition Succeeded :: string where "Succeeded = ''Succeeded''"
definition Failed :: string where "Failed = ''Failed''"

record InfoItemSource =
  src_Type :: InfoItemSourceType
  src_SecretKeyRef :: "SecretKeySelector option"
  src_ConfigMapKeyRef :: "ConfigMapKeySelector option"
  src_ServiceRef :: "ServiceSelector option"
  src_IngressRef :: "IngressSelector option"

record InfoItem =
  info_Name :: string
  info_Type :: InfoItemType
  info_Value :: string
  info_ValueFrom :: "InfoItemSource option"

record ApplicationSpec =
  spec_ComponentGroupKinds :: "GroupKind list"
  spec_Descriptor :: Descriptor
  spec_Selector :: "LabelSelector option"
  spec_AddOwnerRef :: bool
  spec_Info :: "InfoItem list"
  spec_AssemblyPhase :: ApplicationAssemblyPhase

record ObjectStatus =
  os_Link :: string
  os_Name :: string
  os_Kind :: string
  os_Group :: string
  os_Status :: string

record ComponentList =
  cl_Objects :: "ObjectStatus list"

record Condition =
  cond_Type :: ConditionType
  cond_Status :: string
  cond_Reason :: string
  cond_Message :: string
  cond_LastUpdateTime :: int
  cond_LastTransitionTime :: int

record ApplicationStatus =
  st_ObservedGeneration :: int64
  st_Conditions :: "Condition list"
  st_ComponentList :: ComponentList
  st_ComponentsReady :: string

record Application =
  app_TypeMeta :: TypeMeta
  app_Meta :: ObjectMeta
  app_Spec :: ApplicationSpec
  app_Status :: ApplicationStatus

record ApplicationList =
  al_TypeMeta :: TypeMeta
  al_ListMeta :: ListMeta
  al_Items :: "Application list"

section \<open>StripVersion\<close>

text \<open>The regular expression ^[vV][0-9].* looks at the first two bytes only.\<close>

fun version_like :: "string \<Rightarrow> bool" where
  "version_like (c # d # s) = (c \<in> {CHR ''v'', CHR ''V''} \<and> d \<in> digit_chars)"
| "version_like s = False"

definition StripVersion :: "string \<Rightarrow> string" where
  "StripVersion gv =
     (if gv = [] then gv
      else if version_like gv then []
      else hd (split_on (CHR ''/'') gv))"

lemma StripVersion_eq: "StripVersion gv = (if version_like gv then [] else takeWhile (\<lambda>c. c \<noteq> CHR ''/'') gv)"
  by (simp add: StripVersion_def split_on_hd)

lemma version_like_takeWhile:
  "version_like (takeWhile (\<lambda>c. c \<noteq> CHR ''/'') gv) \<Longrightarrow> version_like gv"
  by (cases gv rule: version_like.cases) (auto split: if_splits)

lemma StripVersion_props:
  "prefix (StripVersion gv) gv"
  "CHR ''/'' \<notin> set (StripVersion gv)"
  "\<not> version_like (StripVersion gv)"
  using version_like_takeWhile [of gv]
  by (auto simp: StripVersion_eq takeWhile_is_prefix dest: set_takeWhileD)

lemma StripVersion_fixed: "CHR ''/'' \<notin> set g \<Longrightarrow> \<not> version_like g \<Longrightarrow> StripVersion g = g"
  by (auto simp: StripVersion_eq takeWhile_eq_all_conv)

lemma StripVersion_pair:
  "CHR ''/'' \<notin> set g \<Longrightarrow> \<not> version_like (g @ CHR ''/'' # v) \<Longrightarrow> StripVersion (g @ CHR ''/'' # v) = g"
  using split_on_append [of "CHR ''/''" g v] by (simp add: StripVersion_def)

text \<open>
  StripVersion reduces the group field of a component kind to a bare API group: the result
  has no version part and no slash, it is a prefix of the input, and stripping again changes
  nothing; a group/version pair gives its group unless the pair itself looks like a version.
\<close>

lemma StripVersion_bare_group:
  "prefix (StripVersion gv) gv \<and> CHR ''/'' \<notin> set (StripVersion gv) \<and>
   \<not> version_like (StripVersion gv) \<and> StripVersion (StripVersion gv) = StripVersion gv \<and>
   (\<forall>g v. gv = g @ CHR ''/'' # v \<and> CHR ''/'' \<notin> set g \<and> \<not> version_like gv \<longrightarrow> StripVersion gv = g)"
  by (auto simp: StripVersion_props StripVersion_pair intro!: StripVersion_fixed)

lemma StripVersion_bare_group_example:
  "StripVersion ''apps/v1alpha2'' = ''apps'' \<and> StripVersion ''v1beta1'' = ''''"
proof -
  have "''apps/v1alpha2'' = ''apps'' @ CHR ''/'' # ''v1alpha2'' \<and> CHR ''/'' \<notin> set ''apps'' \<and>
      \<not> version_like ''apps/v1alpha2''"
    by simp
  then have "StripVersion ''apps/v1alpha2'' = ''apps''"
    using StripVersion_bare_group [of "''apps/v1alpha2''"] by blast
  then show ?thesis by (simp add: StripVersion_eq digit_chars_def)
qed

end
