(* ===== verification/Go_Float.thy ===== *)
theory Go_Float
  imports App_Prelude
begin

text \<open>
  Go's float64, as far as logmetrics uses it: addition, subtraction, the comparison with zero and
  the conversion to int64.  A finite float64 is an integral multiple of 2 to the power -1074, so
  \<open>Fin n\<close> holds that multiple; a sum or difference is exact in this representation and is then
  rounded to 53 significant bits, ties to even, as IEEE 754 prescribes.  The sign of zero is not
  represented: neither the comparison nor the conversion sees it.
\<close>

datatype f64 = NaN | PInf | NInf | Fin int

section \<open>Rounding\<close>

fun bit_len :: "nat \<Rightarrow> nat" where
  "bit_len n = (if n = 0 then 0 else Suc (bit_len (n div 2)))"

declare bit_len.simps [simp del]

definition round_mag :: "nat \<Rightarrow> nat" where
  "round_mag m =
     (let k = bit_len m - 53; q = m div 2 ^ k; r = m mod 2 ^ k
      in if k = 0 then m
         else (if 2 ^ (k - 1) < r \<or> r = 2 ^ (k - 1) \<and> odd q then Suc q else q) * 2 ^ k)"

definition f64_round :: "int \<Rightarrow> f64" where
  "f64_round n =
     (let m = round_mag (nat \<bar>n\<bar>)
      in if 2 ^ 2098 \<le> m then (if n < 0 then NInf else PInf) else Fin (sgn n * int m))"

section \<open>Operations\<close>

fun f64_add :: "f64 \<Rightarrow> f64 \<Rightarrow> f64" where
  "f64_add NaN y = NaN"
| "f64_add x NaN = NaN"
| "f64_add PInf NInf = NaN"
| "f64_add NInf PInf = NaN"
| "f64_add PInf y = PInf"
| "f64_add NInf y = NInf"
| "f64_add x PInf = PInf"
| "f64_add x NInf = NInf"
| "f64_add (Fin a) (Fin b) = f64_round (a + b)"

fun f64_neg :: "f64 \<Rightarrow> f64" where
  "f64_neg NaN = NaN"
| "f64_neg PInf = NInf"
| "f64_neg NInf = PInf"
| "f64_neg (Fin a) = Fin (- a)"

definition f64_sub :: "f64 \<Rightarrow> f64 \<Rightarrow> f64" where
  "f64_sub x y = f64_add x (f64_neg y)"

fun f64_negative :: "f64 \<Rightarrow> bool" where
  "f64_negative NaN = False"
| "f64_negative PInf = False"
| "f64_negative NInf = True"
| "f64_negative (Fin a) = (a < 0)"

text \<open>
  The conversion truncates towards zero.  Outside the range of int64 the result depends on the
  implementation, which is the argument \<open>ovf\<close>.
\<close>

definition f64_trunc :: "int \<Rightarrow> int" where
  "f64_trunc n = sgn n * (\<bar>n\<bar> div 2 ^ 1074)"

definition f64_to_int64 :: "(f64 \<Rightarrow> int64) \<Rightarrow> f64 \<Rightarrow> int64" where
  "f64_to_int64 ovf x =
     (case x of
        Fin n \<Rightarrow>
          (if int64_min \<le> f64_trunc n \<and> f64_trunc n \<le> int64_max
           then word_of_int (f64_trunc n) else ovf x)
      | _ \<Rightarrow> ovf x)"

definition f64_of_int :: "int \<Rightarrow> f64" where
  "f64_of_int i = Fin (i * 2 ^ 1074)"

section \<open>Integers up to 2 to the 53 are exact\<close>

lemma bit_len_0 [simp]: "bit_len 0 = 0"
  by (simp add: bit_len.simps)

lemma bit_len_le: "m < 2 ^ k \<Longrightarrow> bit_len m \<le> k"
proof (induction m arbitrary: k rule: bit_len.induct)
  case (1 m)
  show ?case
  proof (cases "m = 0")
    case False
    with "1.prems" obtain k' where k: "k = Suc k'" by (cases k) auto
    with "1.prems" have "m div 2 < 2 ^ k'" by auto
    then have "bit_len (m div 2) \<le> k'" using "1.IH" False by simp
    then show ?thesis using False k by (simp add: bit_len.simps [of m])
  qed simp
qed

lemma round_mag_exact: "2 ^ (bit_len m - 53) dvd m \<Longrightarrow> round_mag m = m"
  by (auto simp: round_mag_def Let_def)

lemma round_mag_int:
  assumes "m \<le> 2 ^ 53"
  shows "round_mag (m * 2 ^ 1074) = m * 2 ^ 1074"
proof (rule round_mag_exact)
  show "2 ^ (bit_len (m * 2 ^ 1074) - 53) dvd m * 2 ^ 1074"
  proof (cases "m = 2 ^ 53")
    case True
    have "m * 2 ^ 1074 = 2 ^ 1127" unfolding True by (simp only: power_add [symmetric]) simp
    moreover have "bit_len (2 ^ 1127) \<le> 1128" by (rule bit_len_le) (rule power_strict_increasing; simp)
    ultimately show ?thesis by (simp only: le_imp_power_dvd)
  next
    case False
    with assms have "m * 2 ^ 1074 < 2 ^ 53 * 2 ^ 1074" by (intro mult_strict_right_mono) simp_all
    then have "m * 2 ^ 1074 < 2 ^ 1127" by (simp only: power_add [symmetric]) simp
    then have "bit_len (m * 2 ^ 1074) - 53 \<le> 1074" using bit_len_le [of "m * 2 ^ 1074" 1127] by simp
    then show ?thesis by (intro dvd_mult le_imp_power_dvd)
  qed
qed

lemma f64_round_int:
  assumes "\<bar>i\<bar> \<le> 2 ^ 53"
  shows "f64_round (i * 2 ^ 1074) = f64_of_int i"
proof -
  let ?m = "nat \<bar>i\<bar>"
  have le: "?m \<le> 2 ^ 53" using assms by simp
  have mag: "nat \<bar>i * 2 ^ 1074\<bar> = ?m * 2 ^ 1074" by (simp only: abs_mult nat_mult_distrib abs_ge_zero nat_power_eq abs_power2 abs_numeral power_abs zero_le_numeral nat_numeral)
  have "?m * 2 ^ 1074 \<le> 2 ^ 53 * 2 ^ 1074" using le by (rule mult_le_mono1)
  also have "(2::nat) ^ 53 * 2 ^ 1074 < 2 ^ 2098"
    by (simp only: power_add [symmetric]) (rule power_strict_increasing; simp)
  finally have small: "\<not> 2 ^ 2098 \<le> ?m * 2 ^ 1074" by (simp only: not_le)
  have sg: "sgn (i * 2 ^ 1074) * int (?m * 2 ^ 1074) = i * 2 ^ 1074"
  proof -
    have "int (?m * 2 ^ 1074) = \<bar>i\<bar> * 2 ^ 1074" by (simp only: of_nat_mult of_nat_power int_nat_eq) simp
    moreover have "sgn (i * 2 ^ 1074) = sgn i" by (simp only: sgn_mult) simp
    ultimately show ?thesis by (simp only: mult.assoc [symmetric] sgn_mult_abs)
  qed
  show ?thesis
    unfolding f64_round_def f64_of_int_def Let_def mag round_mag_int [OF le]
    using small by (simp only: if_False sg)
qed

lemma f64_add_int: "\<bar>a + b\<bar> \<le> 2 ^ 53 \<Longrightarrow> f64_add (f64_of_int a) (f64_of_int b) = f64_of_int (a + b)"
  using f64_round_int [of "a + b"] by (simp only: f64_of_int_def f64_add.simps distrib_right)

lemma f64_sub_int: "\<bar>a - b\<bar> \<le> 2 ^ 53 \<Longrightarrow> f64_sub (f64_of_int a) (f64_of_int b) = f64_of_int (a - b)"
  using f64_round_int [of "a - b"]
  by (simp only: f64_of_int_def f64_sub_def f64_neg.simps f64_add.simps left_diff_distrib
      add_uminus_conv_diff)

lemma f64_negative_int [simp]: "f64_negative (f64_of_int i) \<longleftrightarrow> i < 0"
  by (simp only: f64_of_int_def f64_negative.simps mult_less_0_iff) simp

lemma f64_trunc_int: "f64_trunc (i * 2 ^ 1074) = i"
proof -
  have "\<bar>i * 2 ^ 1074\<bar> = \<bar>i\<bar> * 2 ^ 1074" by (simp only: abs_mult) simp
  then have "\<bar>i * 2 ^ 1074\<bar> div 2 ^ 1074 = \<bar>i\<bar>" by simp
  moreover have "sgn (i * 2 ^ 1074) = sgn i" by (simp only: sgn_mult) simp
  ultimately show ?thesis by (simp only: f64_trunc_def sgn_mult_abs)
qed

lemma f64_to_int64_int:
  "int64_min \<le> i \<Longrightarrow> i \<le> int64_max \<Longrightarrow> f64_to_int64 ovf (f64_of_int i) = word_of_int i"
  by (simp only: f64_to_int64_def f64_of_int_def f64.case f64_trunc_int) simp

end
