(* ===== verification/Workload_Status.thy ===== *)
theory Workload_Status
  imports Api_Types Go_Float
begin

text \<open>
  The readiness of one component object (controllers/status.go): the dispatch on the group and
  kind, one verdict per kind, the readers of positive conditions (Gateway API, kagent) and the
  fallback for any other kind.

  A typed Kubernetes object is a record of the fields that the code reads (and of the generation
  fields that it deliberately does not read).  Code of k8s.io/apimachinery is the argument \<open>L\<close> of
  type \<open>k8s_lib\<close>: the conversion from unstructured content to each typed object, the accessors
  NestedSlice, NestedString and NestedInt64, and GroupKind.String.
\<close>

section \<open>Unstructured objects\<close>

text \<open>The values of a decoded JSON object (Go's any); a map has each key once.\<close>

datatype goval =
    GNil
  | GBool bool
  | GInt int64
  | GFloat f64
  | GStr string
  | GList "goval list"
  | GMap "(string \<times> goval) list"

type_synonym gomap = "(string \<times> goval) list"

record Unstructured =
  u_Group :: string
  u_Version :: string
  u_Kind :: string
  u_Name :: string
  u_Namespace :: string
  u_Labels :: "(string \<times> string) list"
  u_Object :: gomap

section \<open>Typed objects\<close>

record WorkloadCondition =
  wc_Type :: string
  wc_Status :: string
  wc_Reason :: string

record StatefulSet =
  sts_Generation :: int64
  sts_ObservedGeneration :: int64
  sts_SpecReplicas :: "int32 option"
  sts_Replicas :: int32
  sts_CurrentReplicas :: int32
  sts_ReadyReplicas :: int32

record Deployment =
  dep_Generation :: int64
  dep_ObservedGeneration :: int64
  dep_SpecReplicas :: "int32 option"
  dep_Replicas :: int32
  dep_ReadyReplicas :: int32
  dep_AvailableReplicas :: int32
  dep_Conditions :: "WorkloadCondition list"

record ReplicaSet =
  rs_Generation :: int64
  rs_ObservedGeneration :: int64
  rs_SpecReplicas :: "int32 option"
  rs_Replicas :: int32
  rs_AvailableReplicas :: int32
  rs_Conditions :: "WorkloadCondition list"

record DaemonSet =
  ds_Generation :: int64
  ds_ObservedGeneration :: int64
  ds_DesiredNumberScheduled :: int32
  ds_NumberReady :: int32
  ds_NumberUnavailable :: int32

record PersistentVolumeClaim =
  pvc_Phase :: string

record LoadBalancerIngress =
  ing_IP :: string
  ing_Hostname :: string

record Service =
  svc_Type :: string
  svc_ClusterIP :: string
  svc_Ingress :: "LoadBalancerIngress list"

record Pod =
  pod_Conditions :: "WorkloadCondition list"

record PodDisruptionBudget =
  pdb_Generation :: int64
  pdb_ObservedGeneration :: int64
  pdb_CurrentHealthy :: int32
  pdb_DesiredHealthy :: int32

record ReplicationController =
  rc_Generation :: int64
  rc_ObservedGeneration :: int64
  rc_SpecReplicas :: "int32 option"
  rc_Replicas :: int32
  rc_AvailableReplicas :: int32

record Job =
  job_Conditions :: "WorkloadCondition list"

record CronJob =
  cj_Suspend :: "bool option"

record k8s_lib =
  asStatefulSet :: "gomap \<Rightarrow> go_error + StatefulSet"
  asDeployment :: "gomap \<Rightarrow> go_error + Deployment"
  asReplicaSet :: "gomap \<Rightarrow> go_error + ReplicaSet"
  asDaemonSet :: "gomap \<Rightarrow> go_error + DaemonSet"
  asPVC :: "gomap \<Rightarrow> go_error + PersistentVolumeClaim"
  asService :: "gomap \<Rightarrow> go_error + Service"
  asPod :: "gomap \<Rightarrow> go_error + Pod"
  asPDB :: "gomap \<Rightarrow> go_error + PodDisruptionBudget"
  asReplicationController :: "gomap \<Rightarrow> go_error + ReplicationController"
  asJob :: "gomap \<Rightarrow> go_error + Job"
  asCronJob :: "gomap \<Rightarrow> go_error + CronJob"
  NestedSlice :: "gomap \<Rightarrow> string list \<Rightarrow> goval list \<times> bool \<times> go_error option"
  NestedString :: "gomap \<Rightarrow> string list \<Rightarrow> string \<times> bool \<times> go_error option"
  NestedInt64 :: "gomap \<Rightarrow> string list \<Rightarrow> int64 \<times> bool \<times> go_error option"
  gkString :: "string \<Rightarrow> string \<Rightarrow> string"

section \<open>Verdicts\<close>

definition StatusReady :: string where "StatusReady = ''Ready''"
definition StatusInProgress :: string where "StatusInProgress = ''InProgress''"
definition StatusUnknown :: string where "StatusUnknown = ''Unknown''"

type_synonym verdict = "string \<times> go_error option"

lemma status_distinct [simp]:
  "StatusReady \<noteq> StatusInProgress" "StatusInProgress \<noteq> StatusReady"
  "StatusReady \<noteq> StatusUnknown" "StatusUnknown \<noteq> StatusReady"
  "StatusInProgress \<noteq> StatusUnknown" "StatusUnknown \<noteq> StatusInProgress"
  by (simp_all add: StatusReady_def StatusInProgress_def StatusUnknown_def)

text \<open>The replica count that an absent spec.replicas stands for, and the scaled-to-zero test.\<close>

definition desired_replicas :: "int32 option \<Rightarrow> int32" where
  "desired_replicas r = (case r of None \<Rightarrow> 1 | Some n \<Rightarrow> n)"

definition scaled_to_zero :: "int32 option \<Rightarrow> int32 \<Rightarrow> bool" where
  "scaled_to_zero r n \<longleftrightarrow> desired_replicas r = 0 \<and> n = 0"

subsection \<open>Typed workloads\<close>

definition sts_verdict :: "StatefulSet \<Rightarrow> string" where
  "sts_verdict sts =
     (if scaled_to_zero (sts_SpecReplicas sts) (sts_Replicas sts) \<or>
         (0 < sint (sts_CurrentReplicas sts) \<and> sts_ReadyReplicas sts = sts_CurrentReplicas sts)
      then StatusReady else StatusInProgress)"

definition stsStatus :: "k8s_lib \<Rightarrow> Unstructured \<Rightarrow> verdict" where
  "stsStatus L u =
     (case asStatefulSet L (u_Object u) of
        Inl e \<Rightarrow> (StatusUnknown, Some e)
      | Inr sts \<Rightarrow> (sts_verdict sts, None))"

text \<open>The loop over the conditions, with the flags replicaFailure and available.\<close>

fun deployment_flags :: "WorkloadCondition list \<Rightarrow> bool \<Rightarrow> bool \<Rightarrow> bool \<times> bool" where
  "deployment_flags [] replicaFailure available = (replicaFailure, available)"
| "deployment_flags (c # cs) replicaFailure available =
     (if wc_Type c = ''Available'' then
        deployment_flags cs replicaFailure (if wc_Status c = ConditionTrue then True else available)
      else if wc_Type c = ''ReplicaFailure'' then
        deployment_flags cs (if wc_Status c = ConditionTrue then True else replicaFailure) available
      else deployment_flags cs replicaFailure available)"

definition deployment_verdict :: "Deployment \<Rightarrow> string" where
  "deployment_verdict d =
     (let (replicaFailure, available) = deployment_flags (dep_Conditions d) False False
      in if \<not> replicaFailure \<and> (scaled_to_zero (dep_SpecReplicas d) (dep_Replicas d) \<or> available)
         then StatusReady else StatusInProgress)"

definition deploymentStatus :: "k8s_lib \<Rightarrow> Unstructured \<Rightarrow> verdict" where
  "deploymentStatus L u =
     (case asDeployment L (u_Object u) of
        Inl e \<Rightarrow> (StatusUnknown, Some e)
      | Inr d \<Rightarrow> (deployment_verdict d, None))"

fun replicaset_failure :: "WorkloadCondition list \<Rightarrow> bool \<Rightarrow> bool" where
  "replicaset_failure [] replicaFailure = replicaFailure"
| "replicaset_failure (c # cs) replicaFailure =
     replicaset_failure cs
       (if wc_Type c = ''ReplicaFailure'' \<and> wc_Status c = ConditionTrue then True else replicaFailure)"

definition replicaset_verdict :: "ReplicaSet \<Rightarrow> string" where
  "replicaset_verdict rs =
     (if \<not> replicaset_failure (rs_Conditions rs) False \<and>
         (scaled_to_zero (rs_SpecReplicas rs) (rs_Replicas rs) \<or> 0 < sint (rs_AvailableReplicas rs))
      then StatusReady else StatusInProgress)"

definition replicasetStatus :: "k8s_lib \<Rightarrow> Unstructured \<Rightarrow> verdict" where
  "replicasetStatus L u =
     (case asReplicaSet L (u_Object u) of
        Inl e \<Rightarrow> (StatusUnknown, Some e)
      | Inr rs \<Rightarrow> (replicaset_verdict rs, None))"

definition daemonset_verdict :: "DaemonSet \<Rightarrow> string" where
  "daemonset_verdict ds = (if ds_NumberUnavailable ds = 0 then StatusReady else StatusInProgress)"

definition daemonsetStatus :: "k8s_lib \<Rightarrow> Unstructured \<Rightarrow> verdict" where
  "daemonsetStatus L u =
     (case asDaemonSet L (u_Object u) of
        Inl e \<Rightarrow> (StatusUnknown, Some e)
      | Inr ds \<Rightarrow> (daemonset_verdict ds, None))"

definition pvcStatus :: "k8s_lib \<Rightarrow> Unstructured \<Rightarrow> verdict" where
  "pvcStatus L u =
     (case asPVC L (u_Object u) of
        Inl e \<Rightarrow> (StatusUnknown, Some e)
      | Inr pvc \<Rightarrow> (if pvc_Phase pvc = ''Bound'' then StatusReady else StatusInProgress, None))"

subsection \<open>Services\<close>

definition isEmpty :: "string \<Rightarrow> bool" where
  "isEmpty s \<longleftrightarrow> length (TrimSpace s) = 0"

fun allIngressProvisioned :: "LoadBalancerIngress list \<Rightarrow> bool" where
  "allIngressProvisioned [] = True"
| "allIngressProvisioned (i # is) =
     (if isEmpty (ing_IP i) \<and> isEmpty (ing_Hostname i) then False else allIngressProvisioned is)"

definition service_verdict :: "Service \<Rightarrow> string" where
  "service_verdict s =
     (if svc_Type s = ''ClusterIP'' \<or> svc_Type s = ''NodePort'' \<or> svc_Type s = ''ExternalName''
      then StatusReady
      else if svc_Type s = ''LoadBalancer'' \<and> \<not> isEmpty (svc_ClusterIP s) \<and>
              0 < length (svc_Ingress s) \<and> allIngressProvisioned (svc_Ingress s)
      then StatusReady else StatusInProgress)"

definition serviceStatus :: "k8s_lib \<Rightarrow> Unstructured \<Rightarrow> verdict" where
  "serviceStatus L u =
     (case asService L (u_Object u) of
        Inl e \<Rightarrow> (StatusUnknown, Some e)
      | Inr s \<Rightarrow> (service_verdict s, None))"

subsection \<open>Pods, budgets, replication controllers, jobs\<close>

fun pod_verdict :: "WorkloadCondition list \<Rightarrow> string" where
  "pod_verdict [] = StatusInProgress"
| "pod_verdict (c # cs) =
     (if wc_Type c = ''Ready'' \<and> (wc_Reason c = ''PodCompleted'' \<or> wc_Status c = ConditionTrue)
      then StatusReady else pod_verdict cs)"

definition podStatus :: "k8s_lib \<Rightarrow> Unstructured \<Rightarrow> verdict" where
  "podStatus L u =
     (case asPod L (u_Object u) of
        Inl e \<Rightarrow> (StatusUnknown, Some e)
      | Inr pod \<Rightarrow> (pod_verdict (pod_Conditions pod), None))"

definition pdb_verdict :: "PodDisruptionBudget \<Rightarrow> string" where
  "pdb_verdict pdb =
     (if pdb_ObservedGeneration pdb = pdb_Generation pdb \<and>
         sint (pdb_DesiredHealthy pdb) \<le> sint (pdb_CurrentHealthy pdb)
      then StatusReady else StatusInProgress)"

definition pdbStatus :: "k8s_lib \<Rightarrow> Unstructured \<Rightarrow> verdict" where
  "pdbStatus L u =
     (case asPDB L (u_Object u) of
        Inl e \<Rightarrow> (StatusUnknown, Some e)
      | Inr pdb \<Rightarrow> (pdb_verdict pdb, None))"

definition rc_verdict :: "ReplicationController \<Rightarrow> string" where
  "rc_verdict rc =
     (if scaled_to_zero (rc_SpecReplicas rc) (rc_Replicas rc) \<or> 0 < sint (rc_AvailableReplicas rc)
      then StatusReady else StatusInProgress)"

definition replicationControllerStatus :: "k8s_lib \<Rightarrow> Unstructured \<Rightarrow> verdict" where
  "replicationControllerStatus L u =
     (case asReplicationController L (u_Object u) of
        Inl e \<Rightarrow> (StatusUnknown, Some e)
      | Inr rc \<Rightarrow> (rc_verdict rc, None))"

fun job_verdict :: "WorkloadCondition list \<Rightarrow> string" where
  "job_verdict [] = StatusInProgress"
| "job_verdict (c # cs) =
     (if wc_Status c \<noteq> ConditionTrue then job_verdict cs
      else if wc_Type c = ''Complete'' then StatusReady
      else if wc_Type c = ''Failed'' then StatusInProgress
      else job_verdict cs)"

definition jobStatus :: "k8s_lib \<Rightarrow> Unstructured \<Rightarrow> verdict" where
  "jobStatus L u =
     (case asJob L (u_Object u) of
        Inl e \<Rightarrow> (StatusUnknown, Some e)
      | Inr job \<Rightarrow> (job_verdict (job_Conditions job), None))"

definition cronJobStatus :: "k8s_lib \<Rightarrow> Unstructured \<Rightarrow> verdict" where
  "cronJobStatus L u =
     (case asCronJob L (u_Object u) of
        Inl e \<Rightarrow> (StatusUnknown, Some e)
      | Inr cj \<Rightarrow> (if cj_Suspend cj = Some True then StatusInProgress else StatusReady, None))"

subsection \<open>Conditions of unstructured objects\<close>

text \<open>A comma-ok assertion to string of a map lookup: the empty string when it fails.\<close>

definition string_at :: "gomap \<Rightarrow> string \<Rightarrow> string" where
  "string_at m k = (case map_of m k of Some (GStr s) \<Rightarrow> s | _ \<Rightarrow> '''')"

fun conditionHasStatus :: "goval list \<Rightarrow> string \<Rightarrow> string \<Rightarrow> bool" where
  "conditionHasStatus [] name st = False"
| "conditionHasStatus (c # cs) name st =
     (case c of
        GMap m \<Rightarrow>
          (if string_at m ''type'' \<noteq> name then conditionHasStatus cs name st
           else string_at m ''status'' = st)
      | _ \<Rightarrow> conditionHasStatus cs name st)"

definition conditionTrue :: "goval list \<Rightarrow> string \<Rightarrow> bool" where
  "conditionTrue conds name = conditionHasStatus conds name ''True''"

definition conditionFalse :: "goval list \<Rightarrow> string \<Rightarrow> bool" where
  "conditionFalse conds name = conditionHasStatus conds name ''False''"

fun positive_loop :: "goval list \<Rightarrow> string list \<Rightarrow> string" where
  "positive_loop conds [] = StatusReady"
| "positive_loop conds (name # names) =
     (if \<not> conditionTrue conds name then StatusInProgress else positive_loop conds names)"

definition readyFromPositiveConditions :: "k8s_lib \<Rightarrow> Unstructured \<Rightarrow> string list \<Rightarrow> verdict" where
  "readyFromPositiveConditions L u required =
     (case NestedSlice L (u_Object u) [''status'', ''conditions''] of
        (conds, found, Some e) \<Rightarrow> (StatusUnknown, Some e)
      | (conds, found, None) \<Rightarrow>
          if \<not> found then (StatusInProgress, None) else (positive_loop conds required, None))"

definition gatewayStatus :: "k8s_lib \<Rightarrow> Unstructured \<Rightarrow> verdict" where
  "gatewayStatus L u = readyFromPositiveConditions L u [''Accepted'', ''Programmed'']"

definition kagentStatus :: "k8s_lib \<Rightarrow> Unstructured \<Rightarrow> verdict" where
  "kagentStatus L u = readyFromPositiveConditions L u [''Accepted'']"

fun route_loop :: "k8s_lib \<Rightarrow> goval list \<Rightarrow> bool \<Rightarrow> verdict" where
  "route_loop L [] sawHealthyParent =
     (if sawHealthyParent then (StatusReady, None) else (StatusInProgress, None))"
| "route_loop L (p # ps) sawHealthyParent =
     (case p of
        GMap parent \<Rightarrow>
          (case NestedSlice L parent [''conditions''] of
             (conds, found, Some e) \<Rightarrow> (StatusUnknown, Some e)
           | (conds, found, None) \<Rightarrow>
               if \<not> found then route_loop L ps sawHealthyParent
               else if conditionFalse conds ''Accepted'' \<or> conditionFalse conds ''ResolvedRefs''
               then (StatusInProgress, None)
               else route_loop L ps
                 (if conditionTrue conds ''Accepted'' \<and> conditionTrue conds ''ResolvedRefs''
                  then True else sawHealthyParent))
      | _ \<Rightarrow> route_loop L ps sawHealthyParent)"

definition routeStatus :: "k8s_lib \<Rightarrow> Unstructured \<Rightarrow> verdict" where
  "routeStatus L u =
     (case NestedSlice L (u_Object u) [''status'', ''parents''] of
        (parents, found, Some e) \<Rightarrow> (StatusUnknown, Some e)
      | (parents, found, None) \<Rightarrow>
          if \<not> found \<or> length parents = 0 then (StatusInProgress, None)
          else route_loop L parents False)"

subsection \<open>Argo Rollouts\<close>

fun available_false_loop :: "k8s_lib \<Rightarrow> goval list \<Rightarrow> bool" where
  "available_false_loop L [] = False"
| "available_false_loop L (c # cs) =
     (case c of
        GMap m \<Rightarrow>
          (if fst (NestedString L m [''type'']) \<noteq> ''Available'' then available_false_loop L cs
           else fst (NestedString L m [''status'']) = ''False'')
      | _ \<Rightarrow> available_false_loop L cs)"

definition hasAvailableConditionFalse :: "k8s_lib \<Rightarrow> Unstructured \<Rightarrow> bool" where
  "hasAvailableConditionFalse L u =
     (case NestedSlice L (u_Object u) [''status'', ''conditions''] of
        (conds, found, err) \<Rightarrow>
          if err \<noteq> None \<or> \<not> found then False else available_false_loop L conds)"

text \<open>The part of rolloutStatus after the phase has been read.\<close>

definition rollout_by_availability ::
  "k8s_lib \<Rightarrow> Unstructured \<Rightarrow> int64 \<Rightarrow> string \<Rightarrow> bool \<Rightarrow> verdict" where
  "rollout_by_availability L u desired phase phaseFound =
     (if hasAvailableConditionFalse L u then (StatusInProgress, None)
      else case NestedInt64 L (u_Object u) [''status'', ''availableReplicas''] of
        (available, found, Some e) \<Rightarrow> (StatusUnknown, Some e)
      | (available, found, None) \<Rightarrow>
          if sint desired \<le> sint available then (StatusReady, None)
          else if \<not> phaseFound \<or> phase = '''' then (StatusInProgress, None)
          else if phase \<in> {''Healthy'', ''Inactive'', ''Progressing'', ''Paused''}
          then (StatusInProgress, None) else (StatusUnknown, None))"

definition rolloutStatus :: "k8s_lib \<Rightarrow> Unstructured \<Rightarrow> verdict" where
  "rolloutStatus L u =
     (case NestedInt64 L (u_Object u) [''spec'', ''replicas''] of
        (replicas, found, Some e) \<Rightarrow> (StatusUnknown, Some e)
      | (replicas, found, None) \<Rightarrow>
          let desired = (if found then replicas else 1) in
          if desired = 0 then (StatusReady, None)
          else case NestedString L (u_Object u) [''status'', ''phase''] of
            (phase, phaseFound, Some e) \<Rightarrow> (StatusUnknown, Some e)
          | (phase, phaseFound, None) \<Rightarrow>
              if phase \<in> {''Degraded'', ''Error''} then (StatusInProgress, None)
              else rollout_by_availability L u desired phase phaseFound)"

subsection \<open>Any other kind\<close>

fun condition_of_type_loop :: "goval list \<Rightarrow> string \<Rightarrow> string \<times> bool" where
  "condition_of_type_loop [] conditionType = (ConditionFalse, False)"
| "condition_of_type_loop (c # cs) conditionType =
     (case c of
        GMap m \<Rightarrow>
          (case map_of m ''type'' of
             Some (GStr condType) \<Rightarrow>
               if condType = conditionType then (string_at m ''status'', True)
               else condition_of_type_loop cs conditionType
           | _ \<Rightarrow> condition_of_type_loop cs conditionType)
      | _ \<Rightarrow> condition_of_type_loop cs conditionType)"

definition getConditionOfType :: "k8s_lib \<Rightarrow> Unstructured \<Rightarrow> string \<Rightarrow> string \<times> bool \<times> go_error option" where
  "getConditionOfType L u conditionType =
     (case NestedSlice L (u_Object u) [''status'', ''conditions''] of
        (conditions, found, err) \<Rightarrow>
          if err \<noteq> None \<or> \<not> found then (ConditionFalse, False, err)
          else case condition_of_type_loop conditions conditionType of (cs, b) \<Rightarrow> (cs, b, None))"

definition statusFromStandardConditions :: "k8s_lib \<Rightarrow> Unstructured \<Rightarrow> verdict" where
  "statusFromStandardConditions L u =
     (case getConditionOfType L u StatusReady of
        (cs, found, Some e) \<Rightarrow> (StatusUnknown, Some e)
      | (cs, found, None) \<Rightarrow>
          let condition = (if found \<and> cs = ConditionFalse then StatusInProgress else StatusReady) in
          case getConditionOfType L u StatusInProgress of
            (cs', found', Some e) \<Rightarrow> (StatusUnknown, Some e)
          | (cs', found', None) \<Rightarrow>
              (if found' \<and> cs' = ConditionTrue then StatusInProgress else condition, None))"

subsection \<open>The dispatch\<close>

definition status :: "k8s_lib \<Rightarrow> Unstructured \<Rightarrow> verdict" where
  "status L u =
     (let gk = gkString L (u_Group u) (u_Kind u) in
      if gk = ''StatefulSet.apps'' then stsStatus L u
      else if gk = ''Deployment.apps'' then deploymentStatus L u
      else if gk = ''ReplicaSet.apps'' then replicasetStatus L u
      else if gk = ''DaemonSet.apps'' then daemonsetStatus L u
      else if gk = ''PersistentVolumeClaim'' then pvcStatus L u
      else if gk = ''Service'' then serviceStatus L u
      else if gk = ''Pod'' then podStatus L u
      else if gk = ''PodDisruptionBudget.policy'' then pdbStatus L u
      else if gk = ''ReplicationController'' then replicationControllerStatus L u
      else if gk = ''Job.batch'' then jobStatus L u
      else if gk = ''CronJob.batch'' then cronJobStatus L u
      else if gk = ''Rollout.argoproj.io'' then rolloutStatus L u
      else if gk = ''Gateway.gateway.networking.k8s.io'' then gatewayStatus L u
      else if gk = ''HTTPRoute.gateway.networking.k8s.io'' then routeStatus L u
      else if gk = ''Agent.kagent.dev'' then kagentStatus L u
      else if gk = ''ModelConfig.kagent.dev'' then kagentStatus L u
      else statusFromStandardConditions L u)"

section \<open>The contract of a status function\<close>

text \<open>
  What the aggregation relies on for every kind: one of three verdicts, and an error only
  together with Unknown.  Each per-kind function is shown to satisfy it, and with them the
  dispatch.
\<close>

locale status_reader =
  fixes reader :: "Unstructured \<Rightarrow> verdict"
  assumes reader_range: "fst (reader u) \<in> {StatusReady, StatusInProgress, StatusUnknown}"
    and reader_error: "snd (reader u) \<noteq> None \<Longrightarrow> fst (reader u) = StatusUnknown"
begin

lemma reader_clean: "fst (reader u) \<noteq> StatusUnknown \<Longrightarrow> snd (reader u) = None"
  using reader_error by blast

lemma reader_ready: "fst (reader u) = StatusReady \<longleftrightarrow> reader u = (StatusReady, None)"
  using reader_clean [of u] by (cases "reader u") auto

lemma errors_come_with_unknown:
  "length (List.map_filter (snd \<circ> reader) us) \<le> length (filter (\<lambda>u. fst (reader u) = StatusUnknown) us)"
proof (induction us)
  case (Cons u us)
  then show ?case using reader_error [of u]
    by (auto simp: map_filter_simps split: option.splits)
qed (simp add: map_filter_simps)

lemma all_ready_no_errors:
  "\<forall>u \<in> set us. fst (reader u) = StatusReady \<Longrightarrow> List.map_filter (snd \<circ> reader) us = []"
  by (induction us) (auto simp: map_filter_simps reader_ready)

end

text \<open>
  The same contract as a predicate of one result, with rules that follow the code's branches.
\<close>

definition wf_verdict :: "verdict \<Rightarrow> bool" where
  "wf_verdict r \<longleftrightarrow> fst r \<in> {StatusReady, StatusInProgress, StatusUnknown} \<and>
     (snd r \<noteq> None \<longrightarrow> fst r = StatusUnknown)"

named_theorems wf_rules \<open>a branch of the code ends in a well-formed verdict\<close>

lemma wf_verdict_leaf [wf_rules]:
  "wf_verdict (StatusReady, None)" "wf_verdict (StatusInProgress, None)"
  "wf_verdict (StatusUnknown, None)" "wf_verdict (StatusUnknown, Some e)"
  by (simp_all add: wf_verdict_def)

lemma wf_verdict_computed [wf_rules]: "s \<in> {StatusReady, StatusInProgress} \<Longrightarrow> wf_verdict (s, None)"
  by (auto simp: wf_verdict_def)

lemma wf_verdict_if [wf_rules]: "wf_verdict x \<Longrightarrow> wf_verdict y \<Longrightarrow> wf_verdict (if b then x else y)"
  by simp

lemma wf_verdict_let [wf_rules]: "wf_verdict (f x) \<Longrightarrow> wf_verdict (Let x f)"
  by simp

lemma wf_verdict_prod [wf_rules]: "(\<And>a b. wf_verdict (f a b)) \<Longrightarrow> wf_verdict (case p of (a, b) \<Rightarrow> f a b)"
  by (cases p) simp

lemma wf_verdict_option [wf_rules]:
  "wf_verdict x \<Longrightarrow> (\<And>e. wf_verdict (f e)) \<Longrightarrow> wf_verdict (case p of None \<Rightarrow> x | Some e \<Rightarrow> f e)"
  by (cases p) simp_all

lemma wf_verdict_sum [wf_rules]:
  "(\<And>e. wf_verdict (f e)) \<Longrightarrow> (\<And>x. wf_verdict (g x)) \<Longrightarrow>
     wf_verdict (case p of Inl e \<Rightarrow> f e | Inr x \<Rightarrow> g x)"
  by (cases p) simp_all

lemma status_readerI: "(\<And>u. wf_verdict (f u)) \<Longrightarrow> status_reader f"
  by (auto simp: status_reader_def wf_verdict_def)

text \<open>The verdicts of the typed kinds are Ready or InProgress.\<close>

lemma if_verdict_range [wf_rules]: "(if b then StatusReady else StatusInProgress) \<in> {StatusReady, StatusInProgress}"
  "(if b then StatusInProgress else StatusReady) \<in> {StatusReady, StatusInProgress}"
  by simp_all

lemma typed_verdict_range [wf_rules]:
  "sts_verdict sts \<in> {StatusReady, StatusInProgress}"
  "deployment_verdict d \<in> {StatusReady, StatusInProgress}"
  "replicaset_verdict rs \<in> {StatusReady, StatusInProgress}"
  "daemonset_verdict ds \<in> {StatusReady, StatusInProgress}"
  "service_verdict svc \<in> {StatusReady, StatusInProgress}"
  "pdb_verdict pdb \<in> {StatusReady, StatusInProgress}"
  "rc_verdict rc \<in> {StatusReady, StatusInProgress}"
  by (simp_all add: sts_verdict_def deployment_verdict_def replicaset_verdict_def
      daemonset_verdict_def service_verdict_def pdb_verdict_def rc_verdict_def split: prod.split)

lemma loop_verdict_range [wf_rules]:
  "pod_verdict cs \<in> {StatusReady, StatusInProgress}"
  "job_verdict cs \<in> {StatusReady, StatusInProgress}"
  "positive_loop conds names \<in> {StatusReady, StatusInProgress}"
  by (induction cs) (simp_all, induction names, simp_all)

interpretation sts: status_reader "stsStatus L"
  by (rule status_readerI, unfold stsStatus_def, intro wf_rules)

interpretation deployment: status_reader "deploymentStatus L"
  by (rule status_readerI, unfold deploymentStatus_def, intro wf_rules)

interpretation replicaset: status_reader "replicasetStatus L"
  by (rule status_readerI, unfold replicasetStatus_def, intro wf_rules)

interpretation daemonset: status_reader "daemonsetStatus L"
  by (rule status_readerI, unfold daemonsetStatus_def, intro wf_rules)

interpretation pvc: status_reader "pvcStatus L"
  by (rule status_readerI, unfold pvcStatus_def, intro wf_rules)

interpretation service: status_reader "serviceStatus L"
  by (rule status_readerI, unfold serviceStatus_def, intro wf_rules)

interpretation pod: status_reader "podStatus L"
  by (rule status_readerI, unfold podStatus_def, intro wf_rules)

interpretation pdb: status_reader "pdbStatus L"
  by (rule status_readerI, unfold pdbStatus_def, intro wf_rules)

interpretation rc: status_reader "replicationControllerStatus L"
  by (rule status_readerI, unfold replicationControllerStatus_def, intro wf_rules)

interpretation job: status_reader "jobStatus L"
  by (rule status_readerI, unfold jobStatus_def, intro wf_rules)

interpretation cronjob: status_reader "cronJobStatus L"
  by (rule status_readerI, unfold cronJobStatus_def, intro wf_rules)

lemma positive_conditions_wf: "wf_verdict (readyFromPositiveConditions L u ns)"
  unfolding readyFromPositiveConditions_def by (intro wf_rules)

interpretation gateway: status_reader "gatewayStatus L"
  by (rule status_readerI, unfold gatewayStatus_def, rule positive_conditions_wf)

interpretation kagent: status_reader "kagentStatus L"
  by (rule status_readerI, unfold kagentStatus_def, rule positive_conditions_wf)

lemma route_loop_wf [wf_rules]: "wf_verdict (route_loop L ps b)"
proof (induction ps arbitrary: b)
  case Nil
  show ?case unfolding route_loop.simps by (intro wf_rules)
next
  case (Cons p ps)
  show ?case
    unfolding route_loop.simps by (cases p; simp only: goval.case; intro wf_rules Cons.IH)
qed

interpretation route: status_reader "routeStatus L"
  by (rule status_readerI, unfold routeStatus_def, intro wf_rules)

interpretation rollout: status_reader "rolloutStatus L"
  by (rule status_readerI, unfold rolloutStatus_def rollout_by_availability_def, intro wf_rules)

interpretation standard: status_reader "statusFromStandardConditions L"
  by (rule status_readerI, unfold statusFromStandardConditions_def Let_def, intro wf_rules) auto

lemmas reader_contracts =
  sts.reader_range deployment.reader_range replicaset.reader_range daemonset.reader_range
  pvc.reader_range service.reader_range pod.reader_range pdb.reader_range rc.reader_range
  job.reader_range cronjob.reader_range gateway.reader_range kagent.reader_range
  route.reader_range rollout.reader_range standard.reader_range

lemmas reader_errors =
  sts.reader_error deployment.reader_error replicaset.reader_error daemonset.reader_error
  pvc.reader_error service.reader_error pod.reader_error pdb.reader_error rc.reader_error
  job.reader_error cronjob.reader_error gateway.reader_error kagent.reader_error
  route.reader_error rollout.reader_error standard.reader_error

text \<open>The dispatch calls exactly one of the functions.\<close>

lemma status_cases:
  assumes "\<And>f. f \<in> {stsStatus, deploymentStatus, replicasetStatus, daemonsetStatus, pvcStatus,
      serviceStatus, podStatus, pdbStatus, replicationControllerStatus, jobStatus, cronJobStatus,
      rolloutStatus, gatewayStatus, routeStatus, kagentStatus, statusFromStandardConditions} \<Longrightarrow> P (f L u)"
  shows "P (status L u)"
  using assms by (simp add: status_def Let_def)

interpretation dispatch: status_reader "status L"
proof
  show "fst (status L u) \<in> {StatusReady, StatusInProgress, StatusUnknown}" for u
    by (rule status_cases [where P = "\<lambda>r. fst r \<in> {StatusReady, StatusInProgress, StatusUnknown}"])
      (elim insertE; simp only: reader_contracts empty_iff)
  show "snd (status L u) \<noteq> None \<Longrightarrow> fst (status L u) = StatusUnknown" for u
    by (rule status_cases [where P = "\<lambda>r. snd r \<noteq> None \<longrightarrow> fst r = StatusUnknown", rule_format])
      (elim insertE; simp only: reader_errors empty_iff not_False_eq_True)
qed

text \<open>
  C11: for every object of every kind and whatever the client library answers, status returns
  Ready, InProgress or Unknown; it returns an error only together with Unknown, so a Ready or
  InProgress verdict always comes without an error.
\<close>

theorem status_three_verdicts:
  "fst (status L u) \<in> {StatusReady, StatusInProgress, StatusUnknown} \<and>
   (snd (status L u) \<noteq> None \<longrightarrow> fst (status L u) = StatusUnknown)"
  using dispatch.reader_range dispatch.reader_error by blast

text \<open>A library for the examples: every conversion fails, every nested field is absent.\<close>

definition example_lib :: k8s_lib where
  "example_lib =
     \<lparr>asStatefulSet = \<lambda>_. Inl (ErrOther ''bad''), asDeployment = \<lambda>_. Inl (ErrOther ''bad''),
      asReplicaSet = \<lambda>_. Inl (ErrOther ''bad''), asDaemonSet = \<lambda>_. Inl (ErrOther ''bad''),
      asPVC = \<lambda>_. Inl (ErrOther ''bad''), asService = \<lambda>_. Inl (ErrOther ''bad''),
      asPod = \<lambda>_. Inl (ErrOther ''bad''), asPDB = \<lambda>_. Inl (ErrOther ''bad''),
      asReplicationController = \<lambda>_. Inl (ErrOther ''bad''), asJob = \<lambda>_. Inl (ErrOther ''bad''),
      asCronJob = \<lambda>_. Inl (ErrOther ''bad''),
      NestedSlice = \<lambda>_ _. ([], False, None), NestedString = \<lambda>_ _. ('''', False, None),
      NestedInt64 = \<lambda>_ _. (0, False, None),
      gkString = \<lambda>g k. if g = '''' then k else k @ ''.'' @ g\<rparr>"

definition example_object :: "string \<Rightarrow> string \<Rightarrow> Unstructured" where
  "example_object g k = \<lparr>u_Group = g, u_Version = ''v1'', u_Kind = k, u_Name = ''x'',
     u_Namespace = ''ns'', u_Labels = [], u_Object = []\<rparr>"

theorem status_three_verdicts_witness:
  "snd (status example_lib (example_object ''apps'' ''Deployment'')) = Some (ErrOther ''bad'') \<and>
   fst (status example_lib (example_object ''apps'' ''Deployment'')) = StatusUnknown"
proof -
  have "snd (status example_lib (example_object ''apps'' ''Deployment'')) = Some (ErrOther ''bad'')"
    by (simp add: status_def example_lib_def example_object_def deploymentStatus_def)
  then show ?thesis
    using status_three_verdicts [of example_lib "example_object ''apps'' ''Deployment''"] by simp
qed

end
