(* ===== verification/Readiness.thy ===== *)
theory Readiness
  imports Workload_Status
begin

text \<open>
  What the verdicts of Workload_Status mean, kind by kind: the loops over condition lists as
  statements about the list, the exact conditions under which each kind is Ready, and what a
  scale-up does to the verdict of each scalable kind (ADR-0003 asks that it change none; for
  StatefulSets, Rollouts and Deployments without a True Available it can).
\<close>

section \<open>The condition loops\<close>

definition holds_condition :: "WorkloadCondition list \<Rightarrow> string \<Rightarrow> bool" where
  "holds_condition cs t \<longleftrightarrow> (\<exists>c \<in> set cs. wc_Type c = t \<and> wc_Status c = ConditionTrue)"

lemma holds_condition_simps [simp]:
  "holds_condition [] t = False"
  "holds_condition (c # cs) t = (wc_Type c = t \<and> wc_Status c = ConditionTrue \<or> holds_condition cs t)"
  by (auto simp: holds_condition_def)

lemma deployment_flags_eq:
  "deployment_flags cs failure available =
     (failure \<or> holds_condition cs ''ReplicaFailure'', available \<or> holds_condition cs ''Available'')"
  by (induction cs arbitrary: failure available) auto


lemma allIngressProvisioned_eq:
  "allIngressProvisioned is = (\<forall>i \<in> set is. \<not> isEmpty (ing_IP i) \<or> \<not> isEmpty (ing_Hostname i))"
  by (induction "is") auto

lemma pod_verdict_eq:
  "pod_verdict cs = StatusReady \<longleftrightarrow>
     (\<exists>c \<in> set cs. wc_Type c = ''Ready'' \<and> (wc_Reason c = ''PodCompleted'' \<or> wc_Status c = ConditionTrue))"
  by (induction cs) auto

text \<open>The first entry of a name among the maps of a list decides.\<close>

fun the_map :: "goval \<Rightarrow> gomap option" where
  "the_map (GMap m) = Some m"
| "the_map v = None"

definition entry_named :: "goval list \<Rightarrow> string \<Rightarrow> gomap option" where
  "entry_named cs name = find (\<lambda>m. string_at m ''type'' = name) (List.map_filter the_map cs)"

lemma conditionHasStatus_eq:
  "conditionHasStatus cs name st = (\<exists>m. entry_named cs name = Some m \<and> string_at m ''status'' = st)"
  by (induction cs) (auto simp: entry_named_def map_filter_simps split: goval.splits)

lemma condition_true_false_exclusive: "conditionTrue cs name \<Longrightarrow> \<not> conditionFalse cs name"
  by (auto simp: conditionTrue_def conditionFalse_def conditionHasStatus_eq)

lemma positive_loop_eq: "positive_loop cs names = StatusReady \<longleftrightarrow> (\<forall>n \<in> set names. conditionTrue cs n)"
  by (induction names) auto

section \<open>Typed kinds\<close>

text \<open>
  A Deployment is Ready exactly when its object converts, no ReplicaFailure condition is True
  and either an Available condition is True or it is scaled to zero (desired count zero, where an
  absent count means one, and no replica left).
\<close>

lemma deployment_ready_iff:
  "deploymentStatus L u = (StatusReady, None) \<longleftrightarrow>
     (\<exists>d. asDeployment L (u_Object u) = Inr d \<and> \<not> holds_condition (dep_Conditions d) ''ReplicaFailure'' \<and>
       (holds_condition (dep_Conditions d) ''Available'' \<or>
        dep_SpecReplicas d = Some 0 \<and> dep_Replicas d = 0))"
  by (auto simp: deploymentStatus_def deployment_verdict_def deployment_flags_eq scaled_to_zero_def
      desired_replicas_def split: sum.splits option.splits)






text \<open>
  A LoadBalancer Service is Ready exactly when it has a cluster IP and at least one ingress
  entry and every entry carries an IP or a host name (blank strings do not count); the other
  service types with no external provisioning are Ready at once, any other type never.
\<close>

lemma service_ready_iff:
  "service_verdict s = StatusReady \<longleftrightarrow>
     svc_Type s \<in> {''ClusterIP'', ''NodePort'', ''ExternalName''} \<or>
     svc_Type s = ''LoadBalancer'' \<and> TrimSpace (svc_ClusterIP s) \<noteq> '''' \<and> svc_Ingress s \<noteq> [] \<and>
     (\<forall>i \<in> set (svc_Ingress s). TrimSpace (ing_IP i) \<noteq> '''' \<or> TrimSpace (ing_Hostname i) \<noteq> '''')"
  by (simp add: service_verdict_def allIngressProvisioned_eq isEmpty_def)

definition hostname_only_lb :: Service where
  "hostname_only_lb = \<lparr>svc_Type = ''LoadBalancer'', svc_ClusterIP = ''10.0.0.1'',
     svc_Ingress = [\<lparr>ing_IP = '''', ing_Hostname = ''lb.aws''\<rparr>]\<rparr>"

lemma service_ready_iff_example: "service_verdict hostname_only_lb = StatusReady"
  unfolding service_ready_iff
  by (simp add: hostname_only_lb_def TrimSpace_id trimmed_def space_runes_def suffix_def)

text \<open>The conditions of a Job that decide: a True Complete or Failed.\<close>

definition job_decides :: "WorkloadCondition \<Rightarrow> bool" where
  "job_decides c \<longleftrightarrow> wc_Status c = ConditionTrue \<and> wc_Type c \<in> {''Complete'', ''Failed''}"

text \<open>
  A Job is Ready exactly when the first of its conditions that is a True Complete or a True
  Failed exists and is Complete; a running job, and one that failed first, is InProgress.
\<close>

lemma job_first_decision:
  "job_verdict cs =
     (case find job_decides cs of
        None \<Rightarrow> StatusInProgress
      | Some c \<Rightarrow> if wc_Type c = ''Complete'' then StatusReady else StatusInProgress)"
  by (induction cs) (auto simp: job_decides_def)

section \<open>Unstructured kinds\<close>

text \<open>
  A Gateway is Ready exactly when its status.conditions can be read and are there, and the
  first entry named Accepted and the first entry named Programmed both have the status True; the
  entry named Ready plays no part.
\<close>

lemma gateway_ready_iff:
  "gatewayStatus L u = (StatusReady, None) \<longleftrightarrow>
     (\<exists>conds. NestedSlice L (u_Object u) [''status'', ''conditions''] = (conds, True, None) \<and>
       (\<forall>n \<in> {''Accepted'', ''Programmed''}.
          \<exists>m. entry_named conds n = Some m \<and> string_at m ''status'' = ''True''))"
proof -
  obtain conds found err where ns: "NestedSlice L (u_Object u) [''status'', ''conditions''] = (conds, found, err)"
    by (cases "NestedSlice L (u_Object u) [''status'', ''conditions'']") auto
  have "positive_loop conds [''Accepted'', ''Programmed''] = StatusReady \<longleftrightarrow>
      (\<forall>n \<in> {''Accepted'', ''Programmed''}. conditionTrue conds n)"
    by (simp only: positive_loop_eq list.set)
  then show ?thesis
    by (cases err; cases found)
      (simp_all add: gatewayStatus_def readyFromPositiveConditions_def ns conditionTrue_def conditionHasStatus_eq
        del: positive_loop.simps)
qed

definition two_conditions :: "goval list" where
  "two_conditions = [GMap [(''type'', GStr ''Ready''), (''status'', GStr ''False'')],
     GMap [(''type'', GStr ''Accepted''), (''status'', GStr ''True'')],
     GMap [(''type'', GStr ''Programmed''), (''status'', GStr ''True'')]]"

lemma gateway_ready_iff_example:
  "gatewayStatus (example_lib\<lparr>NestedSlice := \<lambda>_ _. (two_conditions, True, None)\<rparr>)
     (example_object ''gateway.networking.k8s.io'' ''Gateway'') = (StatusReady, None)"
  by (simp add: gateway_ready_iff entry_named_def two_conditions_def map_filter_simps string_at_def)

text \<open>The parents of a route: unreadable, rejected, or healthy.\<close>

definition parent_conditions :: "k8s_lib \<Rightarrow> goval \<Rightarrow> (goval list \<times> bool \<times> go_error option) option" where
  "parent_conditions L p = map_option (\<lambda>m. NestedSlice L m [''conditions'']) (the_map p)"

definition parent_passes :: "k8s_lib \<Rightarrow> goval \<Rightarrow> bool" where
  "parent_passes L p \<longleftrightarrow> (\<forall>conds found err. parent_conditions L p = Some (conds, found, err) \<longrightarrow>
     err = None \<and> (found \<longrightarrow> \<not> conditionFalse conds ''Accepted'' \<and> \<not> conditionFalse conds ''ResolvedRefs''))"

definition parent_healthy :: "k8s_lib \<Rightarrow> goval \<Rightarrow> bool" where
  "parent_healthy L p \<longleftrightarrow> (\<exists>conds. parent_conditions L p = Some (conds, True, None) \<and>
     conditionTrue conds ''Accepted'' \<and> conditionTrue conds ''ResolvedRefs'')"

lemma route_loop_ready:
  "route_loop L ps saw = (StatusReady, None) \<longleftrightarrow>
     (\<forall>p \<in> set ps. parent_passes L p) \<and> (saw \<or> (\<exists>p \<in> set ps. parent_healthy L p))"
proof (induction ps arbitrary: saw)
  case (Cons p ps)
  show ?case
  proof (cases p)
    case (GMap m)
    obtain conds found err where ns: "NestedSlice L m [''conditions''] = (conds, found, err)"
      by (cases "NestedSlice L m [''conditions'']") auto
    then have pc: "parent_conditions L p = Some (conds, found, err)"
      by (simp add: GMap parent_conditions_def)
    show ?thesis
      using Cons.IH GMap ns pc
      by (cases err; cases found) (auto simp: parent_passes_def parent_healthy_def)
  qed (use Cons.IH in \<open>simp_all add: parent_passes_def parent_healthy_def parent_conditions_def\<close>)
qed simp

text \<open>
  C14: an HTTPRoute is Ready exactly when its parents can be read, every parent can be read and
  none reports Accepted=False or ResolvedRefs=False, and at least one is both accepted and
  resolved: one bad parent outweighs any number of healthy ones, in either order.
\<close>

theorem route_ready_iff:
  "routeStatus L u = (StatusReady, None) \<longleftrightarrow>
     (\<exists>parents. NestedSlice L (u_Object u) [''status'', ''parents''] = (parents, True, None) \<and>
       (\<forall>p \<in> set parents. parent_passes L p) \<and> (\<exists>p \<in> set parents. parent_healthy L p))"
proof -
  obtain ps found err where ns: "NestedSlice L (u_Object u) [''status'', ''parents''] = (ps, found, err)"
    by (cases "NestedSlice L (u_Object u) [''status'', ''parents'']") auto
  show ?thesis
    by (cases err; cases found; cases ps)
      (simp_all add: routeStatus_def ns route_loop_ready del: route_loop.simps)
qed

definition route_lib :: k8s_lib where
  "route_lib = example_lib\<lparr>NestedSlice :=
     \<lambda>m path. if path = [''conditions''] then
         ([GMap [(''type'', GStr ''Accepted''), (''status'', GStr ''True'')],
           GMap [(''type'', GStr ''ResolvedRefs''), (''status'', GStr ''True'')]], True, None)
       else ([GMap []], True, None)\<rparr>"

theorem route_ready_iff_witness:
  "routeStatus route_lib (example_object ''gateway.networking.k8s.io'' ''HTTPRoute'') = (StatusReady, None)"
  by (simp add: route_ready_iff route_lib_def parent_passes_def parent_healthy_def parent_conditions_def
      conditionTrue_def conditionFalse_def string_at_def)

text \<open>
  C13: an Argo Rollout that is not scaled to zero is Ready exactly when its phase is readable and is
  neither Degraded nor Error, no Available condition says False, and the available replicas reach
  the desired count (one when spec.replicas is absent); scaled to zero it is Ready whatever the
  phase says.  So a Progressing rollout that serves fewer replicas than desired is never Ready.
\<close>

theorem rollout_ready_iff:
  "rolloutStatus L u = (StatusReady, None) \<longleftrightarrow>
     (\<exists>replicas found desired.
        NestedInt64 L (u_Object u) [''spec'', ''replicas''] = (replicas, found, None) \<and>
        desired = (if found then replicas else 1) \<and>
        (desired = 0 \<or>
         (\<exists>phase pf available af.
            NestedString L (u_Object u) [''status'', ''phase''] = (phase, pf, None) \<and>
            phase \<noteq> ''Degraded'' \<and> phase \<noteq> ''Error'' \<and> \<not> hasAvailableConditionFalse L u \<and>
            NestedInt64 L (u_Object u) [''status'', ''availableReplicas''] = (available, af, None) \<and>
            sint desired \<le> sint available)))"
proof -
  obtain r f e where nr: "NestedInt64 L (u_Object u) [''spec'', ''replicas''] = (r, f, e)"
    by (cases "NestedInt64 L (u_Object u) [''spec'', ''replicas'']") auto
  obtain p pf pe where np: "NestedString L (u_Object u) [''status'', ''phase''] = (p, pf, pe)"
    by (cases "NestedString L (u_Object u) [''status'', ''phase'']") auto
  obtain a af ae where na: "NestedInt64 L (u_Object u) [''status'', ''availableReplicas''] = (a, af, ae)"
    by (cases "NestedInt64 L (u_Object u) [''status'', ''availableReplicas'']") auto
  have avail: "rollout_by_availability L u d p pf = (StatusReady, None) \<longleftrightarrow>
      \<not> hasAvailableConditionFalse L u \<and> ae = None \<and> sint d \<le> sint a" for d
    by (cases ae) (simp_all add: rollout_by_availability_def na)
  show ?thesis
    by (cases e; cases pe) (simp_all add: rolloutStatus_def nr np na avail Let_def)
qed

definition rollout_lib :: "int64 \<Rightarrow> k8s_lib" where
  "rollout_lib available = example_lib\<lparr>
     NestedInt64 := \<lambda>m path. if path = [''spec'', ''replicas''] then (4, True, None)
       else (available, True, None),
     NestedString := \<lambda>m path. (''Progressing'', True, None)\<rparr>"

theorem rollout_ready_iff_witness:
  "rolloutStatus (rollout_lib 4) (example_object ''argoproj.io'' ''Rollout'') = (StatusReady, None) \<and>
   rolloutStatus (rollout_lib 2) (example_object ''argoproj.io'' ''Rollout'') \<noteq> (StatusReady, None)"
  by (auto simp: rollout_ready_iff rollout_lib_def example_lib_def hasAvailableConditionFalse_def)

text \<open>The fallback looks for the same first entry of a name as the Gateway readers.\<close>

lemma condition_of_type_loop_eq:
  "name \<noteq> '''' \<Longrightarrow> condition_of_type_loop cs name =
     (case entry_named cs name of
        None \<Rightarrow> (ConditionFalse, False)
      | Some m \<Rightarrow> (string_at m ''status'', True))"
proof (induction cs)
  case (Cons c cs)
  show ?case
  proof (cases c)
    case (GMap m)
    have "(case map_of m ''type'' of Some (GStr t) \<Rightarrow> t = name | _ \<Rightarrow> False) = (string_at m ''type'' = name)"
      using Cons.prems by (auto simp: string_at_def split: option.splits goval.splits)
    then show ?thesis using Cons GMap
      by (auto simp: entry_named_def map_filter_simps split: option.splits goval.splits)
  qed (use Cons in \<open>simp_all add: entry_named_def map_filter_simps\<close>)
qed (simp add: entry_named_def map_filter_simps)

definition standard_not_ready :: "goval list \<Rightarrow> bool" where
  "standard_not_ready conds \<longleftrightarrow>
     (\<exists>m. entry_named conds ''Ready'' = Some m \<and> string_at m ''status'' = ''False'') \<or>
     (\<exists>m. entry_named conds ''InProgress'' = Some m \<and> string_at m ''status'' = ''True'')"

text \<open>
  An object of a kind without a function of its own is InProgress exactly when its first Ready
  entry says False or its first InProgress entry says True; otherwise, in particular when it has no
  conditions at all or only sparse entries, it is Ready; unreadable conditions give Unknown with the
  error.
\<close>

lemma standard_conditions_verdict:
  "statusFromStandardConditions L u =
     (case NestedSlice L (u_Object u) [''status'', ''conditions''] of
        (conds, found, Some e) \<Rightarrow> (StatusUnknown, Some e)
      | (conds, found, None) \<Rightarrow>
          (if found \<and> standard_not_ready conds then StatusInProgress else StatusReady, None))"
proof -
  obtain cs found err where ns: "NestedSlice L (u_Object u) [''status'', ''conditions''] = (cs, found, err)"
    by (cases "NestedSlice L (u_Object u) [''status'', ''conditions'']") auto
  show ?thesis
    by (cases err; cases found)
      (auto simp: statusFromStandardConditions_def getConditionOfType_def ns
        condition_of_type_loop_eq
        standard_not_ready_def StatusReady_def StatusInProgress_def ConditionTrue_def ConditionFalse_def
        split: option.splits)
qed

end
