(* ===== verification/Conditions.thy ===== *)
theory Conditions
  imports Api_Types
begin

text \<open>
  The condition list of an Application status (controllers/condition.go).  setCondition walks the
  list with a pointer to the last entry of the type, appends when there is none, leaves the status
  alone when nothing changed and otherwise updates the entry in place; LastTransitionTime moves
  only when the condition's status moves.  The argument \<open>now\<close> is what metav1.Now() returns in that
  call.  The contract towards the aggregation is the locale \<open>condition_store\<close>.
\<close>

section \<open>The code\<close>

definition addCondition ::
  "int \<Rightarrow> ApplicationStatus \<Rightarrow> string \<Rightarrow> string \<Rightarrow> string \<Rightarrow> string \<Rightarrow> ApplicationStatus" where
  "addCondition now appStatus ctype status reason message =
     (let c = \<lparr>cond_Type = ctype, cond_Status = status, cond_Reason = reason, cond_Message = message,
               cond_LastUpdateTime = now, cond_LastTransitionTime = now\<rparr>
      in appStatus\<lparr>st_Conditions := st_Conditions appStatus @ [c]\<rparr>)"

text \<open>The loop over the indices: the pointer ends at the last entry of the type.\<close>

fun find_condition :: "string \<Rightarrow> Condition list \<Rightarrow> nat \<Rightarrow> nat option \<Rightarrow> nat option" where
  "find_condition ctype [] i c = c"
| "find_condition ctype (x # xs) i c =
     find_condition ctype xs (Suc i) (if cond_Type x = ctype then Some i else c)"

definition update_condition :: "int \<Rightarrow> Condition \<Rightarrow> string \<Rightarrow> string \<Rightarrow> string \<Rightarrow> Condition" where
  "update_condition now c status reason message =
     c\<lparr>cond_LastUpdateTime := now,
       cond_LastTransitionTime := (if cond_Status c \<noteq> status then now else cond_LastTransitionTime c),
       cond_Status := status, cond_Reason := reason, cond_Message := message\<rparr>"

definition setCondition ::
  "int \<Rightarrow> ApplicationStatus \<Rightarrow> string \<Rightarrow> string \<Rightarrow> string \<Rightarrow> string \<Rightarrow> ApplicationStatus" where
  "setCondition now appStatus ctype status reason message =
     (case find_condition ctype (st_Conditions appStatus) 0 None of
        None \<Rightarrow> addCondition now appStatus ctype status reason message
      | Some i \<Rightarrow>
          let c = st_Conditions appStatus ! i in
          if cond_Status c = status \<and> cond_Reason c = reason \<and> cond_Message c = message
          then appStatus
          else appStatus\<lparr>st_Conditions :=
                 (st_Conditions appStatus)[i := update_condition now c status reason message]\<rparr>)"

definition setReadyCondition :: "int \<Rightarrow> ApplicationStatus \<Rightarrow> string \<Rightarrow> string \<Rightarrow> ApplicationStatus" where
  "setReadyCondition now appStatus reason message =
     setCondition now appStatus Ready ConditionTrue reason message"

definition setNotReadyCondition :: "int \<Rightarrow> ApplicationStatus \<Rightarrow> string \<Rightarrow> string \<Rightarrow> ApplicationStatus" where
  "setNotReadyCondition now appStatus reason message =
     setCondition now appStatus Ready ConditionFalse reason message"

definition setReadyUnknownCondition :: "int \<Rightarrow> ApplicationStatus \<Rightarrow> string \<Rightarrow> string \<Rightarrow> ApplicationStatus" where
  "setReadyUnknownCondition now appStatus reason message =
     setCondition now appStatus Ready ConditionUnknown reason message"

definition setErrorCondition :: "int \<Rightarrow> ApplicationStatus \<Rightarrow> string \<Rightarrow> string \<Rightarrow> ApplicationStatus" where
  "setErrorCondition now appStatus reason message =
     setCondition now appStatus Error ConditionTrue reason message"

definition clearErrorCondition :: "int \<Rightarrow> ApplicationStatus \<Rightarrow> ApplicationStatus" where
  "clearErrorCondition now appStatus =
     setCondition now appStatus Error ConditionFalse ''NoError'' ''No error seen''"

section \<open>What a reader sees\<close>

text \<open>
  The effective condition of a type is the last entry of that type, the one setCondition updates;
  its content is what the entry says apart from the two times.
\<close>

definition current :: "ApplicationStatus \<Rightarrow> string \<Rightarrow> Condition option" where
  "current st t = find (\<lambda>c. cond_Type c = t) (rev (st_Conditions st))"

definition content :: "ApplicationStatus \<Rightarrow> string \<Rightarrow> (string \<times> string \<times> string) option" where
  "content st t = map_option (\<lambda>c. (cond_Status c, cond_Reason c, cond_Message c)) (current st t)"

definition one_per_type :: "ApplicationStatus \<Rightarrow> bool" where
  "one_per_type st \<longleftrightarrow> distinct (map cond_Type (st_Conditions st))"

lemma find_condition_snoc:
  "find_condition t (xs @ [x]) i c =
     (if cond_Type x = t then Some (i + length xs) else find_condition t xs i c)"
  by (induction xs arbitrary: i c) auto

lemma find_condition_None_iff:
  "find_condition t cs 0 None = None \<longleftrightarrow> t \<notin> cond_Type ` set cs"
  by (induction cs rule: rev_induct) (auto simp: find_condition_snoc)

lemma find_condition_Some:
  "find_condition t cs 0 None = Some i \<Longrightarrow>
     i < length cs \<and> cond_Type (cs ! i) = t \<and> find (\<lambda>c. cond_Type c = t) (rev cs) = Some (cs ! i)"
  by (induction cs rule: rev_induct) (auto simp: find_condition_snoc nth_append split: if_splits)

text \<open>Replacing the entry that the loop found replaces the effective condition.\<close>

lemma find_condition_update:
  assumes "find_condition t cs 0 None = Some i" and "cond_Type y = t"
  shows "find (\<lambda>c. cond_Type c = t') (rev (cs[i := y])) =
     (if t' = t then Some y else find (\<lambda>c. cond_Type c = t') (rev cs))"
  using assms
proof (induction cs rule: rev_induct)
  case (snoc x xs)
  show ?case
  proof (cases "cond_Type x = t")
    case True
    with snoc.prems have "i = length xs" by (simp add: find_condition_snoc)
    then show ?thesis using True snoc.prems by simp
  next
    case False
    with snoc.prems have fc: "find_condition t xs 0 None = Some i" by (simp add: find_condition_snoc)
    then have "i < length xs" by (auto dest: find_condition_Some)
    then show ?thesis using snoc.IH [OF fc snoc.prems(2)] snoc.prems(2) False by (auto simp: list_update_append1)
  qed
qed simp

lemma current_None_iff: "current st t = None \<longleftrightarrow> find_condition t (st_Conditions st) 0 None = None"
  by (auto simp: current_def find_None_iff find_condition_None_iff)

lemma current_Some: "find_condition t (st_Conditions st) 0 None = Some i \<Longrightarrow> current st t = Some (st_Conditions st ! i)"
  by (auto simp: current_def dest: find_condition_Some)

lemma update_condition_Type [simp]: "cond_Type (update_condition now c s r m) = cond_Type c"
  by (simp add: update_condition_def)

text \<open>
  The whole effect of setCondition on the effective conditions: other types are untouched; the
  entry of the type is created, kept when it already says so, or updated.
\<close>

lemma current_setCondition:
  "current (setCondition now st t s r m) t' =
     (if t' \<noteq> t then current st t'
      else case current st t of
        None \<Rightarrow> Some \<lparr>cond_Type = t, cond_Status = s, cond_Reason = r, cond_Message = m,
                      cond_LastUpdateTime = now, cond_LastTransitionTime = now\<rparr>
      | Some c \<Rightarrow>
          if cond_Status c = s \<and> cond_Reason c = r \<and> cond_Message c = m then Some c
          else Some (update_condition now c s r m))"
proof (cases "find_condition t (st_Conditions st) 0 None")
  case None
  then have "current st t = None" by (simp add: current_None_iff)
  then show ?thesis using None
    by (auto simp: setCondition_def addCondition_def Let_def current_def)
next
  case (Some i)
  let ?c = "st_Conditions st ! i"
  have cur: "current st t = Some ?c" using Some by (rule current_Some)
  have ty: "cond_Type ?c = t" using Some by (auto dest: find_condition_Some)
  show ?thesis
  proof (cases "cond_Status ?c = s \<and> cond_Reason ?c = r \<and> cond_Message ?c = m")
    case True
    then show ?thesis using Some cur by (auto simp: setCondition_def Let_def)
  next
    case False
    then show ?thesis using Some cur ty
      by (auto simp: setCondition_def Let_def current_def find_condition_update)
  qed
qed

lemma types_setCondition:
  "map cond_Type (st_Conditions (setCondition now st t s r m)) =
     map cond_Type (st_Conditions st) @ (if current st t = None then [t] else [])"
proof (cases "find_condition t (st_Conditions st) 0 None")
  case None
  then show ?thesis by (simp add: setCondition_def addCondition_def Let_def current_None_iff)
next
  case (Some i)
  then show ?thesis
    by (simp add: setCondition_def Let_def current_None_iff map_list_update_same)
qed

lemma setCondition_frame [simp]:
  "st_ObservedGeneration (setCondition now st t s r m) = st_ObservedGeneration st"
  "st_ComponentList (setCondition now st t s r m) = st_ComponentList st"
  "st_ComponentsReady (setCondition now st t s r m) = st_ComponentsReady st"
  by (simp_all add: setCondition_def addCondition_def Let_def split: option.splits)

lemma content_setCondition:
  "content (setCondition now st t s r m) t' = (if t' = t then Some (s, r, m) else content st t')"
  by (auto simp: content_def current_setCondition update_condition_def split: option.splits)

lemma setCondition_noop: "content st t = Some (s, r, m) \<Longrightarrow> setCondition now st t s r m = st"
  by (cases "find_condition t (st_Conditions st) 0 None")
    (auto simp: content_def current_None_iff [symmetric] setCondition_def Let_def dest: current_Some)

lemma one_per_type_setCondition: "one_per_type st \<Longrightarrow> one_per_type (setCondition now st t s r m)"
proof -
  assume d: "one_per_type st"
  have "t \<notin> set (map cond_Type (st_Conditions st))" if "current st t = None"
    using that by (simp add: current_None_iff find_condition_None_iff)
  then show ?thesis using d by (auto simp: one_per_type_def types_setCondition)
qed

lemma current_first: "one_per_type st \<Longrightarrow> find (\<lambda>c. cond_Type c = t) (st_Conditions st) = current st t"
  by (simp add: one_per_type_def current_def find_rev_distinct)

section \<open>The contract\<close>

text \<open>
  What the aggregation relies on: a set is visible at its type and nowhere else, setting what is
  already there changes nothing at all (so that an unchanged status compares equal and is not
  written), and the list keeps one entry per type.
\<close>

locale condition_store =
  fixes put :: "int \<Rightarrow> 's \<Rightarrow> string \<Rightarrow> string \<Rightarrow> string \<Rightarrow> string \<Rightarrow> 's"
    and get :: "'s \<Rightarrow> string \<Rightarrow> (string \<times> string \<times> string) option"
    and invar :: "'s \<Rightarrow> bool"
  assumes get_put: "get (put now s t a r m) t' = (if t' = t then Some (a, r, m) else get s t')"
    and put_present: "get s t = Some (a, r, m) \<Longrightarrow> put now s t a r m = s"
    and invar_put: "invar s \<Longrightarrow> invar (put now s t a r m)"
begin

lemma put_twice: "put now' (put now s t a r m) t a r m = put now s t a r m"
  by (rule put_present) (simp add: get_put)

text \<open>Two settings of different types are a fixed point of themselves, whatever the clock says.\<close>

lemma put_put_stable:
  assumes "t \<noteq> t'"
  shows "put n4 (put n3 (put n2 (put n1 s t a r m) t' b q l) t a r m) t' b q l
     = put n2 (put n1 s t a r m) t' b q l"
proof -
  let ?s = "put n2 (put n1 s t a r m) t' b q l"
  have "put n3 ?s t a r m = ?s" by (rule put_present) (simp add: get_put assms)
  moreover have "put n4 ?s t' b q l = ?s" by (rule put_present) (simp add: get_put)
  ultimately show ?thesis by simp
qed

lemma get_put_put: "t \<noteq> t' \<Longrightarrow> get (put n2 (put n1 s t a r m) t' b q l) t = Some (a, r, m)"
  by (simp add: get_put)

lemma invar_put_put: "invar s \<Longrightarrow> invar (put n2 (put n1 s t a r m) t' b q l)"
  by (simp add: invar_put)

end

interpretation conds: condition_store setCondition content one_per_type
  by unfold_locales (simp_all add: content_setCondition setCondition_noop one_per_type_setCondition)

text \<open>
  C10: setCondition makes the condition say exactly what was asked, touches no condition of another
  type, keeps one entry per type, and moves LastTransitionTime precisely when the condition's
  status moves (a new reason or message alone does not restart the not-ready clock).
\<close>

theorem setCondition_contract:
  "content (setCondition now st t s r m) t = Some (s, r, m) \<and>
   (\<forall>t'. t' \<noteq> t \<longrightarrow> current (setCondition now st t s r m) t' = current st t') \<and>
   (one_per_type st \<longrightarrow> one_per_type (setCondition now st t s r m)) \<and>
   (\<forall>c. current st t = Some c \<longrightarrow>
      (\<exists>c'. current (setCondition now st t s r m) t = Some c' \<and>
        cond_LastTransitionTime c' = (if cond_Status c = s then cond_LastTransitionTime c else now)))"
  by (auto simp: conds.get_put conds.invar_put current_setCondition update_condition_def)

definition sample_status :: ApplicationStatus where
  "sample_status = \<lparr>st_ObservedGeneration = 1, st_Conditions =
     [\<lparr>cond_Type = Ready, cond_Status = ConditionFalse, cond_Reason = ''a'', cond_Message = ''b'',
       cond_LastUpdateTime = 5, cond_LastTransitionTime = 5\<rparr>],
     st_ComponentList = \<lparr>cl_Objects = []\<rparr>, st_ComponentsReady = ''0/1''\<rparr>"

lemma sample_current:
  "current sample_status Ready = Some \<lparr>cond_Type = Ready, cond_Status = ConditionFalse,
     cond_Reason = ''a'', cond_Message = ''b'', cond_LastUpdateTime = 5, cond_LastTransitionTime = 5\<rparr>"
  by (simp add: current_def sample_status_def)

theorem setCondition_contract_witness:
  "one_per_type (setCondition 9 sample_status Error ConditionFalse ''NoError'' '''') \<and>
   current (setCondition 9 sample_status Error ConditionFalse ''NoError'' '''') Ready = current sample_status Ready \<and>
   (\<exists>c. current (setCondition 9 sample_status Ready ConditionFalse ''c'' ''d'') Ready = Some c \<and>
     cond_LastTransitionTime c = 5)"
proof -
  have one: "one_per_type sample_status" by (simp add: one_per_type_def sample_status_def)
  have ne: "Ready \<noteq> Error" by simp
  show ?thesis
    using setCondition_contract [of 9 sample_status Error ConditionFalse "''NoError''" "''''"]
      setCondition_contract [of 9 sample_status Ready ConditionFalse "''c''" "''d''"] one ne sample_current
    by auto
qed

end
