(* ===== verification/Aggregation.thy ===== *)
theory Aggregation
  imports Conditions Readiness "HOL-Library.List_Lexorder" "HOL-Library.Char_ord"
begin

text \<open>
  From component objects to the status of the Application (controllers/application_controller.go):
  objectStatuses, aggregateReady, getNewApplicationStatus and the two readers that the
  stabilization uses.  The library functions are the argument \<open>E\<close>: the Kubernetes accessors of
  Workload_Status, sort.Slice (which is not stable: any permutation in order may come out) and
  NewAggregate of k8s.io/apimachinery.
\<close>

record go_lib =
  lib_k8s :: k8s_lib
  lib_SortSlice :: "(ObjectStatus \<Rightarrow> ObjectStatus \<Rightarrow> bool) \<Rightarrow> ObjectStatus list \<Rightarrow> ObjectStatus list"
  lib_NewAggregate :: "go_error list \<Rightarrow> go_error option"

text \<open>What the libraries document.\<close>

definition sort_slice_law :: "go_lib \<Rightarrow> bool" where
  "sort_slice_law E \<longleftrightarrow> (\<forall>key xs.
     mset (lib_SortSlice E (\<lambda>a b. (key a :: string) < key b) xs) = mset xs \<and>
     sorted (map key (lib_SortSlice E (\<lambda>a b. key a < key b) xs)))"

definition new_aggregate_law :: "go_lib \<Rightarrow> bool" where
  "new_aggregate_law E \<longleftrightarrow> (\<forall>es. lib_NewAggregate E es = None \<longleftrightarrow> es = [])"

section \<open>The code\<close>

fun object_statuses_loop ::
  "k8s_lib \<Rightarrow> Unstructured list \<Rightarrow> ObjectStatus list \<Rightarrow> go_error list \<Rightarrow> ObjectStatus list \<times> go_error list" where
  "object_statuses_loop L [] objectStatuses errs = (objectStatuses, errs)"
| "object_statuses_loop L (r # rs) objectStatuses errs =
     (let os = \<lparr>os_Link = '''', os_Name = u_Name r, os_Kind = u_Kind r, os_Group = u_Group r, os_Status = ''''\<rparr>;
          (s, err) = status L r;
          errs' = (case err of None \<Rightarrow> errs | Some e \<Rightarrow> errs @ [e])
      in object_statuses_loop L rs (objectStatuses @ [os\<lparr>os_Status := s\<rparr>]) errs')"

definition object_key :: "ObjectStatus \<Rightarrow> string" where
  "object_key os = os_Group os @ ''/'' @ os_Kind os @ ''/'' @ os_Name os"

definition objectStatuses ::
  "go_lib \<Rightarrow> Unstructured list \<Rightarrow> go_error list \<Rightarrow> ObjectStatus list \<times> go_error list" where
  "objectStatuses E resources errs =
     (case object_statuses_loop (lib_k8s E) resources [] errs of
        (oss, errs') \<Rightarrow> (lib_SortSlice E (\<lambda>a b. object_key a < object_key b) oss, errs'))"

definition workloadKinds :: "string \<Rightarrow> bool" where
  "workloadKinds k \<longleftrightarrow> k \<in> set
     [''Deployment'', ''StatefulSet'', ''DaemonSet'', ''ReplicaSet'', ''ReplicationController'',
      ''Job'', ''CronJob'', ''Rollout'', ''Gateway'', ''HTTPRoute'', ''Agent'', ''ModelConfig'']"

fun aggregate_loop :: "ObjectStatus list \<Rightarrow> nat \<Rightarrow> nat \<Rightarrow> nat \<times> nat" where
  "aggregate_loop [] workloads countReady = (workloads, countReady)"
| "aggregate_loop (os # oss) workloads countReady =
     (if \<not> workloadKinds (os_Kind os) then aggregate_loop oss workloads countReady
      else aggregate_loop oss (workloads + 1)
        (if os_Status os = StatusReady then countReady + 1 else countReady))"

definition aggregateReady :: "ObjectStatus list \<Rightarrow> bool \<times> nat \<times> nat" where
  "aggregateReady oss =
     (case aggregate_loop oss 0 0 of
        (workloads, countReady) \<Rightarrow>
          if workloads = 0 then (True, 0, 0) else (countReady = workloads, countReady, workloads))"

fun count_all_ready :: "ObjectStatus list \<Rightarrow> nat \<Rightarrow> nat" where
  "count_all_ready [] n = n"
| "count_all_ready (os # oss) n = count_all_ready oss (if os_Status os = StatusReady then n + 1 else n)"

text \<open>\<open>t1\<close> and \<open>t2\<close>: the instants of the two metav1.Now() calls, if they happen.\<close>

definition getNewApplicationStatus ::
  "go_lib \<Rightarrow> int \<Rightarrow> int \<Rightarrow> Application \<Rightarrow> Unstructured list \<Rightarrow> go_error list \<Rightarrow> ApplicationStatus \<times> go_error list" where
  "getNewApplicationStatus E t1 t2 app resources errList =
     (let (oss, errList') = objectStatuses E resources errList;
          errs = lib_NewAggregate E errList';
          (aggReady, countWorkloadsReady, totalWorkloads) = aggregateReady oss;
          countAllReady = count_all_ready oss 0;
          new = (app_Status app)\<lparr>st_ComponentList := \<lparr>cl_Objects = oss\<rparr>,
                                 st_ComponentsReady := ratio_string countAllReady (length oss)\<rparr>;
          new' = (case errs of
              Some e \<Rightarrow> setReadyUnknownCondition t1 new ''ComponentsReadyUnknown''
                ''failed to aggregate all components' statuses, check the Error condition for details''
            | None \<Rightarrow>
                if aggReady then setReadyCondition t1 new ''ComponentsReady'' ''all components ready''
                else setNotReadyCondition t1 new ''ComponentsNotReady''
                  (ratio_string countWorkloadsReady totalWorkloads @ '' workloads not ready''));
          new'' = (case errs of
              Some e \<Rightarrow> setErrorCondition t2 new' ''ErrorSeen'' (err_msg e)
            | None \<Rightarrow> clearErrorCondition t2 new')
      in (new'', errList'))"

fun has_ready_true :: "Condition list \<Rightarrow> bool" where
  "has_ready_true [] = False"
| "has_ready_true (c # cs) =
     (if cond_Type c = Ready \<and> cond_Status c = ConditionTrue then True else has_ready_true cs)"

fun has_ready_not_true :: "Condition list \<Rightarrow> bool" where
  "has_ready_not_true [] = False"
| "has_ready_not_true (c # cs) =
     (if cond_Type c = Ready \<and> cond_Status c \<noteq> ConditionTrue then True else has_ready_not_true cs)"

definition isTransitioningToReady :: "ApplicationStatus \<Rightarrow> ApplicationStatus \<Rightarrow> bool" where
  "isTransitioningToReady newStatus curStatus =
     (if \<not> has_ready_true (st_Conditions newStatus) then False
      else has_ready_not_true (st_Conditions curStatus))"

text \<open>\<open>now\<close>: what time.Now() would return, for the fallback.\<close>

fun not_ready_since_loop :: "int \<Rightarrow> Condition list \<Rightarrow> int" where
  "not_ready_since_loop now [] = now"
| "not_ready_since_loop now (c # cs) =
     (if cond_Type c = Ready \<and> cond_Status c \<noteq> ConditionTrue then cond_LastTransitionTime c
      else not_ready_since_loop now cs)"

definition notReadySince :: "int \<Rightarrow> ApplicationStatus \<Rightarrow> int" where
  "notReadySince now st = not_ready_since_loop now (st_Conditions st)"

section \<open>The object list\<close>

definition object_status_of :: "k8s_lib \<Rightarrow> Unstructured \<Rightarrow> ObjectStatus" where
  "object_status_of L r =
     \<lparr>os_Link = '''', os_Name = u_Name r, os_Kind = u_Kind r, os_Group = u_Group r,
      os_Status = fst (status L r)\<rparr>"

lemma object_statuses_loop_eq:
  "object_statuses_loop L rs acc errs =
     (acc @ map (object_status_of L) rs, errs @ List.map_filter (snd \<circ> status L) rs)"
proof (induction rs arbitrary: acc errs)
  case (Cons r rs)
  then show ?case
    by (cases "status L r")
      (auto simp: Let_def object_status_of_def map_filter_simps split: option.splits)
qed (simp add: map_filter_simps)

lemma objectStatuses_eq:
  "objectStatuses E rs errs =
     (lib_SortSlice E (\<lambda>a b. object_key a < object_key b) (map (object_status_of (lib_k8s E)) rs),
      errs @ List.map_filter (snd \<circ> status (lib_k8s E)) rs)"
  by (simp add: objectStatuses_def object_statuses_loop_eq)

lemma sorted_by_key_unique:
  assumes "mset xs = mset ys" "distinct (map f xs)"
    and "sorted (map f xs)" "sorted (map (f :: 'a \<Rightarrow> string) ys)"
  shows "xs = ys"
proof -
  have "mset (map f xs) = mset (map f ys)" using assms(1) by simp
  then have "map f xs = map f ys" using assms(3,4) properties_for_sort sorted_sort_id by metis
  moreover have "inj_on f (set xs \<union> set ys)"
    using assms(1,2) by (metis distinct_map mset_eq_setD sup.idem)
  ultimately show ?thesis by (rule map_inj_on)
qed

text \<open>
  C16: the component list is exactly one entry per listed object, ordered by group/kind/name, and
  when these keys are pairwise different it does not depend on the order in which the API server
  listed the objects (sort.Slice may be any correct sort), so a mere reordering cannot show up as a
  status change.
\<close>

theorem component_list_deterministic:
  assumes "sort_slice_law E" and "mset rs = mset rs'"
    and "distinct (map (object_key \<circ> object_status_of (lib_k8s E)) rs)"
  shows "fst (objectStatuses E rs errs) = fst (objectStatuses E rs' errs') \<and>
    mset (fst (objectStatuses E rs errs)) = image_mset (object_status_of (lib_k8s E)) (mset rs) \<and>
    sorted (map object_key (fst (objectStatuses E rs errs)))"
proof -
  let ?sort = "lib_SortSlice E (\<lambda>a b. object_key a < object_key b)"
  let ?os = "map (object_status_of (lib_k8s E))"
  have perm: "mset (?sort xs) = mset xs" and ord: "sorted (map object_key (?sort xs))" for xs
    using assms(1) by (simp_all add: sort_slice_law_def)
  have same: "mset (?sort (?os rs)) = mset (?sort (?os rs'))" using perm assms(2) by simp
  have "mset (map object_key (?sort (?os rs))) = mset (map object_key (?os rs))"
    by (simp only: mset_map perm)
  moreover have "distinct (map object_key (?os rs))" using assms(3) by simp
  ultimately have "distinct (map object_key (?sort (?os rs)))" by (metis mset_eq_imp_distinct_iff)
  then have "?sort (?os rs) = ?sort (?os rs')" using same ord by (intro sorted_by_key_unique) auto
  then show ?thesis using perm ord assms(2) by (simp add: objectStatuses_eq)
qed

text \<open>A concrete sort and a concrete library for the examples.\<close>

fun insert_by :: "(ObjectStatus \<Rightarrow> ObjectStatus \<Rightarrow> bool) \<Rightarrow> ObjectStatus \<Rightarrow> ObjectStatus list \<Rightarrow> ObjectStatus list" where
  "insert_by lt x [] = [x]"
| "insert_by lt x (y # ys) = (if lt y x then y # insert_by lt x ys else x # y # ys)"

definition example_golib :: "k8s_lib \<Rightarrow> go_lib" where
  "example_golib L =
     \<lparr>lib_k8s = L, lib_SortSlice = \<lambda>lt xs. foldr (insert_by lt) xs [],
      lib_NewAggregate = \<lambda>es. case es of [] \<Rightarrow> None | e # _ \<Rightarrow> Some (ErrOther (err_msg e))\<rparr>"

lemma mset_insert_by [simp]: "mset (insert_by lt x ys) = add_mset x (mset ys)"
  by (induction ys) auto

lemma sorted_insert_by:
  "sorted (map key ys) \<Longrightarrow> sorted (map key (insert_by (\<lambda>a b. (key a :: string) < key b) x ys))"
proof (induction ys)
  case (Cons y ys)
  have "set (insert_by (\<lambda>a b. key a < key b) x ys) = insert x (set ys)"
    by (metis mset_insert_by set_mset_add_mset_insert set_mset_mset)
  then show ?case using Cons by auto
qed simp

lemma example_golib_laws: "sort_slice_law (example_golib L)" "new_aggregate_law (example_golib L)"
proof -
  have "mset (foldr (insert_by (\<lambda>a b. key a < key b)) xs []) = mset xs \<and>
      sorted (map key (foldr (insert_by (\<lambda>a b. (key a :: string) < key b)) xs []))" for key xs
    by (induction xs) (simp_all add: sorted_insert_by)
  then show "sort_slice_law (example_golib L)" by (simp add: sort_slice_law_def example_golib_def)
  show "new_aggregate_law (example_golib L)"
    by (simp add: new_aggregate_law_def example_golib_def split: list.split)
qed

theorem component_list_deterministic_witness:
  "fst (objectStatuses (example_golib example_lib)
      [example_object ''apps'' ''Deployment'', example_object '''' ''Service''] []) =
   fst (objectStatuses (example_golib example_lib)
      [example_object '''' ''Service'', example_object ''apps'' ''Deployment''] [])"
proof -
  let ?a = "example_object ''apps'' ''Deployment''" and ?b = "example_object '''' ''Service''"
  have "mset [?a, ?b] = mset [?b, ?a]" by simp
  moreover have "distinct (map (object_key \<circ> object_status_of (lib_k8s (example_golib example_lib))) [?a, ?b])"
    by (simp add: object_key_def object_status_of_def example_object_def)
  ultimately show ?thesis
    using component_list_deterministic [OF example_golib_laws(1)] by blast
qed

section \<open>Readiness of the Application\<close>

abbreviation workloads :: "ObjectStatus list \<Rightarrow> ObjectStatus list" where
  "workloads \<equiv> filter (\<lambda>os. workloadKinds (os_Kind os))"

abbreviation ready_objects :: "ObjectStatus list \<Rightarrow> ObjectStatus list" where
  "ready_objects \<equiv> filter (\<lambda>os. os_Status os = StatusReady)"

lemma aggregate_loop_eq:
  "aggregate_loop oss t c = (t + length (workloads oss), c + length (ready_objects (workloads oss)))"
  by (induction oss arbitrary: t c) auto

lemma count_all_ready_eq: "count_all_ready oss n = n + length (ready_objects oss)"
  by (induction oss arbitrary: n) auto

lemma aggregateReady_eq:
  "aggregateReady oss =
     (\<forall>os \<in> set oss. workloadKinds (os_Kind os) \<longrightarrow> os_Status os = StatusReady,
      length (ready_objects (workloads oss)), length (workloads oss))"
proof -
  have full: "length (ready_objects (workloads oss)) = length (workloads oss) \<longleftrightarrow>
      (\<forall>os \<in> set oss. workloadKinds (os_Kind os) \<longrightarrow> os_Status os = StatusReady)"
    by (auto simp: length_filter_full simp del: filter_filter)
  show ?thesis
  proof (cases "workloads oss = []")
    case True
    then have "\<forall>os \<in> set oss. \<not> workloadKinds (os_Kind os)" by (simp add: filter_empty_conv)
    then show ?thesis using True
      by (simp add: aggregateReady_def aggregate_loop_eq del: filter_filter)
  next
    case False
    then show ?thesis using full
      by (simp add: aggregateReady_def aggregate_loop_eq del: filter_filter)
  qed
qed

text \<open>
  C12: aggregateReady counts the workload components and the ready ones among them, and its flag is
  true exactly when every workload component is Ready; the other kinds (Services, Secrets, ...)
  never matter, and without any workload the Application counts as ready with zero counts.
\<close>

theorem aggregateReady_spec:
  "aggregateReady oss =
     (\<forall>os \<in> set oss. workloadKinds (os_Kind os) \<longrightarrow> os_Status os = StatusReady,
      length (ready_objects (workloads oss)), length (workloads oss))"
  by (rule aggregateReady_eq)

definition object_in_state :: "string \<Rightarrow> string \<Rightarrow> ObjectStatus" where
  "object_in_state kind st = \<lparr>os_Link = '''', os_Name = ''x'', os_Kind = kind, os_Group = '''', os_Status = st\<rparr>"

theorem aggregateReady_spec_witness:
  "aggregateReady [object_in_state ''Deployment'' StatusReady, object_in_state ''Service'' StatusInProgress] = (True, 1, 1) \<and>
   aggregateReady [object_in_state ''Deployment'' StatusReady, object_in_state ''Job'' StatusInProgress] = (False, 1, 2)"
  by (simp add: aggregateReady_spec object_in_state_def workloadKinds_def)

text \<open>The three steps of getNewApplicationStatus, named for the proofs.\<close>

definition verdict_of :: "go_lib \<Rightarrow> ObjectStatus list \<Rightarrow> go_error list \<Rightarrow> string \<times> string \<times> string" where
  "verdict_of E oss errs =
     (case lib_NewAggregate E errs of
        Some e \<Rightarrow> (ConditionUnknown, ''ComponentsReadyUnknown'',
          ''failed to aggregate all components' statuses, check the Error condition for details'')
      | None \<Rightarrow>
          if fst (aggregateReady oss) then (ConditionTrue, ''ComponentsReady'', ''all components ready'')
          else (ConditionFalse, ''ComponentsNotReady'',
            ratio_string (length (ready_objects (workloads oss))) (length (workloads oss))
              @ '' workloads not ready''))"

definition error_of :: "go_lib \<Rightarrow> go_error list \<Rightarrow> string \<times> string \<times> string" where
  "error_of E errs =
     (case lib_NewAggregate E errs of
        Some e \<Rightarrow> (ConditionTrue, ''ErrorSeen'', err_msg e)
      | None \<Rightarrow> (ConditionFalse, ''NoError'', ''No error seen''))"

definition put_content :: "int \<Rightarrow> ApplicationStatus \<Rightarrow> string \<Rightarrow> string \<times> string \<times> string \<Rightarrow> ApplicationStatus" where
  "put_content now st t c = (case c of (s, r, m) \<Rightarrow> setCondition now st t s r m)"

definition with_components :: "ApplicationStatus \<Rightarrow> ObjectStatus list \<Rightarrow> ApplicationStatus" where
  "with_components st oss = st\<lparr>st_ComponentList := \<lparr>cl_Objects = oss\<rparr>,
     st_ComponentsReady := ratio_string (length (ready_objects oss)) (length oss)\<rparr>"

lemma getNewApplicationStatus_eq:
  "getNewApplicationStatus E t1 t2 app rs errs =
     (let (oss, errs') = objectStatuses E rs errs
      in (put_content t2 (put_content t1 (with_components (app_Status app) oss) Ready
            (verdict_of E oss errs')) Error (error_of E errs'), errs'))"
proof -
  obtain oss errs' where o: "objectStatuses E rs errs = (oss, errs')"
    by (cases "objectStatuses E rs errs") auto
  show ?thesis
    by (auto simp: aggregateReady_eq getNewApplicationStatus_def o Let_def verdict_of_def error_of_def put_content_def
        with_components_def count_all_ready_eq setReadyUnknownCondition_def setReadyCondition_def
        setNotReadyCondition_def setErrorCondition_def clearErrorCondition_def split: option.split)
qed

lemma content_put_content: "content (put_content now st t c) t' = (if t' = t then Some c else content st t')"
  by (cases c) (simp add: put_content_def conds.get_put)

lemma put_content_frame [simp]:
  "st_ObservedGeneration (put_content now st t c) = st_ObservedGeneration st"
  "st_ComponentList (put_content now st t c) = st_ComponentList st"
  "st_ComponentsReady (put_content now st t c) = st_ComponentsReady st"
  by (cases c; simp add: put_content_def)+

lemma with_components_again: "with_components (put_content n2 (put_content n1 (with_components st oss) t c) t' d) oss
    = put_content n2 (put_content n1 (with_components st oss) t c) t' d"
  by (simp add: with_components_def)

text \<open>
  C2: what the Ready and the Error condition of a freshly computed status say: with any error seen
  (while listing or while judging a component) Ready is Unknown and Error is True; without, Error is
  False and Ready is True exactly when every workload component is Ready, and False otherwise.  The
  ratio shown in componentsReady counts all components, workloads or not.
\<close>

theorem new_status_meaning:
  assumes "new_aggregate_law E"
    and "getNewApplicationStatus E t1 t2 app rs errs = (st, errs')"
  shows "cl_Objects (st_ComponentList st) = fst (objectStatuses E rs errs) \<and>
    errs' = errs @ List.map_filter (snd \<circ> status (lib_k8s E)) rs \<and>
    map_option fst (content st Ready) = Some
      (if errs' \<noteq> [] then ConditionUnknown
       else if \<forall>os \<in> set (cl_Objects (st_ComponentList st)). workloadKinds (os_Kind os) \<longrightarrow> os_Status os = StatusReady
       then ConditionTrue else ConditionFalse) \<and>
    map_option fst (content st Error) = Some (if errs' \<noteq> [] then ConditionTrue else ConditionFalse) \<and>
    st_ComponentsReady st = ratio_string (length (ready_objects (cl_Objects (st_ComponentList st))))
      (length (cl_Objects (st_ComponentList st)))"
proof -
  obtain oss es where o: "objectStatuses E rs errs = (oss, es)" by (cases "objectStatuses E rs errs") auto
  have es: "es = errs @ List.map_filter (snd \<circ> status (lib_k8s E)) rs"
    using o by (simp add: objectStatuses_eq)
  have st: "st = put_content t2 (put_content t1 (with_components (app_Status app) oss) Ready
      (verdict_of E oss es)) Error (error_of E es)" and "errs' = es"
    using assms(2) by (auto simp: getNewApplicationStatus_eq o)
  moreover have "lib_NewAggregate E es = None \<longleftrightarrow> es = []"
    using assms(1) by (simp add: new_aggregate_law_def)
  ultimately show ?thesis
    using o es by (auto simp: content_put_content aggregateReady_eq verdict_of_def error_of_def with_components_def split: option.splits)
qed

definition example_meta :: ObjectMeta where
  "example_meta = \<lparr>om_Name = ''my-app'', om_Namespace = ''ns'', om_Generation = 3,
     om_DeletionTimestamp = None, om_Labels = []\<rparr>"

definition example_spec :: ApplicationSpec where
  "example_spec = \<lparr>spec_ComponentGroupKinds = [\<lparr>gk_Group = ''apps/v1'', gk_Kind = ''Deployment''\<rparr>],
     spec_Descriptor = \<lparr>desc_Type = '''', desc_Version = '''', desc_Description = '''', desc_Icons = [],
       desc_Maintainers = [], desc_Owners = [], desc_Keywords = [], desc_Links = [], desc_Notes = ''''\<rparr>,
     spec_Selector = Some \<lparr>sel_MatchLabels = [(''app'', ''my-app'')], sel_MatchExpressions = []\<rparr>,
     spec_AddOwnerRef = False, spec_Info = [], spec_AssemblyPhase = ''''\<rparr>"

definition example_app :: "ApplicationStatus \<Rightarrow> Application" where
  "example_app st = \<lparr>app_TypeMeta = \<lparr>tm_Kind = ''Application'', tm_APIVersion = ''app.k8s.io/v1beta1''\<rparr>, app_Meta = example_meta, app_Spec = example_spec, app_Status = st\<rparr>"

lemma example_app_sel [simp]:
  "app_Status (example_app st) = st" "app_Meta (example_app st) = example_meta"
  "app_Spec (example_app st) = example_spec"
  by (simp_all add: example_app_def)

theorem new_status_meaning_witness:
  "map_option fst (content (fst (getNewApplicationStatus (example_golib example_lib) 7 8
     (example_app sample_status) [example_object ''apps'' ''Deployment''] [])) Ready) = Some ConditionUnknown"
proof -
  let ?E = "example_golib example_lib" and ?rs = "[example_object ''apps'' ''Deployment'']"
  obtain st errs where g: "getNewApplicationStatus ?E 7 8 (example_app sample_status) ?rs [] = (st, errs)"
    by (cases "getNewApplicationStatus ?E 7 8 (example_app sample_status) ?rs []") auto
  have "List.map_filter (snd \<circ> status (lib_k8s ?E)) ?rs \<noteq> []"
    by (simp add: map_filter_simps example_golib_def status_def example_lib_def example_object_def deploymentStatus_def)
  then show ?thesis using new_status_meaning [OF example_golib_laws(2) g] g by auto
qed

section \<open>Stability\<close>

text \<open>
  Computing the status is idempotent: starting from an Application that already carries a
  computed status, the same components and the same listing errors give the very same status,
  times included, whatever the clock says.  This is what makes the comparison in Reconcile stop the
  writing once nothing changes.
\<close>

lemma new_status_idempotent:
  "getNewApplicationStatus E t3 t4 (app\<lparr>app_Status := fst (getNewApplicationStatus E t1 t2 app rs errs)\<rparr>) rs errs
     = getNewApplicationStatus E t1 t2 app rs errs"
proof -
  obtain oss es where o: "objectStatuses E rs errs = (oss, es)" by (cases "objectStatuses E rs errs") auto
  obtain a r m where v: "verdict_of E oss es = (a, r, m)" by (cases "verdict_of E oss es") auto
  obtain b q l where e: "error_of E es = (b, q, l)" by (cases "error_of E es") auto
  have ne: "Ready \<noteq> Error" by simp
  show ?thesis
    by (simp add: getNewApplicationStatus_eq o Let_def with_components_again)
      (simp add: v e put_content_def conds.put_put_stable [OF ne])
qed

section \<open>The readers of the stabilization\<close>

lemma has_ready_true_eq: "has_ready_true cs = (\<exists>c \<in> set cs. cond_Type c = Ready \<and> cond_Status c = ConditionTrue)"
  by (induction cs) auto

lemma has_ready_not_true_eq:
  "has_ready_not_true cs = (\<exists>c \<in> set cs. cond_Type c = Ready \<and> cond_Status c \<noteq> ConditionTrue)"
  by (induction cs) auto

lemma current_mem: "current st t = Some c \<Longrightarrow> c \<in> set (st_Conditions st) \<and> cond_Type c = t"
  unfolding current_def using find_Some_mem [of "\<lambda>c. cond_Type c = t" "rev (st_Conditions st)" c] by simp

lemma current_unique: "one_per_type st \<Longrightarrow> c \<in> set (st_Conditions st) \<Longrightarrow> cond_Type c = t \<Longrightarrow> current st t = Some c"
proof -
  assume d: "one_per_type st" and c: "c \<in> set (st_Conditions st)" "cond_Type c = t"
  then obtain c' where c': "current st t = Some c'"
    by (cases "current st t") (auto simp: current_def find_None_iff)
  then have "c' \<in> set (st_Conditions st)" "cond_Type c' = t" by (auto dest: current_mem)
  then have "c' = c" using d c unfolding one_per_type_def by (metis inj_on_contraD distinct_map)
  then show ?thesis using c' by simp
qed

lemma transitioning_iff:
  assumes "one_per_type new" and "one_per_type cur"
  shows "isTransitioningToReady new cur \<longleftrightarrow>
     map_option cond_Status (current new Ready) = Some ConditionTrue \<and>
     (\<exists>c. current cur Ready = Some c \<and> cond_Status c \<noteq> ConditionTrue)"
  using assms
  by (auto simp: isTransitioningToReady_def has_ready_true_eq has_ready_not_true_eq
      dest: current_mem current_unique)

lemma notReadySince_current:
  assumes "one_per_type st" and "current st Ready = Some c" and "cond_Status c \<noteq> ConditionTrue"
  shows "notReadySince now st = cond_LastTransitionTime c"
proof -
  have loop: "not_ready_since_loop now cs = (case find (\<lambda>c. cond_Type c = Ready \<and> cond_Status c \<noteq> ConditionTrue) cs of
      None \<Rightarrow> now | Some c \<Rightarrow> cond_LastTransitionTime c)" for cs
    by (induction cs) auto
  let ?P = "\<lambda>c. cond_Type c = Ready \<and> cond_Status c \<noteq> ConditionTrue"
  obtain c' where c': "find ?P (st_Conditions st) = Some c'"
    using assms(2,3) by (cases "find ?P (st_Conditions st)") (auto simp: find_None_iff dest: current_mem)
  then have "c' \<in> set (st_Conditions st)" "cond_Type c' = Ready" by (auto dest: find_Some_mem)
  then have "c' = c" using current_unique [OF assms(1), of c' Ready] assms(2) by simp
  then show ?thesis by (simp add: notReadySince_def loop c')
qed

text \<open>
  On condition lists with one entry per type, the stabilization test fires exactly when the
  effective Ready condition goes from not-True (False or Unknown) to True, and the instant that
  notReadySince then reports is the LastTransitionTime of that stored condition: the fallback to the
  current time is never used.
\<close>

lemma stabilization_reads_stored_condition:
  assumes "one_per_type new" and "one_per_type cur"
  shows "(isTransitioningToReady new cur \<longleftrightarrow>
      map_option cond_Status (current new Ready) = Some ConditionTrue \<and>
      (\<exists>c. current cur Ready = Some c \<and> cond_Status c \<noteq> ConditionTrue)) \<and>
    (isTransitioningToReady new cur \<longrightarrow>
      (\<exists>c. current cur Ready = Some c \<and> (\<forall>now. notReadySince now cur = cond_LastTransitionTime c)))"
  using assms by (auto simp: transitioning_iff notReadySince_current)

lemma stabilization_reads_stored_condition_example:
  "isTransitioningToReady (setReadyCondition 60 sample_status ''r'' ''m'') sample_status \<and>
   notReadySince 60 sample_status = 5"
proof -
  let ?new = "setReadyCondition 60 sample_status ''r'' ''m''"
  have one: "one_per_type sample_status" by (simp add: one_per_type_def sample_status_def)
  then have "one_per_type ?new" by (simp add: setReadyCondition_def conds.invar_put)
  moreover have "map_option cond_Status (current ?new Ready) = Some ConditionTrue"
    by (simp add: setReadyCondition_def current_setCondition sample_current update_condition_def)
  ultimately show ?thesis
    using stabilization_reads_stored_condition [of ?new sample_status] one by (auto simp: sample_current)
qed

text \<open>
  C20: the message of the not-ready condition puts the number of Ready workloads, not of workloads
  that are not ready, in front of the words "workloads not ready": with two of three workloads ready
  it says 2/3 workloads not ready.
\<close>

theorem not_ready_message_counts_ready:
  assumes "lib_NewAggregate E (snd (objectStatuses E rs errs)) = None"
    and "\<exists>os \<in> set (fst (objectStatuses E rs errs)). workloadKinds (os_Kind os) \<and> os_Status os \<noteq> StatusReady"
  shows "content (fst (getNewApplicationStatus E t1 t2 app rs errs)) Ready =
    Some (ConditionFalse, ''ComponentsNotReady'',
      ratio_string (length (ready_objects (workloads (fst (objectStatuses E rs errs)))))
        (length (workloads (fst (objectStatuses E rs errs)))) @ '' workloads not ready'')"
proof -
  obtain oss es where o: "objectStatuses E rs errs = (oss, es)" by (cases "objectStatuses E rs errs") auto
  have "\<not> (\<forall>os \<in> set oss. workloadKinds (os_Kind os) \<longrightarrow> os_Status os = StatusReady)"
    using assms(2) o by auto
  then show ?thesis using assms(1)
    by (simp add: getNewApplicationStatus_eq o Let_def content_put_content verdict_of_def aggregateReady_eq
        del: filter_filter)
qed

definition not_ready_lib :: k8s_lib where
  "not_ready_lib = example_lib\<lparr>asJob := \<lambda>_. Inr \<lparr>job_Conditions = []\<rparr>,
     asCronJob := \<lambda>_. Inr \<lparr>cj_Suspend = None\<rparr>\<rparr>"

theorem not_ready_message_counts_ready_witness:
  "content (fst (getNewApplicationStatus (example_golib not_ready_lib) 7 8 (example_app sample_status)
     [example_object ''batch'' ''CronJob'', example_object ''batch'' ''Job''] [])) Ready =
   Some (ConditionFalse, ''ComponentsNotReady'', ''1/2 workloads not ready'')"
proof -
  let ?E = "example_golib not_ready_lib"
    and ?rs = "[example_object ''batch'' ''CronJob'', example_object ''batch'' ''Job'']"
  have o: "objectStatuses ?E ?rs [] =
      ([\<lparr>os_Link = '''', os_Name = ''x'', os_Kind = ''CronJob'', os_Group = ''batch'', os_Status = StatusReady\<rparr>,
        \<lparr>os_Link = '''', os_Name = ''x'', os_Kind = ''Job'', os_Group = ''batch'', os_Status = StatusInProgress\<rparr>], [])"
    by (simp add: objectStatuses_eq example_golib_def map_filter_simps object_status_of_def example_object_def
        status_def not_ready_lib_def example_lib_def cronJobStatus_def jobStatus_def object_key_def less_char_def)
  have agg: "lib_NewAggregate ?E [] = None" by (simp add: example_golib_def)
  have "content (fst (getNewApplicationStatus ?E 7 8 (example_app sample_status) ?rs [])) Ready =
      Some (ConditionFalse, ''ComponentsNotReady'',
        ratio_string (length (ready_objects (workloads (fst (objectStatuses ?E ?rs [])))))
          (length (workloads (fst (objectStatuses ?E ?rs [])))) @ '' workloads not ready'')"
    by (rule not_ready_message_counts_ready) (simp_all add: o agg workloadKinds_def)
  then show ?thesis
    by (simp add: o workloadKinds_def ratio_string_def nat_digits.simps digit_def)
qed

end
