(* ===== verification/Reconciler.thy ===== *)
theory Reconciler
  imports Aggregation
begin

text \<open>
  The reconcile loop (controllers/application_controller.go): Reconcile with everything it calls,
  the listing of components, the dynamic watches, the status write with its retries, and the
  fan-out from a component to its Applications.

  The cluster is the argument \<open>C\<close>: the operations of the client, the REST mapper, the controller and
  the clock, each on an abstract world \<open>'w\<close> that it may change; \<open>'sel\<close> is the type of a converted
  label selector.  Every theorem holds for all of them, unless it names a law of the library.
  The code reads the clock only where it needs the time; the model reads it at the same points of the
  reconcile on every path, and a reading that the code does not make is not used.
\<close>

record ('w, 'sel) cluster =
  k_lib :: go_lib
  k_Get :: "'w \<Rightarrow> NamespacedName \<Rightarrow> (go_error + Application) \<times> 'w"
  k_StatusUpdate :: "'w \<Rightarrow> Application \<Rightarrow> go_error option \<times> 'w"
  k_List :: "'w \<Rightarrow> GroupVersionKind \<Rightarrow> string \<Rightarrow> 'sel \<Rightarrow> (go_error + Unstructured list) \<times> 'w"
  k_ListApps :: "'w \<Rightarrow> string \<Rightarrow> (go_error + Application list) \<times> 'w"
  k_RESTMapping :: "'w \<Rightarrow> GroupKind \<Rightarrow> go_error + GroupVersionKind"
  k_LabelSelectorAsSelector :: "LabelSelector \<Rightarrow> go_error + 'sel"
  k_Matches :: "'sel \<Rightarrow> (string \<times> string) list \<Rightarrow> bool"
  k_Now :: "'w \<Rightarrow> int \<times> 'w"
  k_Watch :: "'w \<Rightarrow> GroupVersionKind \<Rightarrow> go_error option \<times> 'w"
  k_RetryOnConflict :: "('w \<Rightarrow> go_error option \<times> 'w) \<Rightarrow> 'w \<Rightarrow> go_error option \<times> 'w"
  k_DeepEqual :: "ApplicationStatus \<Rightarrow> ApplicationStatus \<Rightarrow> bool"

text \<open>
  \<open>r_wired\<close>: the fields controller and cache are set, as SetupWithManager does.  The keys of the
  sync.Map watchedKinds are a set.
\<close>

record ApplicationReconciler =
  r_StabilizationPeriod :: int64
  r_ConcurrentReconciles :: int
  r_wired :: bool
  r_watchedKinds :: "GroupVersionKind set"

record Result =
  res_RequeueAfter :: int64

abbreviation no_requeue :: Result where "no_requeue \<equiv> \<lparr>res_RequeueAfter = 0\<rparr>"

definition Second :: int64 where "Second = 1000000000"

section \<open>Listing the components\<close>

fun fetch_loop ::
  "('w, 'sel) cluster \<Rightarrow> 'sel \<Rightarrow> string \<Rightarrow> GroupKind list \<Rightarrow> Unstructured list \<Rightarrow> go_error list \<Rightarrow> 'w
     \<Rightarrow> Unstructured list \<times> go_error list \<times> 'w" where
  "fetch_loop C sel ns [] resources errs w = (resources, errs, w)"
| "fetch_loop C sel ns (gk # gks) resources errs w =
     (case k_RESTMapping C w \<lparr>gk_Group = StripVersion (gk_Group gk), gk_Kind = gk_Kind gk\<rparr> of
        Inl e \<Rightarrow> fetch_loop C sel ns gks resources errs w
      | Inr gvk \<Rightarrow>
          (case k_List C w gvk ns sel of
             (Inl e, w') \<Rightarrow> fetch_loop C sel ns gks resources (errs @ [e]) w'
           | (Inr items, w') \<Rightarrow> fetch_loop C sel ns gks (resources @ items) errs w'))"

definition fetchComponentListResources ::
  "('w, 'sel) cluster \<Rightarrow> GroupKind list \<Rightarrow> LabelSelector option \<Rightarrow> string \<Rightarrow> go_error list \<Rightarrow> 'w
     \<Rightarrow> Unstructured list \<times> go_error list \<times> 'w" where
  "fetchComponentListResources C groupKinds selector ns errs w =
     (case selector of
        None \<Rightarrow> ([], errs, w)
      | Some s \<Rightarrow>
          (case k_LabelSelectorAsSelector C s of
             Inl e \<Rightarrow> ([], errs @ [e], w)
           | Inr sel \<Rightarrow> fetch_loop C sel ns groupKinds [] errs w))"

definition updateComponents ::
  "('w, 'sel) cluster \<Rightarrow> Application \<Rightarrow> 'w \<Rightarrow> Unstructured list \<times> go_error list \<times> 'w" where
  "updateComponents C app w =
     fetchComponentListResources C (spec_ComponentGroupKinds (app_Spec app))
       (spec_Selector (app_Spec app)) (om_Namespace (app_Meta app)) [] w"

section \<open>Dynamic watches\<close>

fun watch_loop ::
  "('w, 'sel) cluster \<Rightarrow> GroupKind list \<Rightarrow> GroupVersionKind set \<Rightarrow> 'w \<Rightarrow> GroupVersionKind set \<times> 'w" where
  "watch_loop C [] watched w = (watched, w)"
| "watch_loop C (gk # gks) watched w =
     (if \<not> workloadKinds (gk_Kind gk) then watch_loop C gks watched w
      else case k_RESTMapping C w \<lparr>gk_Group = StripVersion (gk_Group gk), gk_Kind = gk_Kind gk\<rparr> of
        Inl e \<Rightarrow> watch_loop C gks watched w
      | Inr gvk \<Rightarrow>
          if gvk \<in> watched then watch_loop C gks watched w
          else (case k_Watch C w gvk of
             (Some e, w') \<Rightarrow> watch_loop C gks (insert gvk watched - {gvk}) w'
           | (None, w') \<Rightarrow> watch_loop C gks (insert gvk watched) w'))"

definition ensureComponentWatches ::
  "('w, 'sel) cluster \<Rightarrow> ApplicationReconciler \<Rightarrow> Application \<Rightarrow> 'w \<Rightarrow> ApplicationReconciler \<times> 'w" where
  "ensureComponentWatches C r app w =
     (if \<not> r_wired r then (r, w)
      else case watch_loop C (spec_ComponentGroupKinds (app_Spec app)) (r_watchedKinds r) w of
        (watched, w') \<Rightarrow> (r\<lparr>r_watchedKinds := watched\<rparr>, w'))"

section \<open>The status write\<close>

definition write_once ::
  "('w, 'sel) cluster \<Rightarrow> NamespacedName \<Rightarrow> ApplicationStatus \<Rightarrow> 'w \<Rightarrow> go_error option \<times> 'w" where
  "write_once C nn st w =
     (case k_Get C w nn of
        (Inl e, w') \<Rightarrow> (Some e, w')
      | (Inr original, w') \<Rightarrow> k_StatusUpdate C w' (original\<lparr>app_Status := st\<rparr>))"

definition updateApplicationStatus ::
  "('w, 'sel) cluster \<Rightarrow> NamespacedName \<Rightarrow> ApplicationStatus \<Rightarrow> 'w \<Rightarrow> go_error option \<times> 'w" where
  "updateApplicationStatus C nn st w =
     (case k_RetryOnConflict C (write_once C nn st) w of
        (None, w') \<Rightarrow> (None, w')
      | (Some e, w') \<Rightarrow>
          if IsNotFound e then (None, w')
          else (Some (ErrOther (''failed to update status of Application '' @ nn_Namespace nn @ ''/'' @
                  nn_Name nn @ '': '' @ err_msg e)), w'))"

section \<open>Stabilization\<close>

text \<open>time.Since saturates at the ends of the range of a Duration.\<close>

definition time_since :: "int \<Rightarrow> int \<Rightarrow> int64" where
  "time_since now t = word_of_int (max int64_min (min int64_max (now - t)))"

text \<open>The remaining wait of the stabilization, if it applies.\<close>

definition stabilization_wait ::
  "int64 \<Rightarrow> int \<Rightarrow> int \<Rightarrow> ApplicationStatus \<Rightarrow> ApplicationStatus \<Rightarrow> int64 option" where
  "stabilization_wait period fallback now newStatus curStatus =
     (if 0 < sint period \<and> isTransitioningToReady newStatus curStatus then
        (let waited = time_since now (notReadySince fallback curStatus)
         in if sint waited < sint period then Some (period - waited) else None)
      else None)"

section \<open>Reconcile\<close>

text \<open>The status that a reconcile computes, with the observed generation.\<close>

definition computeStatus ::
  "('w, 'sel) cluster \<Rightarrow> int \<Rightarrow> int \<Rightarrow> Application \<Rightarrow> Unstructured list \<Rightarrow> go_error list \<Rightarrow> ApplicationStatus \<times> go_error list" where
  "computeStatus C t1 t2 app resources errs =
     (case getNewApplicationStatus (k_lib C) t1 t2 app resources errs of
        (new, errs') \<Rightarrow> (new\<lparr>st_ObservedGeneration := om_Generation (app_Meta app)\<rparr>, errs'))"

text \<open>From the comparison of the new status with the stored one to the end.\<close>

definition decide ::
  "('w, 'sel) cluster \<Rightarrow> ApplicationReconciler \<Rightarrow> NamespacedName \<Rightarrow> Application \<Rightarrow> ApplicationStatus \<Rightarrow> go_error list \<Rightarrow> 'w
     \<Rightarrow> (Result \<times> go_error option) \<times> 'w" where
  "decide C r nn app new errs w =
     (if k_DeepEqual C new (app_Status app) then
        (if 0 < length errs then ((\<lparr>res_RequeueAfter = 30 * Second\<rparr>, None), w)
         else ((no_requeue, None), w))
      else
        let (t3, w1) = k_Now C w; (t4, w2) = k_Now C w1 in
        case stabilization_wait (r_StabilizationPeriod r) t3 t4 new (app_Status app) of
          Some d \<Rightarrow> ((\<lparr>res_RequeueAfter = d\<rparr>, None), w2)
        | None \<Rightarrow>
            (case updateApplicationStatus C nn new w2 of (err, w3) \<Rightarrow> ((no_requeue, err), w3)))"

definition Reconcile ::
  "('w, 'sel) cluster \<Rightarrow> ApplicationReconciler \<Rightarrow> NamespacedName \<Rightarrow> 'w
     \<Rightarrow> (Result \<times> go_error option) \<times> ApplicationReconciler \<times> 'w" where
  "Reconcile C r nn w =
     (case k_Get C w nn of
        (Inl e, w1) \<Rightarrow> if IsNotFound e then ((no_requeue, None), r, w1) else ((no_requeue, Some e), r, w1)
      | (Inr app, w1) \<Rightarrow>
          if om_DeletionTimestamp (app_Meta app) \<noteq> None then ((no_requeue, None), r, w1)
          else
            let (r', w2) = ensureComponentWatches C r app w1;
                (resources, errs, w3) = updateComponents C app w2;
                (t1, w4) = k_Now C w3;
                (t2, w5) = k_Now C w4;
                (new, errs') = computeStatus C t1 t2 app resources errs;
                (res, w6) = decide C r' nn app new errs' w5
            in (res, r', w6))"

section \<open>Component to Application\<close>

fun applications_loop ::
  "('w, 'sel) cluster \<Rightarrow> (string \<times> string) list \<Rightarrow> Application list \<Rightarrow> NamespacedName list \<Rightarrow> NamespacedName list" where
  "applications_loop C compLabels [] reqs = reqs"
| "applications_loop C compLabels (app # apps) reqs =
     (case spec_Selector (app_Spec app) of
        None \<Rightarrow> applications_loop C compLabels apps reqs
      | Some s \<Rightarrow>
          (case k_LabelSelectorAsSelector C s of
             Inl e \<Rightarrow> applications_loop C compLabels apps reqs
           | Inr sel \<Rightarrow>
               applications_loop C compLabels apps
                 (if k_Matches C sel compLabels
                  then reqs @ [\<lparr>nn_Namespace = om_Namespace (app_Meta app), nn_Name = om_Name (app_Meta app)\<rparr>]
                  else reqs)))"

definition applicationsForComponent ::
  "('w, 'sel) cluster \<Rightarrow> Unstructured \<Rightarrow> 'w \<Rightarrow> NamespacedName list \<times> 'w" where
  "applicationsForComponent C obj w =
     (case k_ListApps C w (u_Namespace obj) of
        (Inl e, w') \<Rightarrow> ([], w')
      | (Inr apps, w') \<Rightarrow> (applications_loop C (u_Labels obj) apps [], w'))"

text \<open>SetupWithManager: the concurrency default and the wiring; the build of the controller may fail.\<close>

definition SetupWithManager ::
  "(int \<Rightarrow> go_error option) \<Rightarrow> ApplicationReconciler \<Rightarrow> go_error option \<times> ApplicationReconciler" where
  "SetupWithManager build r =
     (let concurrency = (if r_ConcurrentReconciles r \<le> 0 then 4 else r_ConcurrentReconciles r)
      in case build concurrency of
           Some e \<Rightarrow> (Some e, r)
         | None \<Rightarrow> (None, r\<lparr>r_wired := True\<rparr>))"

end
