(* ===== verification/Reconcile_Facts.thy ===== *)
theory Reconcile_Facts
  imports Reconciler
begin

text \<open>
  What the reconcile loop guarantees: when it writes and when it does not, how long the
  stabilization can hold a status back, that a written status is left alone, which errors a write
  reports, which components are listed, which Applications a component wakes, and that each kind is
  watched once.
\<close>

section \<open>Laws of the libraries\<close>

text \<open>equality.Semantic.DeepEqual on the fields of a status is equality of the model's records.\<close>

definition deep_equal_law :: "('w, 'sel) cluster \<Rightarrow> bool" where
  "deep_equal_law C \<longleftrightarrow> (\<forall>a b. k_DeepEqual C a b \<longleftrightarrow> a = b)"

text \<open>retry.RetryOnConflict repeats the function while it reports a conflict, a bounded number of times.\<close>

fun attempts :: "nat \<Rightarrow> ('w \<Rightarrow> go_error option \<times> 'w) \<Rightarrow> 'w \<Rightarrow> go_error option \<times> 'w" where
  "attempts 0 f w = f w"
| "attempts (Suc n) f w =
     (case f w of
        (Some e, w') \<Rightarrow> if IsConflict e then attempts n f w' else (Some e, w')
      | (None, w') \<Rightarrow> (None, w'))"

definition retry_law :: "nat \<Rightarrow> ('w, 'sel) cluster \<Rightarrow> bool" where
  "retry_law n C \<longleftrightarrow> (\<forall>f w. k_RetryOnConflict C f w = attempts n f w)"

section \<open>Early exits\<close>

text \<open>
  Reconciling an Application that does not exist, or that is being deleted, ends without error
  and without requeue after the one Get: no watch is registered, nothing is listed and nothing is
  written.  Any other failure of the Get is returned, for the workqueue to retry.
\<close>

lemma reconcile_early_exit:
  "(k_Get C w nn = (Inl e, w1) \<longrightarrow>
      Reconcile C r nn w = ((no_requeue, if IsNotFound e then None else Some e), r, w1)) \<and>
   (k_Get C w nn = (Inr app, w1) \<and> om_DeletionTimestamp (app_Meta app) = Some t \<longrightarrow>
      Reconcile C r nn w = ((no_requeue, None), r, w1))"
  by (simp add: Reconcile_def)

text \<open>A cluster for the examples: the world is the clock, one Application, no components.\<close>

definition example_cluster :: "Application \<Rightarrow> (int, unit) cluster" where
  "example_cluster app =
     \<lparr>k_lib = example_golib example_lib,
      k_Get = \<lambda>w nn. (if nn_Name nn = ''my-app'' then Inr app else Inl (ErrNotFound ''gone''), w),
      k_StatusUpdate = \<lambda>w a. (None, w + 1000),
      k_List = \<lambda>w gvk ns sel. (Inr [], w),
      k_ListApps = \<lambda>w ns. (Inr [app], w),
      k_RESTMapping = \<lambda>w gk. Inr \<lparr>gvk_Group = gk_Group gk, gvk_Version = ''v1'', gvk_Kind = gk_Kind gk\<rparr>,
      k_LabelSelectorAsSelector = \<lambda>s. Inr (),
      k_Matches = \<lambda>s ls. ls \<noteq> [],
      k_Now = \<lambda>w. (w, w + 1),
      k_Watch = \<lambda>w gvk. (None, w),
      k_RetryOnConflict = attempts 4,
      k_DeepEqual = (=)\<rparr>"

definition example_reconciler :: ApplicationReconciler where
  "example_reconciler = \<lparr>r_StabilizationPeriod = 30, r_ConcurrentReconciles = 4, r_wired = True, r_watchedKinds = {}\<rparr>"

abbreviation example_name :: "string \<Rightarrow> NamespacedName" where
  "example_name n \<equiv> \<lparr>nn_Namespace = ''ns'', nn_Name = n\<rparr>"

lemma reconcile_early_exit_example:
  "Reconcile (example_cluster (example_app sample_status)) example_reconciler (example_name ''other'') 100
     = ((no_requeue, None), example_reconciler, 100)"
proof -
  have "k_Get (example_cluster (example_app sample_status)) 100 (example_name ''other'') = (Inl (ErrNotFound ''gone''), 100)"
    by (simp add: example_cluster_def)
  then show ?thesis
    using reconcile_early_exit [of "example_cluster (example_app sample_status)" 100 "example_name ''other''"
        "ErrNotFound ''gone''" 100 example_reconciler] by simp
qed

section \<open>No write without a settled change\<close>

lemma fetch_loop_update [simp]:
  "fetch_loop (C\<lparr>k_StatusUpdate := f\<rparr>) sel ns gks rs errs w = fetch_loop C sel ns gks rs errs w"
  by (induction C sel ns gks rs errs w rule: fetch_loop.induct) (simp split: sum.split prod.split)+

lemma watch_loop_update [simp]:
  "watch_loop (C\<lparr>k_StatusUpdate := f\<rparr>) gks watched w = watch_loop C gks watched w"
  by (induction C gks watched w rule: watch_loop.induct) (simp split: sum.split prod.split option.split)+

lemma reads_update [simp]:
  "updateComponents (C\<lparr>k_StatusUpdate := f\<rparr>) app w = updateComponents C app w"
  "ensureComponentWatches (C\<lparr>k_StatusUpdate := f\<rparr>) r app w = ensureComponentWatches C r app w"
  "computeStatus (C\<lparr>k_StatusUpdate := f\<rparr>) t1 t2 app rs errs = computeStatus C t1 t2 app rs errs"
  by (simp_all add: updateComponents_def fetchComponentListResources_def ensureComponentWatches_def
      computeStatus_def split: option.split sum.split)

lemma decide_update:
  assumes "res_RequeueAfter (fst (fst (decide C r nn app new errs w))) \<noteq> 0 \<or> k_DeepEqual C new (app_Status app)"
  shows "decide (C\<lparr>k_StatusUpdate := f\<rparr>) r nn app new errs w = decide C r nn app new errs w"
  using assms by (auto simp: decide_def Let_def split: prod.splits option.splits)

lemma Reconcile_unfold:
  assumes "k_Get C w nn = (Inr app, w1)" and "om_DeletionTimestamp (app_Meta app) = None"
    and "ensureComponentWatches C r app w1 = (r', w2)"
    and "updateComponents C app w2 = (rs, errs, w3)"
    and "k_Now C w3 = (t1, w4)" and "k_Now C w4 = (t2, w5)"
    and "computeStatus C t1 t2 app rs errs = (new, errs')"
  shows "Reconcile C r nn w = (case decide C r' nn app new errs' w5 of (res, w6) \<Rightarrow> (res, r', w6))"
  using assms by (simp add: Reconcile_def Let_def)

text \<open>
  C7: a reconcile that asks to be requeued has written nothing: its outcome, and the world it
  leaves, are the same for every behaviour of the status update of the API server.
\<close>

theorem requeue_means_no_write:
  assumes "res_RequeueAfter (fst (fst (Reconcile C r nn w))) \<noteq> 0"
  shows "Reconcile (C\<lparr>k_StatusUpdate := f\<rparr>) r nn w = Reconcile C r nn w"
proof (cases "k_Get C w nn")
  case (Pair res w1)
  show ?thesis
  proof (cases res)
    case (Inl e)
    then show ?thesis using Pair by (simp add: Reconcile_def)
  next
    case (Inr app)
    show ?thesis
    proof (cases "om_DeletionTimestamp (app_Meta app)")
      case (Some t)
      then show ?thesis using Pair Inr by (simp add: Reconcile_def)
    next
      case None
      obtain r' w2 where ew: "ensureComponentWatches C r app w1 = (r', w2)" by fastforce
      obtain rs errs w3 where uc: "updateComponents C app w2 = (rs, errs, w3)" by (cases "updateComponents C app w2") auto
      obtain t1 w4 where n1: "k_Now C w3 = (t1, w4)" by fastforce
      obtain t2 w5 where n2: "k_Now C w4 = (t2, w5)" by fastforce
      obtain new errs' where cs: "computeStatus C t1 t2 app rs errs = (new, errs')" by fastforce
      note step = Reconcile_unfold [OF _ None]
      have "Reconcile C r nn w = (case decide C r' nn app new errs' w5 of (res, w6) \<Rightarrow> (res, r', w6))"
        using Pair Inr ew uc n1 n2 cs by (intro step) auto
      moreover have "Reconcile (C\<lparr>k_StatusUpdate := f\<rparr>) r nn w =
          (case decide (C\<lparr>k_StatusUpdate := f\<rparr>) r' nn app new errs' w5 of (res, w6) \<Rightarrow> (res, r', w6))"
        using Pair Inr ew uc n1 n2 cs by (intro step) auto
      ultimately show ?thesis using assms decide_update [of C r' nn app new errs' w5 f]
        by (auto split: prod.splits)
    qed
  qed
qed

section \<open>Stabilization\<close>

lemma sint_time_since: "sint (time_since now t) = max int64_min (min int64_max (now - t))"
  unfolding time_since_def by (rule sint_of_int64) simp_all

lemma not_ready_since_fallback:
  "has_ready_not_true cs \<Longrightarrow> not_ready_since_loop a cs = not_ready_since_loop b cs"
  by (induction cs) auto

lemma notReadySince_fallback:
  "isTransitioningToReady new cur \<Longrightarrow> notReadySince a cur = notReadySince b cur"
  by (auto simp: isTransitioningToReady_def notReadySince_def split: if_splits intro: not_ready_since_fallback)

lemma stabilization_wait_eq:
  assumes "isTransitioningToReady new cur" and "0 < sint P" and "notReadySince fb cur \<le> now"
  shows "stabilization_wait P fb now new cur =
    (if now < notReadySince fb cur + sint P
     then Some (word_of_int (notReadySince fb cur + sint P - now)) else None)"
proof -
  let ?t = "notReadySince fb cur"
  have P: "sint P \<le> int64_max" using sint_int64_bounds [of P] by simp
  have wait: "sint (time_since now ?t) = min int64_max (now - ?t)"
    using assms(3) by (simp add: sint_time_since)
  show ?thesis
  proof (cases "now < ?t + sint P")
    case True
    have "sint (time_since now ?t) = now - ?t" using wait True P by simp
    then have "P - time_since now ?t = word_of_int (sint P) - word_of_int (now - ?t)"
      by (metis int64_of_sint)
    also have "\<dots> = word_of_int (?t + sint P - now)" by (simp only: of_int_diff [symmetric] diff_diff_eq2 add.commute)
    finally show ?thesis using assms True wait P by (simp add: stabilization_wait_def Let_def)
  next
    case False
    then have "\<not> sint (time_since now ?t) < sint P" using wait P by simp
    then show ?thesis using False by (simp add: stabilization_wait_def Let_def)
  qed
qed

lemma stabilization_releases:
  assumes "isTransitioningToReady new cur" and "notReadySince fb cur + sint P \<le> now'"
  shows "stabilization_wait P fb' now' new' cur = None"
proof (cases "0 < sint P \<and> isTransitioningToReady new' cur")
  case True
  then have "notReadySince fb' cur = notReadySince fb cur" using assms(1) notReadySince_fallback by blast
  then show ?thesis using stabilization_wait_eq [of new' cur P fb' now'] True assms(2) by simp
qed (auto simp: stabilization_wait_def)

text \<open>A reconcile that goes on to write the status: no requeue, and the outcome of the write.\<close>

definition written ::
  "('w, 'sel) cluster \<Rightarrow> NamespacedName \<Rightarrow> ApplicationStatus \<Rightarrow> 'w \<Rightarrow> (Result \<times> go_error option) \<times> 'w" where
  "written C nn st w = (case updateApplicationStatus C nn st w of (err, w') \<Rightarrow> ((no_requeue, err), w'))"

lemma decide_changed:
  assumes "\<not> k_DeepEqual C new (app_Status app)" and "k_Now C w = (t, w1)" and "k_Now C w1 = (now, w2)"
  shows "decide C r nn app new errs w =
    (case stabilization_wait (r_StabilizationPeriod r) t now new (app_Status app) of
       Some d \<Rightarrow> ((\<lparr>res_RequeueAfter = d\<rparr>, None), w2)
     | None \<Rightarrow> written C nn new w2)"
  using assms by (simp add: decide_def written_def split: option.split)

text \<open>
  C6: stabilization delays a recovery at most once, and the write comes after it.  Take a reconcile
  that finds a changed status which turns a not-ready Application ready, with a clock that is not
  behind the stored transition to not-ready, and let the recovery be due when the period, counted from
  that transition, is over.  Before that time the reconcile writes nothing and asks to be requeued for exactly the
  rest of the period, from that time on it writes the status; and so does every later
  reconcile from the due time on that computes any change, as long as the stored status has stayed
  the same.
\<close>

theorem stabilization_waits_once:
  assumes "\<not> k_DeepEqual C new (app_Status app)" and "isTransitioningToReady new (app_Status app)"
    and "k_Now C w = (t, w1)" and "k_Now C w1 = (now, w2)"
    and "0 < sint (r_StabilizationPeriod r)" and "notReadySince t (app_Status app) \<le> now"
    and "due = notReadySince t (app_Status app) + sint (r_StabilizationPeriod r)"
  shows "(now < due \<longrightarrow> (\<exists>d. decide C r nn app new errs w = ((\<lparr>res_RequeueAfter = d\<rparr>, None), w2) \<and>
      0 < sint d \<and> sint d \<le> sint (r_StabilizationPeriod r) \<and> now + sint d = due)) \<and>
    (due \<le> now \<longrightarrow> decide C r nn app new errs w = written C nn new w2) \<and>
    (\<forall>r' app' new' errs' v t' v1 now' v2.
       r_StabilizationPeriod r' = r_StabilizationPeriod r \<and> app_Status app' = app_Status app \<and>
       \<not> k_DeepEqual C new' (app_Status app') \<and> k_Now C v = (t', v1) \<and> k_Now C v1 = (now', v2) \<and> due \<le> now' \<longrightarrow>
       decide C r' nn app' new' errs' v = written C nn new' v2)"
proof -
  let ?P = "r_StabilizationPeriod r"
  note wait = stabilization_wait_eq [OF assms(2,5,6)]
  have P: "sint ?P \<le> int64_max" using sint_int64_bounds [of ?P] by simp
  have "\<exists>d. decide C r nn app new errs w = ((\<lparr>res_RequeueAfter = d\<rparr>, None), w2) \<and>
      0 < sint d \<and> sint d \<le> sint ?P \<and> now + sint d = due" if early: "now < due"
  proof -
    have "sint (word_of_int (due - now) :: int64) = due - now"
      using early assms(6,7) P by (intro sint_of_int64) simp_all
    then show ?thesis
      using early assms(6,7) wait by (simp add: decide_changed [OF assms(1,3,4)])
  qed
  moreover have "decide C r nn app new errs w = written C nn new w2" if "due \<le> now"
    using that assms(7) wait by (simp add: decide_changed [OF assms(1,3,4)])
  moreover have "decide C r' nn app' new' errs' v = written C nn new' v2"
    if "r_StabilizationPeriod r' = ?P" "app_Status app' = app_Status app" "\<not> k_DeepEqual C new' (app_Status app')"
      "k_Now C v = (t', v1)" "k_Now C v1 = (now', v2)" "due \<le> now'" for r' app' new' errs' v t' v1 now' v2
    using that stabilization_releases [OF assms(2), of t ?P now'] assms(7) by (simp add: decide_changed [OF that(3-5)])
  ultimately show ?thesis by blast
qed

theorem stabilization_waits_once_witness:
  "decide (example_cluster (example_app sample_status)) example_reconciler (example_name ''my-app'')
     (example_app sample_status) (setReadyCondition 20 sample_status ''r'' ''m'') [] 19 =
     ((\<lparr>res_RequeueAfter = 15\<rparr>, None), 21) \<and>
   decide (example_cluster (example_app sample_status)) example_reconciler (example_name ''my-app'')
     (example_app sample_status) (setReadyCondition 20 sample_status ''r'' ''m'') [] 34 =
     written (example_cluster (example_app sample_status)) (example_name ''my-app'')
       (setReadyCondition 20 sample_status ''r'' ''m'') 36"
proof -
  let ?new = "setReadyCondition 20 sample_status ''r'' ''m''"
  let ?C = "example_cluster (example_app sample_status)"
  have one: "one_per_type sample_status" by (simp add: one_per_type_def sample_status_def)
  then have "one_per_type ?new" by (simp add: setReadyCondition_def conds.invar_put)
  moreover have ready: "map_option cond_Status (current ?new Ready) = Some ConditionTrue"
    by (simp add: setReadyCondition_def current_setCondition sample_current update_condition_def)
  ultimately have tr: "isTransitioningToReady ?new sample_status"
    using one by (simp add: transitioning_iff sample_current)
  have since: "notReadySince 19 sample_status = 5"
    using one by (simp add: notReadySince_current sample_current)
  have status: "app_Status (example_app sample_status) = sample_status" by simp
  have changed: "\<not> k_DeepEqual ?C ?new (app_Status (example_app sample_status))"
    using ready by (auto simp: example_cluster_def sample_current)
  have clock: "k_Now ?C 19 = (19, 20)" "k_Now ?C 20 = (20, 21)" "k_Now ?C 34 = (34, 35)" "k_Now ?C 35 = (35, 36)"
    by (simp_all add: example_cluster_def)
  have period: "r_StabilizationPeriod example_reconciler = 30" by (simp add: example_reconciler_def)
  note once = stabilization_waits_once [OF changed _ clock(1,2), where r = example_reconciler and due = 35 and nn = "example_name ''my-app''" and errs = "[]", unfolded status,
      OF tr, unfolded since period, simplified]
  obtain d where d: "decide ?C example_reconciler (example_name ''my-app'') (example_app sample_status) ?new [] 19 =
      ((\<lparr>res_RequeueAfter = d\<rparr>, None), 21)" "20 + sint d = 35"
    using once by auto
  have "d = word_of_int (sint d)" by (simp only: int64_of_sint)
  also have "\<dots> = 15" using d(2) by simp
  finally have "d = 15" .
  moreover have "decide ?C example_reconciler (example_name ''my-app'') (example_app sample_status) ?new [] 34 =
      written ?C (example_name ''my-app'') ?new 36"
    using once [THEN conjunct2, rule_format, of example_reconciler "example_app sample_status" ?new 34 34 35 35 36 "[]"]
      changed clock(3,4) period by simp
  ultimately show ?thesis using d(1) by simp
qed

section \<open>Steady state\<close>

lemma computeStatus_again:
  assumes "app_Status app = fst (computeStatus C t1 t2 app0 rs errs)"
    and "om_Generation (app_Meta app0) = om_Generation (app_Meta app)"
  shows "fst (computeStatus C t3 t4 app rs errs) = app_Status app \<and>
    snd (computeStatus C t3 t4 app rs errs) = snd (computeStatus C t1 t2 app0 rs errs)"
proof -
  obtain oss es where o: "objectStatuses (k_lib C) rs errs = (oss, es)"
    by (cases "objectStatuses (k_lib C) rs errs") auto
  obtain a r m where v: "verdict_of (k_lib C) oss es = (a, r, m)" by (cases "verdict_of (k_lib C) oss es") auto
  obtain b q l where e: "error_of (k_lib C) es = (b, q, l)" by (cases "error_of (k_lib C) es") auto
  define st where "st = app_Status app"
  let ?s = "put_content t2 (put_content t1 (with_components (app_Status app0) oss) Ready (a, r, m)) Error (b, q, l)"
  have st: "st = ?s\<lparr>st_ObservedGeneration := om_Generation (app_Meta app)\<rparr>"
    using assms by (simp add: st_def computeStatus_def getNewApplicationStatus_eq o v e)
  have same: "with_components st oss = st" by (simp add: st with_components_def)
  have "content st t = content ?s t" for t by (simp add: st content_def current_def)
  then have "content st Ready = Some (a, r, m)" "content st Error = Some (b, q, l)"
    by (simp_all add: content_put_content)
  then have "put_content t4 (put_content t3 st Ready (a, r, m)) Error (b, q, l) = st"
    by (simp add: put_content_def conds.put_present)
  moreover have "st\<lparr>st_ObservedGeneration := om_Generation (app_Meta app)\<rparr> = st" by (simp add: st)
  ultimately show ?thesis
    by (simp add: computeStatus_def getNewApplicationStatus_eq o v e same flip: st_def)
qed

text \<open>
  C1: the loop settles.  Once the status that a reconcile computed is stored, a later reconcile of
  the Application that finds the same components (and the same generation) writes nothing and
  changes nothing, whatever the clock says; it is requeued after 30 seconds when errors were seen,
  and not at all otherwise.
\<close>

theorem reconcile_steady_state:
  assumes "deep_equal_law C"
    and "k_Get C w nn = (Inr app, w1)" and "om_DeletionTimestamp (app_Meta app) = None"
    and "ensureComponentWatches C r app w1 = (r', w2)"
    and "updateComponents C app w2 = (rs, errs, w3)"
    and "app_Status app = fst (computeStatus C t1 t2 app0 rs errs)"
    and "om_Generation (app_Meta app0) = om_Generation (app_Meta app)"
  shows "Reconcile C r nn w =
    ((\<lparr>res_RequeueAfter = (if snd (computeStatus C t1 t2 app0 rs errs) = [] then 0 else 30 * Second)\<rparr>, None),
     r', snd (k_Now C (snd (k_Now C w3))))"
proof -
  obtain t3 w4 where n1: "k_Now C w3 = (t3, w4)" by fastforce
  obtain t4 w5 where n2: "k_Now C w4 = (t4, w5)" by fastforce
  obtain new errs' where cs: "computeStatus C t3 t4 app rs errs = (new, errs')" by fastforce
  have "new = app_Status app" "errs' = snd (computeStatus C t1 t2 app0 rs errs)"
    using computeStatus_again [OF assms(6,7), of t3 t4] cs by simp_all
  then have "decide C r' nn app new errs' w5 =
      ((\<lparr>res_RequeueAfter = (if snd (computeStatus C t1 t2 app0 rs errs) = [] then 0 else 30 * Second)\<rparr>, None), w5)"
    using assms(1) by (simp add: decide_def deep_equal_law_def)
  then show ?thesis
    using Reconcile_unfold [OF assms(2-5) n1 n2 cs] n1 n2 by simp
qed

definition settled_app :: Application where
  "settled_app = example_app (fst (computeStatus (example_cluster (example_app sample_status)) 50 51
     (example_app sample_status) [] []))"

theorem reconcile_steady_state_witness:
  "fst (Reconcile (example_cluster settled_app) (example_reconciler\<lparr>r_wired := False\<rparr>) (example_name ''my-app'') 100)
     = (no_requeue, None)"
proof -
  let ?C = "example_cluster settled_app" and ?r = "example_reconciler\<lparr>r_wired := False\<rparr>"
  have cs: "computeStatus ?C t1 t2 a rs errs = computeStatus (example_cluster (example_app sample_status)) t1 t2 a rs errs"
    for t1 t2 a rs errs by (simp add: computeStatus_def example_cluster_def)
  have h1: "deep_equal_law ?C" by (simp add: deep_equal_law_def example_cluster_def)
  have h2: "k_Get ?C 100 (example_name ''my-app'') = (Inr settled_app, 100)" by (simp add: example_cluster_def)
  have h3: "om_DeletionTimestamp (app_Meta settled_app) = None"
    by (simp add: settled_app_def example_meta_def)
  have h4: "ensureComponentWatches ?C ?r settled_app 100 = (?r, 100)" by (simp add: ensureComponentWatches_def)
  have h5: "updateComponents ?C settled_app 100 = ([], [], 100)"
    by (simp add: updateComponents_def fetchComponentListResources_def settled_app_def
        example_spec_def example_cluster_def)
  have h6: "app_Status settled_app = fst (computeStatus ?C 50 51 (example_app sample_status) [] [])"
    by (simp only: cs) (simp add: settled_app_def)
  have h7: "om_Generation (app_Meta (example_app sample_status)) = om_Generation (app_Meta settled_app)"
    by (simp add: settled_app_def)
  have "snd (computeStatus ?C 50 51 (example_app sample_status) [] []) = []"
    by (simp add: computeStatus_def getNewApplicationStatus_eq objectStatuses_eq map_filter_simps)
  then show ?thesis using reconcile_steady_state [OF h1 h2 h3 h4 h5 h6 h7] by simp
qed

text \<open>A reconcile that is held back by the stabilization, for the requeue theorem.\<close>

theorem requeue_means_no_write_witness:
  "Reconcile ((example_cluster (example_app sample_status))\<lparr>k_StatusUpdate := \<lambda>w a. (Some (ErrOther ''down''), w + 5)\<rparr>)
     (example_reconciler\<lparr>r_wired := False\<rparr>) (example_name ''my-app'') 10
   = Reconcile (example_cluster (example_app sample_status)) (example_reconciler\<lparr>r_wired := False\<rparr>) (example_name ''my-app'') 10"
proof -
  let ?app = "example_app sample_status"
  let ?C = "example_cluster ?app" and ?r = "example_reconciler\<lparr>r_wired := False\<rparr>" and ?nn = "example_name ''my-app''"
  have h2: "k_Get ?C 10 ?nn = (Inr ?app, 10)" by (simp add: example_cluster_def)
  have h3: "om_DeletionTimestamp (app_Meta ?app) = None" by (simp add: example_meta_def)
  have h4: "ensureComponentWatches ?C ?r ?app 10 = (?r, 10)" by (simp add: ensureComponentWatches_def)
  have h5: "updateComponents ?C ?app 10 = ([], [], 10)"
    by (simp add: updateComponents_def fetchComponentListResources_def example_spec_def example_cluster_def)
  obtain new errs where cs: "computeStatus ?C 10 11 ?app [] [] = (new, errs)" by fastforce
  have now: "k_Now ?C 10 = (10, 11)" "k_Now ?C 11 = (11, 12)" "k_Now ?C 12 = (12, 13)" "k_Now ?C 13 = (13, 14)"
    by (simp_all add: example_cluster_def)
  have one: "one_per_type sample_status" by (simp add: one_per_type_def sample_status_def)
  have new: "new = (put_content 11 (put_content 10 (with_components sample_status []) Ready
      (ConditionTrue, ''ComponentsReady'', ''all components ready'')) Error (ConditionFalse, ''NoError'', ''No error seen''))
      \<lparr>st_ObservedGeneration := 3\<rparr>"
    using cs by (auto simp: computeStatus_def getNewApplicationStatus_eq objectStatuses_eq map_filter_simps
        verdict_of_def error_of_def example_cluster_def example_golib_def aggregateReady_eq example_meta_def)
  have "one_per_type (with_components sample_status [])" using one by (simp add: one_per_type_def with_components_def)
  then have one': "one_per_type new"
    by (simp add: new put_content_def one_per_type_def) (simp flip: one_per_type_def add: conds.invar_put)
  have "content new Ready = Some (ConditionTrue, ''ComponentsReady'', ''all components ready'')"
    using content_put_content by (simp add: new content_def current_def)
  then have "map_option cond_Status (current new Ready) = Some ConditionTrue" by (auto simp: content_def)
  then have tr: "isTransitioningToReady new sample_status"
    using one one' by (simp add: transitioning_iff sample_current)
  have since: "notReadySince 12 sample_status = 5" using one by (simp add: notReadySince_current sample_current)
  have wait: "stabilization_wait 30 12 13 new sample_status = Some 22"
    using stabilization_wait_eq [OF tr, of 30 12 13] since by simp
  have "st_ObservedGeneration new \<noteq> st_ObservedGeneration sample_status" by (simp add: new sample_status_def)
  then have "new \<noteq> sample_status" by auto
  then have "decide ?C ?r ?nn ?app new errs 12 = ((\<lparr>res_RequeueAfter = 22\<rparr>, None), 14)"
    using wait now by (simp add: decide_def)
      (simp add: example_cluster_def example_reconciler_def)
  then have "res_RequeueAfter (fst (fst (Reconcile ?C ?r ?nn 10))) \<noteq> 0"
    using Reconcile_unfold [OF h2 h3 h4 h5 now(1,2) cs] by simp
  then show ?thesis by (rule requeue_means_no_write)
qed

section \<open>The components that are listed\<close>

definition stripped :: "GroupKind \<Rightarrow> GroupKind" where
  "stripped gk = \<lparr>gk_Group = StripVersion (gk_Group gk), gk_Kind = gk_Kind gk\<rparr>"

text \<open>The kinds of a list that the mapper knows, in order.\<close>

definition mapped :: "('w, 'sel) cluster \<Rightarrow> 'w \<Rightarrow> GroupKind list \<Rightarrow> GroupVersionKind list" where
  "mapped C w gks = List.map_filter
     (\<lambda>gk. case k_RESTMapping C w (stripped gk) of Inl e \<Rightarrow> None | Inr gvk \<Rightarrow> Some gvk) gks"

definition items_of :: "go_error + Unstructured list \<Rightarrow> Unstructured list" where
  "items_of x = (case x of Inl e \<Rightarrow> [] | Inr us \<Rightarrow> us)"

definition errors_of :: "go_error + Unstructured list \<Rightarrow> go_error list" where
  "errors_of x = (case x of Inl e \<Rightarrow> [e] | Inr us \<Rightarrow> [])"

lemma fetch_loop_eq:
  assumes "\<forall>gvk. k_List C w gvk ns sel = (listing gvk, w)"
  shows "fetch_loop C sel ns gks rs errs w =
    (rs @ concat (map (items_of \<circ> listing) (mapped C w gks)),
     errs @ concat (map (errors_of \<circ> listing) (mapped C w gks)), w)"
  using assms
proof (induction gks arbitrary: rs errs)
  case (Cons gk gks)
  show ?case
  proof (cases "k_RESTMapping C w (stripped gk)")
    case (Inl e)
    then show ?thesis using Cons by (simp add: mapped_def map_filter_simps stripped_def)
  next
    case (Inr gvk)
    then show ?thesis using Cons
      by (cases "listing gvk") (simp_all add: mapped_def map_filter_simps stripped_def items_of_def errors_of_def)
  qed
qed (simp add: mapped_def map_filter_simps)

text \<open>
  C18: with listings that only read, the components of an Application are the listings of its mapped
  kinds, in the order of spec.componentKinds, and the errors are exactly the failed listings: a
  kind that the mapper does not know is skipped silently, and one failed kind does not stop the
  others.  Without a selector there are no components and no error, and a selector that does not
  convert gives its error alone.
\<close>

theorem components_of_application:
  assumes "\<forall>gvk sel. k_List C w gvk (om_Namespace (app_Meta app)) sel = (listing sel gvk, w)"
  shows "updateComponents C app w =
    (case spec_Selector (app_Spec app) of
       None \<Rightarrow> ([], [], w)
     | Some s \<Rightarrow>
         (case k_LabelSelectorAsSelector C s of
            Inl e \<Rightarrow> ([], [e], w)
          | Inr sel \<Rightarrow>
              (concat (map (items_of \<circ> listing sel) (mapped C w (spec_ComponentGroupKinds (app_Spec app)))),
               concat (map (errors_of \<circ> listing sel) (mapped C w (spec_ComponentGroupKinds (app_Spec app)))), w)))"
proof -
  have loop: "fetch_loop C sel (om_Namespace (app_Meta app)) gks [] [] w =
      (concat (map (items_of \<circ> listing sel) (mapped C w gks)),
       concat (map (errors_of \<circ> listing sel) (mapped C w gks)), w)" for sel gks
    using fetch_loop_eq [of C w "om_Namespace (app_Meta app)" sel "listing sel" gks "[]" "[]"] assms by simp
  show ?thesis
    by (simp add: updateComponents_def fetchComponentListResources_def loop split: option.split sum.split)
qed

theorem components_of_application_witness:
  "updateComponents ((example_cluster (example_app sample_status))
     \<lparr>k_List := \<lambda>w gvk ns sel. (if gvk_Group gvk = ''apps'' then Inr [example_object ''apps'' ''Deployment'']
        else Inl (ErrOther ''forbidden''), w)\<rparr>) (example_app sample_status) 7
   = ([example_object ''apps'' ''Deployment''], [], 7)"
proof -
  let ?listing = "\<lambda>(sel::unit) gvk. if gvk_Group gvk = ''apps'' then Inr [example_object ''apps'' ''Deployment'']
        else Inl (ErrOther ''forbidden'')"
  let ?C = "(example_cluster (example_app sample_status))\<lparr>k_List := \<lambda>w gvk ns sel. (?listing sel gvk, w)\<rparr>"
  have h: "\<forall>gvk sel. k_List ?C 7 gvk (om_Namespace (app_Meta (example_app sample_status))) sel = (?listing sel gvk, 7)"
    by simp
  have strip: "StripVersion ''apps/v1'' = ''apps''" by (simp add: StripVersion_eq)
  show ?thesis
    using components_of_application [OF h]
    by (simp add: example_spec_def example_cluster_def mapped_def map_filter_simps stripped_def strip items_of_def errors_of_def)
qed

section \<open>The Applications that a component wakes\<close>

definition selects :: "('w, 'sel) cluster \<Rightarrow> (string \<times> string) list \<Rightarrow> Application \<Rightarrow> bool" where
  "selects C ls app \<longleftrightarrow> (\<exists>s sel. spec_Selector (app_Spec app) = Some s \<and>
     k_LabelSelectorAsSelector C s = Inr sel \<and> k_Matches C sel ls)"

definition name_of :: "Application \<Rightarrow> NamespacedName" where
  "name_of app = \<lparr>nn_Namespace = om_Namespace (app_Meta app), nn_Name = om_Name (app_Meta app)\<rparr>"

text \<open>
  C19: a changed component wakes exactly the Applications of its namespace whose label selector is
  present, converts and matches the component's labels, each once per listed Application and in the
  order of the list; when the Applications cannot be listed it wakes none.
\<close>

theorem component_wakes_matching_applications:
  "applicationsForComponent C obj w =
     (case k_ListApps C w (u_Namespace obj) of
        (Inl e, w') \<Rightarrow> ([], w')
      | (Inr apps, w') \<Rightarrow> (map name_of (filter (selects C (u_Labels obj)) apps), w'))"
proof -
  have "applications_loop C ls apps reqs = reqs @ map name_of (filter (selects C ls) apps)" for ls apps reqs
    by (induction apps arbitrary: reqs) (auto simp: selects_def name_of_def split: option.split sum.split)
  then show ?thesis by (simp add: applicationsForComponent_def split: prod.split sum.split)
qed

section \<open>The status write\<close>

text \<open>The world after k attempts that all ended in a conflict.\<close>

fun conflicts :: "('w, 'sel) cluster \<Rightarrow> NamespacedName \<Rightarrow> ApplicationStatus \<Rightarrow> nat \<Rightarrow> 'w \<Rightarrow> 'w option" where
  "conflicts C nn st 0 w = Some w"
| "conflicts C nn st (Suc k) w =
     (case write_once C nn st w of
        (Some e, w') \<Rightarrow> if IsConflict e then conflicts C nn st k w' else None
      | (None, w') \<Rightarrow> None)"

definition is_conflict :: "go_error option \<Rightarrow> bool" where
  "is_conflict err \<longleftrightarrow> (\<exists>e. err = Some e \<and> IsConflict e)"

lemma attempts_decided:
  "\<exists>k v. k \<le> n \<and> conflicts C nn st k w = Some v \<and> (k = n \<or> \<not> is_conflict (fst (write_once C nn st v))) \<and>
    attempts n (write_once C nn st) w = write_once C nn st v"
proof (induction n arbitrary: w)
  case 0
  then show ?case by simp
next
  case (Suc n)
  obtain err w' where once: "write_once C nn st w = (err, w')" by fastforce
  show ?case
  proof (cases "is_conflict err")
    case True
    obtain k v where "k \<le> n" "conflicts C nn st k w' = Some v" "k = n \<or> \<not> is_conflict (fst (write_once C nn st v))"
      "attempts n (write_once C nn st) w' = write_once C nn st v"
      using Suc.IH by blast
    then show ?thesis using True once by (intro exI [of _ "Suc k"] exI [of _ v]) (auto simp: is_conflict_def)
  next
    case False
    then show ?thesis
      using once by (intro exI [of _ 0] exI [of _ w]) (auto simp: is_conflict_def split: option.split)
  qed
qed

text \<open>What the error of the last attempt is turned into.\<close>

definition reported :: "NamespacedName \<Rightarrow> go_error \<Rightarrow> go_error option" where
  "reported nn e =
     (if IsNotFound e then None
      else Some (ErrOther (''failed to update status of Application '' @ nn_Namespace nn @ ''/'' @ nn_Name nn @ '': '' @ err_msg e)))"

text \<open>
  C17: every outcome of the status write, with a client that retries n times.  There is one attempt that
  decides: the first that does not end in a conflict, or the last.  It reads the Application afresh, after
  all the attempts before it, and puts the new status into what it has read.  If that update
  succeeds, the write succeeds; if the read or the update reports that the Application is gone, the write counts as done; any
  other error, the last conflict included, is returned as an error that names the Application and carries its message.
\<close>

theorem status_write_outcomes:
  assumes "retry_law n C"
  shows "\<exists>k v. k \<le> n \<and> conflicts C nn st k w = Some v \<and>
    (k = n \<or> \<not> is_conflict (fst (write_once C nn st v))) \<and>
    updateApplicationStatus C nn st w =
      (case k_Get C v nn of
         (Inl e, v1) \<Rightarrow> (reported nn e, v1)
       | (Inr original, v1) \<Rightarrow>
           (case k_StatusUpdate C v1 (original\<lparr>app_Status := st\<rparr>) of
              (None, v2) \<Rightarrow> (None, v2)
            | (Some e, v2) \<Rightarrow> (reported nn e, v2)))"
proof -
  have run: "k_RetryOnConflict C (write_once C nn st) w = attempts n (write_once C nn st) w"
    using assms by (simp add: retry_law_def)
  obtain k v where "k \<le> n" "conflicts C nn st k w = Some v" "k = n \<or> \<not> is_conflict (fst (write_once C nn st v))"
    and last: "attempts n (write_once C nn st) w = write_once C nn st v"
    using attempts_decided [of n C nn st w] by blast
  moreover have "updateApplicationStatus C nn st w =
      (case k_Get C v nn of
         (Inl e, v1) \<Rightarrow> (reported nn e, v1)
       | (Inr original, v1) \<Rightarrow>
           (case k_StatusUpdate C v1 (original\<lparr>app_Status := st\<rparr>) of
              (None, v2) \<Rightarrow> (None, v2)
            | (Some e, v2) \<Rightarrow> (reported nn e, v2)))"
  proof -
    have "updateApplicationStatus C nn st w = (case write_once C nn st v of
        (None, w') \<Rightarrow> (None, w') | (Some e, w') \<Rightarrow> (reported nn e, w'))"
      unfolding updateApplicationStatus_def run last
      by (cases "write_once C nn st v"; cases "fst (write_once C nn st v)") (simp_all add: reported_def)
    moreover obtain res v1 where "k_Get C v nn = (res, v1)" by fastforce
    ultimately show ?thesis by (cases res) (simp_all add: write_once_def split: prod.split option.split)
  qed
  ultimately show ?thesis by blast
qed

theorem status_write_outcomes_witness:
  "updateApplicationStatus ((example_cluster (example_app sample_status))
     \<lparr>k_StatusUpdate := \<lambda>w a. (Some (if w < 5 then ErrConflict ''stale'' else ErrOther ''denied''), w + 5)\<rparr>)
     (example_name ''my-app'') sample_status 1 =
   (Some (ErrOther ''failed to update status of Application ns/my-app: denied''), 11)"
proof -
  let ?C = "(example_cluster (example_app sample_status))
     \<lparr>k_StatusUpdate := \<lambda>w a. (Some (if w < 5 then ErrConflict ''stale'' else ErrOther ''denied''), w + 5)\<rparr>"
  let ?nn = "example_name ''my-app''"
  have law: "retry_law 4 ?C" by (simp add: retry_law_def example_cluster_def)
  have get: "k_Get ?C v ?nn = (Inr (example_app sample_status), v)" for v by (simp add: example_cluster_def)
  then have once: "write_once ?C ?nn sample_status v = (Some (if v < 5 then ErrConflict ''stale'' else ErrOther ''denied''), v + 5)" for v
    by (simp add: write_once_def)
  obtain k v where k: "k \<le> 4" "conflicts ?C ?nn sample_status k 1 = Some v"
      "k = 4 \<or> \<not> is_conflict (fst (write_once ?C ?nn sample_status v))"
    and result: "updateApplicationStatus ?C ?nn sample_status 1 =
      (case k_Get ?C v ?nn of
         (Inl e, v1) \<Rightarrow> (reported ?nn e, v1)
       | (Inr original, v1) \<Rightarrow>
           (case k_StatusUpdate ?C v1 (original\<lparr>app_Status := sample_status\<rparr>) of
              (None, v2) \<Rightarrow> (None, v2)
            | (Some e, v2) \<Rightarrow> (reported ?nn e, v2)))"
    using status_write_outcomes [OF law, of ?nn sample_status 1] by blast
  have "v = 6"
  proof (cases k)
    case 0
    then show ?thesis using k by (simp add: once is_conflict_def)
  next
    case (Suc j)
    then show ?thesis using k(2) by (cases j) (simp_all add: once)
  qed
  then show ?thesis using result get [of 6] by (simp add: reported_def)
qed

end
