(* ===== verification/Watch_Registry.thy ===== *)
theory Watch_Registry
  imports Reconcile_Facts
begin

text \<open>
  The registry of dynamic watches under concurrency (controllers/application_controller.go,
  ensureComponentWatches and the field watchedKinds).  Several reconciles run at once and share the
  sync.Map: its LoadOrStore and Delete are atomic, the call of controller.Watch between them is
  not.  A worker is one run of the loop of ensureComponentWatches; the scheduler interleaves any
  number of workers, starts new ones at any time, and every step may see its own answer of the REST
  mapper and of the controller.  \<open>reg_started\<close> is a ghost: the watches that the controller accepted,
  in order.
\<close>

datatype worker = Scan "GroupKind list" | Register GroupVersionKind "GroupKind list"

record registry =
  reg_watched :: "GroupVersionKind set"
  reg_workers :: "worker list"
  reg_started :: "GroupVersionKind list"

text \<open>
  One atomic step of a worker: a pass of the loop up to and including LoadOrStore, or the return of
  controller.Watch with the rollback of a failure.  \<open>None\<close>: the loop has ended.
\<close>

fun ensure_step ::
  "(GroupKind \<Rightarrow> go_error + GroupVersionKind) \<Rightarrow> (GroupVersionKind \<Rightarrow> go_error option)
     \<Rightarrow> GroupVersionKind set \<Rightarrow> worker \<Rightarrow> (GroupVersionKind set \<times> worker \<times> GroupVersionKind list) option" where
  "ensure_step mapping watch watched (Scan []) = None"
| "ensure_step mapping watch watched (Scan (gk # gks)) =
     Some (if \<not> workloadKinds (gk_Kind gk) then (watched, Scan gks, [])
       else case mapping \<lparr>gk_Group = StripVersion (gk_Group gk), gk_Kind = gk_Kind gk\<rparr> of
         Inl e \<Rightarrow> (watched, Scan gks, [])
       | Inr gvk \<Rightarrow> if gvk \<in> watched then (watched, Scan gks, []) else (insert gvk watched, Register gvk gks, []))"
| "ensure_step mapping watch watched (Register gvk gks) =
     Some (case watch gvk of
         Some e \<Rightarrow> (watched - {gvk}, Scan gks, [])
       | None \<Rightarrow> (watched, Scan gks, [gvk]))"

inductive interleave :: "registry \<Rightarrow> registry \<Rightarrow> bool" where
  run: "i < length (reg_workers s) \<Longrightarrow>
    ensure_step mapping watch (reg_watched s) (reg_workers s ! i) = Some (watched', wk', started) \<Longrightarrow>
    interleave s \<lparr>reg_watched = watched', reg_workers = (reg_workers s)[i := wk'], reg_started = reg_started s @ started\<rparr>"
| start: "interleave s (s\<lparr>reg_workers := reg_workers s @ [Scan gks]\<rparr>)"

inductive_cases interleave_cases: "interleave s t"

inductive reachable :: "registry \<Rightarrow> bool" where
  initial: "reachable \<lparr>reg_watched = {}, reg_workers = [], reg_started = []\<rparr>"
| step: "reachable s \<Longrightarrow> interleave s t \<Longrightarrow> reachable t"

section \<open>The registry holds one owner per kind\<close>

text \<open>The kinds that a worker has claimed and not yet registered.\<close>

fun claims :: "worker \<Rightarrow> GroupVersionKind list" where
  "claims (Scan gks) = []"
| "claims (Register gvk gks) = [gvk]"

definition in_flight :: "worker list \<Rightarrow> GroupVersionKind list" where
  "in_flight ws = concat (map claims ws)"

definition consistent :: "registry \<Rightarrow> bool" where
  "consistent s \<longleftrightarrow> distinct (reg_started s @ in_flight (reg_workers s)) \<and>
     reg_watched s = set (reg_started s @ in_flight (reg_workers s))"

lemma in_flight_split:
  assumes "i < length ws"
  obtains xs ys where "in_flight ws = xs @ claims (ws ! i) @ ys"
    and "\<And>wk. in_flight (ws[i := wk]) = xs @ claims wk @ ys"
proof (rule that)
  show "in_flight ws = in_flight (take i ws) @ claims (ws ! i) @ in_flight (drop (Suc i) ws)"
    using arg_cong [OF id_take_nth_drop [OF assms], of in_flight] by (simp add: in_flight_def)
  show "in_flight (ws[i := wk]) = in_flight (take i ws) @ claims wk @ in_flight (drop (Suc i) ws)" for wk
    by (simp add: in_flight_def upd_conv_take_nth_drop [OF assms])
qed

lemma ensure_step_consistent:
  assumes "ensure_step mapping watch watched wk = Some (watched', wk', started)"
    and "distinct (acc @ xs @ claims wk @ ys)" and "watched = set (acc @ xs @ claims wk @ ys)"
  shows "distinct ((acc @ started) @ xs @ claims wk' @ ys) \<and> watched' = set ((acc @ started) @ xs @ claims wk' @ ys)"
  using assms
  by (cases "(mapping, watch, watched, wk)" rule: ensure_step.cases)
     (auto split: sum.splits option.splits if_splits)

lemma interleave_consistent: "interleave s t \<Longrightarrow> consistent s \<Longrightarrow> consistent t"
proof (induction rule: interleave.induct)
  case (run i s mapping watch watched' wk' started)
  then show ?case
    by (elim in_flight_split [of i "reg_workers s"])
       (auto simp only: consistent_def registry.simps dest!: ensure_step_consistent [where acc = "reg_started s"])
qed (simp add: consistent_def in_flight_def)

lemma reachable_consistent: "reachable s \<Longrightarrow> consistent s"
  by (induction rule: reachable.induct) (simp add: consistent_def in_flight_def, blast intro: interleave_consistent)

text \<open>
  C8: under every interleaving of concurrent reconciles, whatever the mapper and the controller
  answer at each step, the controller accepts at most one watch per GroupVersionKind, a kind in the
  registry is either already watched or owned by exactly one worker that is registering it, and
  a kind that nobody watches or registers is out of the registry, so that a later reconcile can
  claim it (a failed registration is retried).
\<close>

theorem watch_registered_once:
  assumes "reachable s"
  shows "distinct (reg_started s) \<and> distinct (in_flight (reg_workers s)) \<and>
    set (reg_started s) \<inter> set (in_flight (reg_workers s)) = {} \<and>
    reg_watched s = set (reg_started s) \<union> set (in_flight (reg_workers s))"
  using reachable_consistent [OF assms] by (auto simp: consistent_def)

text \<open>Two workers race for Deployments; the second finds the entry of the first and goes on.\<close>

abbreviation deployments :: GroupKind where
  "deployments \<equiv> \<lparr>gk_Group = ''apps/v1'', gk_Kind = ''Deployment''\<rparr>"

abbreviation deployments_v1 :: GroupVersionKind where
  "deployments_v1 \<equiv> \<lparr>gvk_Group = ''apps'', gvk_Version = ''v1'', gvk_Kind = ''Deployment''\<rparr>"

definition race :: registry where
  "race = \<lparr>reg_watched = {deployments_v1}, reg_workers = [Register deployments_v1 [], Scan []], reg_started = []\<rparr>"

lemma race_reachable: "reachable race"
proof -
  let ?m = "\<lambda>gk. Inr \<lparr>gvk_Group = gk_Group gk, gvk_Version = ''v1'', gvk_Kind = gk_Kind gk\<rparr>"
  let ?s0 = "\<lparr>reg_watched = {}, reg_workers = [], reg_started = []\<rparr> :: registry"
  let ?s1 = "?s0\<lparr>reg_workers := [Scan [deployments]]\<rparr>"
  let ?s2 = "?s0\<lparr>reg_workers := [Scan [deployments], Scan [deployments]]\<rparr>"
  let ?s3 = "?s2\<lparr>reg_watched := {deployments_v1}, reg_workers := [Register deployments_v1 [], Scan [deployments]]\<rparr>"
  have strip: "StripVersion ''apps/v1'' = ''apps''" by (simp add: StripVersion_eq)
  have "reachable ?s1" using reachable.step [OF initial start [of ?s0 "[deployments]"]] by simp
  then have "reachable ?s2" using reachable.step [OF _ start [of ?s1 "[deployments]"]] by simp
  moreover have "interleave ?s2 ?s3"
    using run [of 0 ?s2 ?m "\<lambda>_. None"] by (simp add: workloadKinds_def strip)
  ultimately have "reachable ?s3" by (rule reachable.step)
  moreover have "interleave ?s3 race"
    using run [of 1 ?s3 ?m "\<lambda>_. None"] by (simp add: workloadKinds_def strip race_def)
  ultimately show ?thesis by (rule reachable.step)
qed

theorem watch_registered_once_witness:
  "reachable race \<and> in_flight (reg_workers race) = [deployments_v1] \<and> set (reg_started race) \<inter> {deployments_v1} = {}"
  using watch_registered_once [OF race_reachable] race_reachable by (simp add: race_def in_flight_def)

section \<open>One reconcile is an interleaving of one worker\<close>

inductive interleaves :: "registry \<Rightarrow> registry \<Rightarrow> bool" where
  refl: "interleaves s s"
| trans: "interleave s t \<Longrightarrow> interleaves t u \<Longrightarrow> interleaves s u"

lemma reachable_interleaves: "interleaves s t \<Longrightarrow> reachable s \<Longrightarrow> reachable t"
  by (induction rule: interleaves.induct) (blast intro: reachable.step)+

text \<open>
  A worker run with the answers of a cluster: the mapper and the controller are asked in the world
  of the moment, and only a call of controller.Watch changes the world.  A configuration is the
  registry's keys, the worker, the accepted watches and the world.
\<close>

definition world_after :: "('w, 'sel) cluster \<Rightarrow> worker \<Rightarrow> 'w \<Rightarrow> 'w" where
  "world_after C wk w = (case wk of Scan gks \<Rightarrow> w | Register gvk gks \<Rightarrow> snd (k_Watch C w gvk))"

inductive worker_runs ::
  "('w, 'sel) cluster \<Rightarrow> GroupVersionKind set \<times> worker \<times> GroupVersionKind list \<times> 'w
     \<Rightarrow> GroupVersionKind set \<times> worker \<times> GroupVersionKind list \<times> 'w \<Rightarrow> bool" for C where
  stop: "worker_runs C x x"
| go: "ensure_step (k_RESTMapping C w) (\<lambda>gvk. fst (k_Watch C w gvk)) watched wk = Some (watched', wk', new) \<Longrightarrow>
    worker_runs C (watched', wk', started @ new, world_after C wk w) y \<Longrightarrow>
    worker_runs C (watched, wk, started, w) y"

lemma worker_runs_interleaves:
  "worker_runs C x y \<Longrightarrow> x = (reg_watched s, reg_workers s ! i, reg_started s, w) \<Longrightarrow> y = (watched', wk', started', w') \<Longrightarrow>
   i < length (reg_workers s) \<Longrightarrow>
   interleaves s (s\<lparr>reg_watched := watched', reg_workers := (reg_workers s)[i := wk'], reg_started := started'\<rparr>)"
proof (induction arbitrary: s w rule: worker_runs.induct)
  case (stop x)
  then have "s\<lparr>reg_watched := watched', reg_workers := (reg_workers s)[i := wk'], reg_started := started'\<rparr> = s" by auto
  then show ?case by (simp add: interleaves.refl)
next
  case (go v watched wk watched1 wk1 new started y)
  let ?s1 = "\<lparr>reg_watched = watched1, reg_workers = (reg_workers s)[i := wk1], reg_started = reg_started s @ new\<rparr>"
  have "interleave s ?s1" using go.hyps(1) go.prems by (intro run) auto
  moreover have "interleaves ?s1 (?s1\<lparr>reg_watched := watched', reg_workers := (reg_workers ?s1)[i := wk'], reg_started := started'\<rparr>)"
    using go.prems by (intro go.IH) auto
  moreover have "?s1\<lparr>reg_watched := watched', reg_workers := (reg_workers ?s1)[i := wk'], reg_started := started'\<rparr> =
      s\<lparr>reg_watched := watched', reg_workers := (reg_workers s)[i := wk'], reg_started := started'\<rparr>"
    by (cases s) simp
  ultimately show ?case by (simp only: interleaves.trans)
qed

text \<open>What the loop of ensureComponentWatches is to do for one kind of an Application.\<close>

definition watchable :: "('w, 'sel) cluster \<Rightarrow> GroupKind list \<Rightarrow> GroupVersionKind \<Rightarrow> bool" where
  "watchable C gks gvk \<longleftrightarrow> (\<exists>gk \<in> set gks. workloadKinds (gk_Kind gk) \<and>
     (\<forall>w. k_RESTMapping C w \<lparr>gk_Group = StripVersion (gk_Group gk), gk_Kind = gk_Kind gk\<rparr> = Inr gvk))"

lemma watch_loop_runs:
  "watch_loop C gks watched w = (watched', w') \<Longrightarrow>
   \<exists>new. worker_runs C (watched, Scan gks, started, w) (watched', Scan [], started @ new, w') \<and>
     watched' = watched \<union> set new \<and> (\<forall>gvk \<in> set new. \<exists>v. fst (k_Watch C v gvk) = None) \<and>
     (\<forall>gvk. watchable C gks gvk \<and> (\<forall>v. fst (k_Watch C v gvk) = None) \<longrightarrow> gvk \<in> watched')"
proof (induction C gks watched w arbitrary: started rule: watch_loop.induct)
  case (1 C watched w)
  then show ?case by (intro exI [of _ "[]"]) (auto simp: watchable_def intro: stop)
next
  case (2 C gk gks watched w)
  let ?key = "\<lparr>gk_Group = StripVersion (gk_Group gk), gk_Kind = gk_Kind gk\<rparr>"
  let ?step = "ensure_step (k_RESTMapping C w) (\<lambda>gvk. fst (k_Watch C w gvk))"
  consider (skip) "?step watched (Scan (gk # gks)) = Some (watched, Scan gks, [])"
      "watch_loop C (gk # gks) watched w = watch_loop C gks watched w"
      "\<not> workloadKinds (gk_Kind gk) \<or> (\<exists>e. k_RESTMapping C w ?key = Inl e) \<or>
        (\<exists>gvk. k_RESTMapping C w ?key = Inr gvk \<and> gvk \<in> watched)"
    | (claim) gvk where "workloadKinds (gk_Kind gk)" "k_RESTMapping C w ?key = Inr gvk" "gvk \<notin> watched"
    by (cases "workloadKinds (gk_Kind gk)"; cases "k_RESTMapping C w ?key"; cases "projr (k_RESTMapping C w ?key) \<in> watched") simp_all
  then show ?case
  proof cases
    case skip
    have loop: "watch_loop C gks watched w = (watched', w')" using skip(2) 2(6) by simp
    obtain new where new: "worker_runs C (watched, Scan gks, started, w) (watched', Scan [], started @ new, w')"
      "watched' = watched \<union> set new" "\<forall>gvk \<in> set new. \<exists>v. fst (k_Watch C v gvk) = None"
      "\<forall>gvk. watchable C gks gvk \<and> (\<forall>v. fst (k_Watch C v gvk) = None) \<longrightarrow> gvk \<in> watched'"
      using skip(3) loop 2(1-3) [where started = started] by (cases "workloadKinds (gk_Kind gk)") auto
    have "worker_runs C (watched, Scan (gk # gks), started, w) (watched', Scan [], started @ new, w')"
      using new(1) by (intro go [OF skip(1)]) (simp add: world_after_def)
    moreover have "watchable C gks gvk \<or> gvk \<in> watched" if "watchable C (gk # gks) gvk" for gvk
      using that skip(3) by (auto simp: watchable_def)
    ultimately show ?thesis using new(2-4) by blast
  next
    case claim
    obtain err w1 where watch: "k_Watch C w gvk = (err, w1)" by fastforce
    define watched1 where "watched1 = (if err = None then insert gvk watched else insert gvk watched - {gvk})"
    define new1 where "new1 = (if err = None then [gvk] else [])"
    have second: "?step (insert gvk watched) (Register gvk gks) = Some (watched1, Scan gks, new1)"
      by (simp add: watch watched1_def new1_def split: option.split)
    have loop: "watch_loop C gks watched1 w1 = (watched', w')"
      using claim watch 2(6) by (simp add: watched1_def split: option.splits)
    have one: "watched1 = watched \<union> set new1" "\<forall>g \<in> set new1. g = gvk \<and> err = None" "err = None \<Longrightarrow> gvk \<in> watched1"
      using claim(3) by (auto simp: watched1_def new1_def)
    have IH: "\<exists>new. worker_runs C (watched1, Scan gks, started @ new1, w1) (watched', Scan [], (started @ new1) @ new, w') \<and>
        watched' = watched1 \<union> set new \<and> (\<forall>gvk \<in> set new. \<exists>v. fst (k_Watch C v gvk) = None) \<and>
        (\<forall>gvk. watchable C gks gvk \<and> (\<forall>v. fst (k_Watch C v gvk) = None) \<longrightarrow> gvk \<in> watched')"
    proof (cases err)
      case None
      then have "watched1 = insert gvk watched" by (simp add: watched1_def)
      then show ?thesis
        using 2(4) [OF _ claim(2,3) watch [symmetric] None, where started = "started @ new1"] loop claim(1) by simp
    next
      case (Some e)
      then have "watched1 = insert gvk watched - {gvk}" by (simp add: watched1_def)
      then show ?thesis
        using 2(5) [OF _ claim(2,3) watch [symmetric] Some, where started = "started @ new1"] loop claim(1) by simp
    qed
    then obtain new where new: "worker_runs C (watched1, Scan gks, started @ new1, w1) (watched', Scan [], (started @ new1) @ new, w')"
      "watched' = watched1 \<union> set new" "\<forall>gvk \<in> set new. \<exists>v. fst (k_Watch C v gvk) = None"
      "\<forall>gvk. watchable C gks gvk \<and> (\<forall>v. fst (k_Watch C v gvk) = None) \<longrightarrow> gvk \<in> watched'"
      by blast
    have "worker_runs C (insert gvk watched, Register gvk gks, started, w) (watched', Scan [], (started @ new1) @ new, w')"
      using new(1) by (intro go [OF second]) (simp add: world_after_def watch)
    then have "worker_runs C (watched, Scan (gk # gks), started, w) (watched', Scan [], started @ (new1 @ new), w')"
      using claim by (intro go [of C w watched "Scan (gk # gks)" "insert gvk watched" "Register gvk gks" "[]"]) (simp_all add: world_after_def)
    moreover have "g \<in> watched'" if "watchable C (gk # gks) g" "\<forall>v. fst (k_Watch C v g) = None" for g
    proof (cases "g = gvk")
      case True
      then have "err = None" using that(2) watch by (metis fst_conv)
      then show ?thesis using True one(3) new(2) by simp
    next
      case False
      then have "watchable C gks g" using that(1) claim(2) by (auto simp: watchable_def)
      then show ?thesis using that(2) new(4) by simp
    qed
    moreover have "\<forall>g \<in> set new1. \<exists>v. fst (k_Watch C v g) = None" using one(2) watch by (metis fst_conv)
    ultimately show ?thesis using new(2,3) one(1) by (intro exI [of _ "new1 @ new"]) auto
  qed
qed

text \<open>
  C9: the ensureComponentWatches of one reconcile is a run of one worker of the concurrent model,
  with the answers of the cluster in the order in which the reconcile gets them, from the worker's
  start to the end of its loop, while any other workers rest.  It adds to watchedKinds exactly the
  kinds whose watch the controller accepted, in one call each: every workload kind of the
  Application that the mapper resolves and the controller accepts is watched afterwards, and in a
  reachable registry none is registered a second time.
\<close>

theorem ensureComponentWatches_refines:
  assumes "r_wired r" and "ensureComponentWatches C r app w = (r', w')"
    and "i < length (reg_workers s)" and "reg_workers s ! i = Scan (spec_ComponentGroupKinds (app_Spec app))"
    and "reg_watched s = r_watchedKinds r"
  shows "\<exists>new.
    worker_runs C (r_watchedKinds r, Scan (spec_ComponentGroupKinds (app_Spec app)), reg_started s, w)
      (r_watchedKinds r', Scan [], reg_started s @ new, w') \<and>
    interleaves s (s\<lparr>reg_watched := r_watchedKinds r', reg_workers := (reg_workers s)[i := Scan []],
      reg_started := reg_started s @ new\<rparr>) \<and>
    r_watchedKinds r' = r_watchedKinds r \<union> set new \<and> (\<forall>gvk \<in> set new. \<exists>v. fst (k_Watch C v gvk) = None) \<and>
    (\<forall>gvk. watchable C (spec_ComponentGroupKinds (app_Spec app)) gvk \<and> (\<forall>v. fst (k_Watch C v gvk) = None) \<longrightarrow>
       gvk \<in> r_watchedKinds r') \<and>
    (reachable s \<longrightarrow> distinct (reg_started s @ new))"
proof -
  obtain watched' where loop: "watch_loop C (spec_ComponentGroupKinds (app_Spec app)) (r_watchedKinds r) w = (watched', w')"
    and r': "r_watchedKinds r' = watched'"
    using assms(1,2) by (auto simp: ensureComponentWatches_def split: prod.splits)
  from watch_loop_runs [OF loop, of "reg_started s"] obtain new where
    new: "worker_runs C (r_watchedKinds r, Scan (spec_ComponentGroupKinds (app_Spec app)), reg_started s, w)
        (watched', Scan [], reg_started s @ new, w')"
      "watched' = r_watchedKinds r \<union> set new" "\<forall>gvk \<in> set new. \<exists>v. fst (k_Watch C v gvk) = None"
      "\<forall>gvk. watchable C (spec_ComponentGroupKinds (app_Spec app)) gvk \<and> (\<forall>v. fst (k_Watch C v gvk) = None) \<longrightarrow>
        gvk \<in> watched'" by blast
  let ?t = "s\<lparr>reg_watched := watched', reg_workers := (reg_workers s)[i := Scan []], reg_started := reg_started s @ new\<rparr>"
  have runs: "interleaves s ?t"
    by (rule worker_runs_interleaves [OF new(1)]) (simp_all add: assms(3-5))
  have "distinct (reg_started s @ new)" if "reachable s"
    using reachable_consistent [OF reachable_interleaves [OF runs that]] by (auto simp: consistent_def)
  then show ?thesis unfolding r' using new runs by (intro exI [of _ new]) simp
qed

theorem ensureComponentWatches_refines_witness:
  "deployments_v1 \<in> r_watchedKinds (fst (ensureComponentWatches
      ((example_cluster (example_app sample_status))\<lparr>k_RESTMapping := \<lambda>w gk. Inr deployments_v1\<rparr>) example_reconciler
      ((example_app sample_status)\<lparr>app_Spec := (app_Spec (example_app sample_status))\<lparr>spec_ComponentGroupKinds := [deployments]\<rparr>\<rparr>) 7))"
proof -
  let ?C = "(example_cluster (example_app sample_status))\<lparr>k_RESTMapping := \<lambda>w gk. Inr deployments_v1\<rparr>"
  let ?app = "(example_app sample_status)\<lparr>app_Spec := (app_Spec (example_app sample_status))\<lparr>spec_ComponentGroupKinds := [deployments]\<rparr>\<rparr>"
  let ?s = "\<lparr>reg_watched = {}, reg_workers = [Scan [deployments]], reg_started = []\<rparr>"
  obtain r' w' where e: "ensureComponentWatches ?C example_reconciler ?app 7 = (r', w')" by fastforce
  have "watchable ?C [deployments] deployments_v1" by (simp add: watchable_def workloadKinds_def)
  moreover have "fst (k_Watch ?C v gvk) = None" for v gvk by (simp add: example_cluster_def)
  ultimately have "deployments_v1 \<in> r_watchedKinds r'"
    using ensureComponentWatches_refines [OF _ e, where i = 0 and s = ?s] by (auto simp: example_reconciler_def)
  then show ?thesis using e by simp
qed

end
