(* ===== verification/Go_Memory.thy ===== *)
theory Go_Memory
  imports App_Prelude "HOL-Library.Monad_Syntax"
begin

text \<open>
  Memory as Go programs see it: pointers, slices and the arrays behind them, for the generated
  deep copies (api/v1beta1/zz_generated.deepcopy.go).  A memory maps addresses to cells; a cell
  holds an array of values of one type, and a variable created by \<open>new\<close> is an array of one element.
  The cell type is a parameter; a \<open>kind\<close> says how arrays of one Go type are stored in it.

  The contract of a deep copy is the locale \<open>deep_copier\<close>: a \<open>view\<close> reads the value that a struct
  denotes together with the addresses it reaches, and the copy denotes the same value over fresh
  addresses only.  The other locales derive the contract for pointers and slices from the one of
  their elements, so that each struct is a sequence of such steps.
\<close>

section \<open>Zero values\<close>

text \<open>
  \<open>new\<close> and \<open>make\<close> fill memory with the zero value of the type, which is the class \<open>zero\<close> here:
  the empty string, nil, false.
\<close>

instantiation bool :: zero
begin
definition zero_bool :: bool where "zero_bool = False"
instance ..
end

instantiation unit :: zero
begin
definition zero_unit :: unit where "zero_unit = ()"
instance ..
end

instantiation list :: (type) zero
begin
definition zero_list :: "'a list" where "zero_list = []"
instance ..
end

instantiation option :: (type) zero
begin
definition zero_option :: "'a option" where "zero_option = None"
instance ..
end

lemmas zero_defs = zero_bool_def zero_unit_def zero_list_def zero_option_def

section \<open>Cells, pointers and slices\<close>

type_synonym addr = nat

record 'c memory =
  mem_next :: addr
  mem_cells :: "addr \<Rightarrow> 'c option"

record ('c, 'm) kind =
  pack :: "'m list \<Rightarrow> 'c"
  unpack :: "'c \<Rightarrow> 'm list option"

text \<open>A non-nil pointer is an element of an array; a slice is nil or a window of an array.\<close>

type_synonym pointer = "(addr \<times> nat) option"

datatype slice = NilSlice | Slice (slice_addr: addr) (slice_off: nat) (slice_len: nat) (slice_cap: nat)

instantiation slice :: zero
begin
definition zero_slice :: slice where "zero_slice = NilSlice"
instance ..
end

definition load :: "('c, 'm) kind \<Rightarrow> addr \<Rightarrow> 'c memory \<Rightarrow> 'm list option" where
  "load k a M = do { c \<leftarrow> mem_cells M a; unpack k c }"

definition store :: "('c, 'm) kind \<Rightarrow> addr \<Rightarrow> 'm list \<Rightarrow> 'c memory \<Rightarrow> 'c memory" where
  "store k a xs M = M\<lparr>mem_cells := (mem_cells M)(a \<mapsto> pack k xs)\<rparr>"

definition alloc :: "('c, 'm) kind \<Rightarrow> 'm list \<Rightarrow> 'c memory \<Rightarrow> addr \<times> 'c memory" where
  "alloc k xs M = (mem_next M, (store k (mem_next M) xs M)\<lparr>mem_next := Suc (mem_next M)\<rparr>)"

text \<open>Reading and writing one element; outside the array the program would not be running.\<close>

definition deref :: "('c, 'm) kind \<Rightarrow> addr \<Rightarrow> nat \<Rightarrow> 'c memory \<Rightarrow> 'm option" where
  "deref k a i M = do { xs \<leftarrow> load k a M; if i < length xs then Some (xs ! i) else None }"

definition assign :: "('c, 'm) kind \<Rightarrow> addr \<Rightarrow> nat \<Rightarrow> 'm \<Rightarrow> 'c memory \<Rightarrow> 'c memory option" where
  "assign k a i x M =
     do { xs \<leftarrow> load k a M; if i < length xs then Some (store k a (xs[i := x]) M) else None }"

definition mem_ok :: "'c memory \<Rightarrow> bool" where
  "mem_ok M \<longleftrightarrow> (\<forall>a \<ge> mem_next M. mem_cells M a = None)"

definition extends :: "'c memory \<Rightarrow> 'c memory \<Rightarrow> bool" where
  "extends M M' \<longleftrightarrow> mem_next M \<le> mem_next M' \<and> (\<forall>a < mem_next M. mem_cells M' a = mem_cells M a)"

lemma extends_refl [simp]: "extends M M"
  by (simp add: extends_def)

lemma extends_trans: "extends M M' \<Longrightarrow> extends M' M'' \<Longrightarrow> extends M M''"
  by (auto simp: extends_def)

lemma store_simps [simp]:
  "mem_next (store k a xs M) = mem_next M"
  "mem_cells (store k a xs M) b = (if b = a then Some (pack k xs) else mem_cells M b)"
  by (simp_all add: store_def)

lemma alloc_simps [simp]:
  "fst (alloc k xs M) = mem_next M"
  "mem_next (snd (alloc k xs M)) = Suc (mem_next M)"
  "mem_cells (snd (alloc k xs M)) b = (if b = mem_next M then Some (pack k xs) else mem_cells M b)"
  by (simp_all add: alloc_def)

lemma mem_ok_alloc [simp]: "mem_ok M \<Longrightarrow> mem_ok (snd (alloc k xs M))"
  by (auto simp: mem_ok_def)

lemma extends_alloc [simp]: "extends M (snd (alloc k xs M))"
  by (auto simp: extends_def)

lemma mem_ok_store: "mem_ok M \<Longrightarrow> a < mem_next M \<Longrightarrow> mem_ok (store k a xs M)"
  by (auto simp: mem_ok_def)

lemma extends_store: "extends M M' \<Longrightarrow> mem_next M \<le> a \<Longrightarrow> extends M (store k a xs M')"
  by (auto simp: extends_def)

lemma load_cong: "mem_cells M' a = mem_cells M a \<Longrightarrow> load k a M' = load k a M"
  by (simp add: load_def)

lemma load_dom: "load k a M = Some xs \<Longrightarrow> a \<in> dom (mem_cells M)"
  by (auto simp: load_def bind_eq_Some_conv)

lemma mem_ok_dom: "mem_ok M \<Longrightarrow> a \<in> dom (mem_cells M) \<Longrightarrow> a < mem_next M"
  by (rule ccontr) (auto simp: mem_ok_def)

section \<open>The contract of a deep copy\<close>

type_synonym ('c, 'm) copier = "'m \<Rightarrow> 'c memory \<Rightarrow> ('m \<times> 'c memory) option"
type_synonym ('c, 'm, 'v) viewer = "'m \<Rightarrow> 'c memory \<Rightarrow> ('v \<times> addr set) option"

locale deep_copier =
  fixes into :: "('c, 'm) copier"
    and view :: "('c, 'm, 'v) viewer"
  assumes view_frame: "view x M = Some (v, R) \<Longrightarrow> (\<And>a. a \<in> R \<Longrightarrow> mem_cells M' a = mem_cells M a) \<Longrightarrow>
      view x M' = Some (v, R)"
    and view_dom: "view x M = Some (v, R) \<Longrightarrow> R \<subseteq> dom (mem_cells M)"
    and copies: "mem_ok M \<Longrightarrow> view x M = Some (v, R) \<Longrightarrow>
      \<exists>y M' R'. into x M = Some (y, M') \<and> mem_ok M' \<and> extends M M' \<and>
        view y M' = Some (v, R') \<and> R' \<subseteq> {mem_next M..<mem_next M'}"
begin

lemma view_below: "mem_ok M \<Longrightarrow> view x M = Some (v, R) \<Longrightarrow> a \<in> R \<Longrightarrow> a < mem_next M"
  using view_dom mem_ok_dom by blast

text \<open>What a struct denotes survives every allocation.\<close>

lemma view_extends: "mem_ok M \<Longrightarrow> view x M = Some (v, R) \<Longrightarrow> extends M M' \<Longrightarrow> view x M' = Some (v, R)"
  using view_frame [of x M v R M'] view_below [of M x v R] by (auto simp: extends_def)

text \<open>
  Original and copy are independent: a write that stays outside what one of them reaches does not
  change it, and neither reaches a cell of the other.
\<close>

lemma copy_independent:
  assumes "mem_ok M" "view x M = Some (v, R)" "into x M = Some (y, M')" "view y M' = Some (w, R')"
  shows "w = v" "R \<inter> R' = {}" "view x M' = Some (v, R)"
    "(\<And>a. a \<notin> R' \<Longrightarrow> mem_cells M'' a = mem_cells M' a) \<Longrightarrow> view x M'' = Some (v, R)"
    "(\<And>a. a \<notin> R \<Longrightarrow> mem_cells M'' a = mem_cells M' a) \<Longrightarrow> view y M'' = Some (v, R')"
proof -
  obtain S where S: "mem_ok M'" "extends M M'" "view y M' = Some (v, S)"
      "S \<subseteq> {mem_next M..<mem_next M'}"
    using copies [OF assms(1,2)] assms(3) by auto
  then have eq: "w = v" "R' = S" using assms(4) by auto
  then show "w = v" by simp
  show disj: "R \<inter> R' = {}" using S(4) view_below [OF assms(1,2)] eq by fastforce
  show x: "view x M' = Some (v, R)" using view_extends [OF assms(1,2)] S by blast
  show "view x M'' = Some (v, R)" if "\<And>a. a \<notin> R' \<Longrightarrow> mem_cells M'' a = mem_cells M' a"
    using view_frame [OF x, of M''] that disj by blast
  show "view y M'' = Some (v, R')" if "\<And>a. a \<notin> R \<Longrightarrow> mem_cells M'' a = mem_cells M' a"
    using view_frame [OF S(3), of M''] that disj eq by blast
qed

end

section \<open>Structs without pointers\<close>

text \<open>The body \<open>*out = *in\<close>.\<close>

definition flat_copy :: "('c, 'm) copier" where
  "flat_copy x M = Some (x, M)"

definition flat_view :: "('c, 'm, 'm) viewer" where
  "flat_view x M = Some (x, {})"

lemma deep_copier_flat: "deep_copier flat_copy flat_view"
  by unfold_locales (auto simp: flat_copy_def flat_view_def)

section \<open>Pointers and slices\<close>

text \<open>
  The three shapes of the generated bodies: a new variable that the copy of the pointed-to struct
  fills (also the shape of every DeepCopy method), a new array that a loop fills element by
  element, and a new array that the built-in \<open>copy\<close> fills.
\<close>

definition copy_from :: "('c, 'm :: zero) kind \<Rightarrow> ('c, 'm) copier \<Rightarrow> ('c memory \<Rightarrow> 'm option) \<Rightarrow> 'c memory \<Rightarrow>
    (pointer \<times> 'c memory) option" where
  "copy_from k into read M =
     (let (q, M1) = alloc k [0] M
      in do { x \<leftarrow> read M1; (y, M2) \<leftarrow> into x M1; M3 \<leftarrow> assign k q 0 y M2; Some (Some (q, 0), M3) })"

definition copy_new :: "('c, 'm :: zero) kind \<Rightarrow> ('c, 'm) copier \<Rightarrow> ('c, pointer) copier" where
  "copy_new k into p M =
     (case p of
        None \<Rightarrow> Some (None, M)
      | Some (a, i) \<Rightarrow> copy_from k into (deref k a i) M)"

fun copy_range :: "('c, 'm) kind \<Rightarrow> ('c, 'm) copier \<Rightarrow> addr \<Rightarrow> nat \<Rightarrow> addr \<Rightarrow> nat list \<Rightarrow> 'c memory \<Rightarrow>
    'c memory option" where
  "copy_range k into src off dst [] M = Some M"
| "copy_range k into src off dst (i # is) M =
     do { x \<leftarrow> deref k src (off + i) M; (y, M1) \<leftarrow> into x M; M2 \<leftarrow> assign k dst i y M1;
          copy_range k into src off dst is M2 }"

definition copy_slice :: "('c, 'm :: zero) kind \<Rightarrow> ('c, 'm) copier \<Rightarrow> ('c, slice) copier" where
  "copy_slice k into s M =
     (case s of
        NilSlice \<Rightarrow> Some (NilSlice, M)
      | Slice a off n c \<Rightarrow>
          let (d, M1) = alloc k (replicate n 0) M
          in do { M2 \<leftarrow> copy_range k into a off d [0..<n] M1; Some (Slice d 0 n n, M2) })"

definition copy_builtin :: "('c, 'm) kind \<Rightarrow> addr \<Rightarrow> nat \<Rightarrow> addr \<Rightarrow> nat \<Rightarrow> nat \<Rightarrow> 'c memory \<Rightarrow> 'c memory option" where
  "copy_builtin k dst n src off m M =
     do { xs \<leftarrow> load k src M; ys \<leftarrow> load k dst M;
          let l = min n m in Some (store k dst (take l (drop off xs) @ drop l ys) M) }"

definition copy_flat_slice :: "('c, 'm :: zero) kind \<Rightarrow> ('c, slice) copier" where
  "copy_flat_slice k s M =
     (case s of
        NilSlice \<Rightarrow> Some (NilSlice, M)
      | Slice a off n c \<Rightarrow>
          let (d, M1) = alloc k (replicate n 0) M
          in do { M2 \<leftarrow> copy_builtin k d n a off n M1; Some (Slice d 0 n n, M2) })"

text \<open>What pointers and slices denote.\<close>

definition view_pointer :: "('c, 'm) kind \<Rightarrow> ('c, 'm, 'v) viewer \<Rightarrow> ('c, pointer, 'v option) viewer" where
  "view_pointer k view p M =
     (case p of
        None \<Rightarrow> Some (None, {})
      | Some (a, i) \<Rightarrow> do { x \<leftarrow> deref k a i M; (v, R) \<leftarrow> view x M; Some (Some v, insert a R) })"

fun view_list :: "('c, 'm, 'v) viewer \<Rightarrow> ('c, 'm list, 'v list) viewer" where
  "view_list view [] M = Some ([], {})"
| "view_list view (x # xs) M =
     do { (v, R) \<leftarrow> view x M; (vs, S) \<leftarrow> view_list view xs M; Some (v # vs, R \<union> S) }"

definition view_slice :: "('c, 'm) kind \<Rightarrow> ('c, 'm, 'v) viewer \<Rightarrow> ('c, slice, 'v list) viewer" where
  "view_slice k view s M =
     (case s of
        NilSlice \<Rightarrow> Some ([], {})
      | Slice a off n c \<Rightarrow>
          do { xs \<leftarrow> load k a M;
               if n \<le> c \<and> off + c \<le> length xs
               then do { (vs, R) \<leftarrow> view_list view (take n (drop off xs)) M; Some (vs, insert a R) }
               else None })"

lemma view_list_Some:
  "view_list view xs M = Some (vs, R) \<longleftrightarrow>
   length vs = length xs \<and>
   (\<exists>Rs. length Rs = length xs \<and> R = \<Union> (set Rs) \<and>
      (\<forall>i < length xs. view (xs ! i) M = Some (vs ! i, Rs ! i)))"
proof (induction xs arbitrary: vs R)
  case (Cons x xs)
  show ?case
  proof
    assume "view_list view (x # xs) M = Some (vs, R)"
    then obtain v S ws T where *: "view x M = Some (v, S)" "view_list view xs M = Some (ws, T)"
        "vs = v # ws" "R = S \<union> T"
      by (auto simp: bind_eq_Some_conv)
    with Cons.IH [of ws T] obtain Rs where "length ws = length xs" "length Rs = length xs" "T = \<Union> (set Rs)"
        "\<forall>i < length xs. view (xs ! i) M = Some (ws ! i, Rs ! i)" by auto
    with * show "length vs = length (x # xs) \<and> (\<exists>Rs. length Rs = length (x # xs) \<and> R = \<Union> (set Rs) \<and>
        (\<forall>i < length (x # xs). view ((x # xs) ! i) M = Some (vs ! i, Rs ! i)))"
      by (intro conjI exI [of _ "S # Rs"]) (auto simp: nth_Cons split: nat.split)
  next
    assume "length vs = length (x # xs) \<and> (\<exists>Rs. length Rs = length (x # xs) \<and> R = \<Union> (set Rs) \<and>
        (\<forall>i < length (x # xs). view ((x # xs) ! i) M = Some (vs ! i, Rs ! i)))"
    then obtain v ws S Rs where *: "vs = v # ws" "length ws = length xs" "length Rs = length xs"
        "R = S \<union> \<Union> (set Rs)"
        "\<forall>i < length (x # xs). view ((x # xs) ! i) M = Some ((v # ws) ! i, (S # Rs) ! i)"
      by (auto simp: length_Suc_conv)
    have "view x M = Some (v, S)" using *(5) by (auto dest: spec [of _ 0])
    moreover have "\<forall>i < length xs. view (xs ! i) M = Some (ws ! i, Rs ! i)"
      using *(5) by (auto dest: spec [of _ "Suc i" for i])
    then have "view_list view xs M = Some (ws, \<Union> (set Rs))" using Cons.IH * by blast
    ultimately show "view_list view (x # xs) M = Some (vs, R)" using * by simp
  qed
qed auto

section \<open>Arrays of one kind\<close>

locale cell_kind =
  fixes k :: "('c, 'm) kind"
  assumes unpack_pack: "unpack k (pack k xs) = Some xs"
begin

lemma load_store: "load k a (store k b xs M) = (if a = b then Some xs else load k a M)"
  by (simp add: load_def unpack_pack)

lemma load_alloc: "load k a (snd (alloc k xs M)) = (if a = mem_next M then Some xs else load k a M)"
  by (simp add: load_def unpack_pack)

end

text \<open>
  Arrays whose elements have the contract: so have pointers to them and slices of them.  For
  slices this is the invariant of the copying loop: the elements below the index are copied, the
  others still denote what they did, and nothing but the new array and fresh cells has changed.
\<close>

locale array_copier = cell_kind k + deep_copier into view
  for k :: "('c, 'm :: zero) kind"
    and into :: "('c, 'm) copier"
    and view :: "('c, 'm, 'v) viewer"
begin

lemma view_store: "view x M = Some (v, R) \<Longrightarrow> a \<notin> R \<Longrightarrow> view x (store k a xs M) = Some (v, R)"
  by (rule view_frame) auto

lemma copy_elem:
  assumes "mem_ok M" "view x M = Some (v, R)" "load k d M = Some ys" "d < mem_next M" "i < length ys"
  obtains y M1 S where "into x M = Some (y, M1)" "extends M M1"
    "assign k d i y M1 = Some (store k d (ys[i := y]) M1)" "mem_ok (store k d (ys[i := y]) M1)"
    "view y (store k d (ys[i := y]) M1) = Some (v, S)" "S \<subseteq> {mem_next M..<mem_next M1}"
proof -
  obtain y M1 S where *: "into x M = Some (y, M1)" "mem_ok M1" "extends M M1" "view y M1 = Some (v, S)"
      "S \<subseteq> {mem_next M..<mem_next M1}"
    using copies [OF assms(1,2)] by blast
  have "load k d M1 = Some ys" using *(3) assms(3,4) by (simp add: extends_def load_def)
  then have "assign k d i y M1 = Some (store k d (ys[i := y]) M1)" using assms(5) by (simp add: assign_def)
  moreover have "d < mem_next M1" using *(3) assms(4) by (simp add: extends_def)
  then have "mem_ok (store k d (ys[i := y]) M1)" using *(2) by (simp add: mem_ok_store)
  moreover have "d \<notin> S" using *(5) assms(4) by auto
  then have "view y (store k d (ys[i := y]) M1) = Some (v, S)" using *(4) by (simp add: view_store)
  ultimately show thesis using * that by blast
qed

text \<open>The loop invariant after \<open>j\<close> elements, and its preservation.\<close>

definition copied :: "addr \<Rightarrow> addr \<Rightarrow> 'v list \<Rightarrow> nat \<Rightarrow> 'm list \<Rightarrow> 'c memory \<Rightarrow> bool" where
  "copied L d vs j ys M \<longleftrightarrow>
     (\<forall>i < j. \<exists>S. view (ys ! i) M = Some (vs ! i, S) \<and> S \<subseteq> {L..<mem_next M} - {d})"

definition pending :: "addr \<Rightarrow> 'm list \<Rightarrow> 'v list \<Rightarrow> addr set list \<Rightarrow> nat \<Rightarrow> 'c memory \<Rightarrow> bool" where
  "pending d xs vs Rs j M \<longleftrightarrow>
     (\<forall>i. j \<le> i \<longrightarrow> i < length xs \<longrightarrow> view (xs ! i) M = Some (vs ! i, Rs ! i) \<and> d \<notin> Rs ! i)"

lemma copied_step:
  assumes "copied L d vs j ys M" "mem_ok M" "extends M M1" "j < length ys" "L \<le> mem_next M" "d < mem_next M"
    "view y (store k d (ys[j := y]) M1) = Some (vs ! j, S)" "S \<subseteq> {mem_next M..<mem_next M1}"
  shows "copied L d vs (Suc j) (ys[j := y]) (store k d (ys[j := y]) M1)"
  unfolding copied_def
proof (intro allI impI)
  fix i assume "i < Suc j"
  show "\<exists>S. view (ys[j := y] ! i) (store k d (ys[j := y]) M1) = Some (vs ! i, S) \<and>
      S \<subseteq> {L..<mem_next (store k d (ys[j := y]) M1)} - {d}"
  proof (cases "i = j")
    case True
    moreover have "S \<subseteq> {L..<mem_next M1} - {d}" using assms(5,6,8) by auto
    ultimately show ?thesis using assms(4,7) by auto
  next
    case False
    with \<open>i < Suc j\<close> have "i < j" by simp
    then obtain T where T: "view (ys ! i) M = Some (vs ! i, T)" "T \<subseteq> {L..<mem_next M} - {d}"
      using assms(1) by (auto simp: copied_def)
    then have "view (ys ! i) M1 = Some (vs ! i, T)" using view_extends assms(2,3) by blast
    then have "view (ys ! i) (store k d (ys[j := y]) M1) = Some (vs ! i, T)" using T(2) by (intro view_store) auto
    moreover have "mem_next M \<le> mem_next M1" using assms(3) by (simp add: extends_def)
    then have "T \<subseteq> {L..<mem_next M1} - {d}" using T(2) by fastforce
    ultimately show ?thesis using \<open>i < j\<close> by auto
  qed
qed

lemma pending_step:
  assumes "pending d xs vs Rs j M" "mem_ok M" "extends M M1"
  shows "pending d xs vs Rs (Suc j) (store k d zs M1)"
  using assms view_extends [of M _ _ _ M1] view_store [of _ M1 _ _ d zs]
  unfolding pending_def by (meson Suc_leD)

lemma copy_range_ok:
  assumes "mem_ok M" "load k d M = Some ys" "length ys = n" "load k a M = Some xs" "a \<noteq> d"
    "a < mem_next M" "d < mem_next M" "L \<le> d" "off + n \<le> length xs" "j \<le> n"
    "copied L d vs j ys M" "pending d (take n (drop off xs)) vs Rs j M"
  shows "\<exists>M' zs. copy_range k into a off d [j..<n] M = Some M' \<and> mem_ok M' \<and> mem_next M \<le> mem_next M' \<and>
    (\<forall>b < mem_next M. b \<noteq> d \<longrightarrow> mem_cells M' b = mem_cells M b) \<and>
    load k d M' = Some zs \<and> length zs = n \<and> copied L d vs n zs M'"
  using assms
proof (induction "n - j" arbitrary: j ys M)
  case 0
  then have "j = n" by simp
  with 0 show ?case by auto
next
  case (Suc l)
  then have j: "j < n" by simp
  let ?x = "xs ! (off + j)"
  have nth: "take n (drop off xs) ! j = ?x" using j Suc.prems(9) by simp
  have "view ?x M = Some (vs ! j, Rs ! j)"
    using Suc.prems(9,12) j nth by (auto simp: pending_def)
  from copy_elem [OF Suc.prems(1) this Suc.prems(2,7)] Suc.prems(3) j
  obtain y M1 S where y: "into ?x M = Some (y, M1)" "extends M M1"
      "assign k d j y M1 = Some (store k d (ys[j := y]) M1)" "mem_ok (store k d (ys[j := y]) M1)"
      "view y (store k d (ys[j := y]) M1) = Some (vs ! j, S)" "S \<subseteq> {mem_next M..<mem_next M1}"
    by metis
  let ?M2 = "store k d (ys[j := y]) M1"
  have next_le: "mem_next M \<le> mem_next M1" and cells: "b < mem_next M \<Longrightarrow> mem_cells M1 b = mem_cells M b" for b
    using y(2) by (auto simp: extends_def)
  have "\<exists>M' zs. copy_range k into a off d [Suc j..<n] ?M2 = Some M' \<and> mem_ok M' \<and> mem_next ?M2 \<le> mem_next M' \<and>
    (\<forall>b < mem_next ?M2. b \<noteq> d \<longrightarrow> mem_cells M' b = mem_cells ?M2 b) \<and>
    load k d M' = Some zs \<and> length zs = n \<and> copied L d vs n zs M'"
  proof (rule Suc.hyps(1))
    show "load k d ?M2 = Some (ys[j := y])" by (simp add: load_store)
    show "load k a ?M2 = Some xs"
      using Suc.prems(4,5,6) cells [of a] by (simp add: load_store) (simp add: load_def)
    show "copied L d vs (Suc j) (ys[j := y]) ?M2"
      using copied_step [OF Suc.prems(11,1) y(2)] Suc.prems(3,7,8) j y(5,6) by simp
    show "pending d (take n (drop off xs)) vs Rs (Suc j) ?M2"
      using pending_step [OF Suc.prems(12,1) y(2)] .
  qed (use Suc.prems Suc.hyps(2) y(4) next_le j in auto)
  moreover have "deref k a (off + j) M = Some ?x" using Suc.prems(4,9) j by (simp add: deref_def)
  then have "copy_range k into a off d [j..<n] M = copy_range k into a off d [Suc j..<n] ?M2"
    using y(1,3) j by (simp add: upt_conv_Cons)
  ultimately show ?case using next_le cells by fastforce
qed

end

context array_copier
begin

lemma view_list_frame:
  "view_list view xs M = Some (vs, R) \<Longrightarrow> (\<And>a. a \<in> R \<Longrightarrow> mem_cells M' a = mem_cells M a) \<Longrightarrow>
   view_list view xs M' = Some (vs, R)"
proof (induction xs arbitrary: vs R)
  case (Cons x xs)
  then obtain v S ws T where *: "view x M = Some (v, S)" "view_list view xs M = Some (ws, T)"
      "vs = v # ws" "R = S \<union> T"
    by (auto simp: bind_eq_Some_conv)
  then have "view x M' = Some (v, S)" using Cons.prems(2) by (intro view_frame [OF *(1)]) simp
  moreover have "view_list view xs M' = Some (ws, T)" using Cons.prems(2) * by (intro Cons.IH) simp_all
  ultimately show ?case using * by simp
qed simp

lemma view_list_dom: "view_list view xs M = Some (vs, R) \<Longrightarrow> R \<subseteq> dom (mem_cells M)"
  by (induction xs arbitrary: vs R) (fastforce simp: bind_eq_Some_conv dest: view_dom)+

lemma slice_copies:
  assumes M: "mem_ok M" and v: "view_slice k view s M = Some (vs, R)"
  shows "\<exists>t M' R'. copy_slice k into s M = Some (t, M') \<and> mem_ok M' \<and> extends M M' \<and>
    view_slice k view t M' = Some (vs, R') \<and> R' \<subseteq> {mem_next M..<mem_next M'}"
proof (cases s)
  case NilSlice
  then show ?thesis using M v by (simp add: copy_slice_def view_slice_def)
next
  case (Slice a off n c)
  then obtain xs T where xs: "load k a M = Some xs" "off + n \<le> length xs"
      "view_list view (take n (drop off xs)) M = Some (vs, T)" "R = insert a T"
    using v by (auto simp: view_slice_def bind_eq_Some_conv split: if_splits)
  then obtain Rs where Rs: "length vs = n" "length Rs = n"
      "\<forall>i < n. view (take n (drop off xs) ! i) M = Some (vs ! i, Rs ! i)"
    by (auto simp: view_list_Some)
  let ?d = "mem_next M" and ?M1 = "snd (alloc k (replicate n (0 :: 'm)) M)"
  have a: "a < mem_next M" using load_dom [OF xs(1)] mem_ok_dom [OF M] by simp
  have "view (take n (drop off xs) ! i) ?M1 = Some (vs ! i, Rs ! i) \<and> ?d \<notin> Rs ! i" if "i < n" for i
    using that Rs(3) view_extends [OF M _ extends_alloc] view_below [OF M] by blast
  then have "pending ?d (take n (drop off xs)) vs Rs 0 ?M1"
    by (simp add: pending_def)
  moreover have "load k a ?M1 = Some xs" using xs(1) a by (simp add: load_alloc)
  ultimately have "\<exists>M' zs. copy_range k into a off ?d [0..<n] ?M1 = Some M' \<and> mem_ok M' \<and>
      mem_next ?M1 \<le> mem_next M' \<and> (\<forall>b < mem_next ?M1. b \<noteq> ?d \<longrightarrow> mem_cells M' b = mem_cells ?M1 b) \<and>
      load k ?d M' = Some zs \<and> length zs = n \<and> copied ?d ?d vs n zs M'"
    using M a xs(2) by (intro copy_range_ok) (auto simp: load_alloc copied_def)
  then obtain M' zs where M': "copy_range k into a off ?d [0..<n] ?M1 = Some M'" "mem_ok M'"
      "Suc (mem_next M) \<le> mem_next M'" "\<forall>b < mem_next M. mem_cells M' b = mem_cells M b"
      "load k ?d M' = Some zs" "length zs = n" "copied ?d ?d vs n zs M'"
    by auto
  then obtain S where "\<forall>i < n. view (zs ! i) M' = Some (vs ! i, S i) \<and> S i \<subseteq> {?d..<mem_next M'}"
    unfolding copied_def by (metis Diff_subset subset_trans)
  then have "view_list view zs M' = Some (vs, \<Union> (set (map S [0..<n])))" "(\<Union>i < n. S i) \<subseteq> {?d..<mem_next M'}"
    using M'(6) Rs(1) by (auto simp: view_list_Some atLeast0LessThan intro!: exI [of _ "map S [0..<n]"])
  then have "view_slice k view (Slice ?d 0 n n) M' = Some (vs, insert ?d (\<Union>i < n. S i))"
    using M'(5,6) by (simp add: view_slice_def atLeast0LessThan)
  moreover have "copy_slice k into s M = Some (Slice ?d 0 n n, M')"
    using Slice M'(1) by (simp add: copy_slice_def split_beta)
  moreover have "extends M M'" using M'(3,4) by (simp add: extends_def)
  ultimately show ?thesis using M'(2,3) \<open>(\<Union>i < n. S i) \<subseteq> _\<close> by (auto intro!: exI)
qed

sublocale slice: deep_copier "copy_slice k into" "view_slice k view"
proof
  fix s M vs R and M' :: "'c memory"
  assume "view_slice k view s M = Some (vs, R)" and same: "\<And>a. a \<in> R \<Longrightarrow> mem_cells M' a = mem_cells M a"
  then show "view_slice k view s M' = Some (vs, R)"
  proof (cases s)
    case (Slice a off n c)
    then obtain xs T where xs: "load k a M = Some xs" "n \<le> c \<and> off + c \<le> length xs"
        "view_list view (take n (drop off xs)) M = Some (vs, T)" "R = insert a T"
      using \<open>view_slice k view s M = Some (vs, R)\<close> by (auto simp: view_slice_def bind_eq_Some_conv split: if_splits)
    have "view_list view (take n (drop off xs)) M' = Some (vs, T)"
      by (rule view_list_frame [OF xs(3)]) (simp add: same xs(4))
    moreover have "load k a M' = Some xs" using xs(1,4) same [of a] by (simp add: load_def)
    ultimately show ?thesis using Slice xs(2,4) by (simp add: view_slice_def)
  qed (simp add: view_slice_def)
next
  fix s M vs R
  assume v: "view_slice k view s M = Some (vs, R)"
  show "R \<subseteq> dom (mem_cells M)"
  proof (cases s)
    case (Slice a off n c)
    then obtain xs T where xs: "load k a M = Some xs" "view_list view (take n (drop off xs)) M = Some (vs, T)"
        "R = insert a T"
      using v by (auto simp: view_slice_def bind_eq_Some_conv split: if_splits)
    then have "T \<subseteq> dom (mem_cells M)" by (intro view_list_dom)
    then show ?thesis using xs(3) load_dom [OF xs(1)] by simp
  qed (use v in \<open>simp add: view_slice_def\<close>)
qed (rule slice_copies)

text \<open>A new variable for a struct that is read from anywhere in memory.\<close>

lemma copy_from_ok:
  assumes M: "mem_ok M" and x: "view x M = Some (v, T)" and read: "read (snd (alloc k [0] M)) = Some x"
  shows "\<exists>q M' R'. copy_from k into read M = Some (Some (q, 0), M') \<and> mem_ok M' \<and> extends M M' \<and>
    view_pointer k view (Some (q, 0)) M' = Some (Some v, R') \<and> R' \<subseteq> {mem_next M..<mem_next M'}"
proof -
  let ?q = "mem_next M" and ?M1 = "snd (alloc k [0 :: 'm] M)"
  have M1: "mem_ok ?M1" "load k ?q ?M1 = Some [0]" using M by (simp_all add: load_alloc)
  have "view x ?M1 = Some (v, T)" by (rule view_extends [OF M x extends_alloc])
  from M1(1) this M1(2) obtain y M2 S where y: "into x ?M1 = Some (y, M2)" "extends ?M1 M2"
      "assign k ?q 0 y M2 = Some (store k ?q ([0][0 := y]) M2)" "mem_ok (store k ?q ([0][0 := y]) M2)"
      "view y (store k ?q ([0][0 := y]) M2) = Some (v, S)" "S \<subseteq> {mem_next ?M1..<mem_next M2}"
    by (rule copy_elem [where i = 0]) simp_all
  have "copy_from k into read M = Some (Some (?q, 0), store k ?q [y] M2)"
    using read y(1,3) by (simp add: copy_from_def split_beta)
  moreover have "view_pointer k view (Some (?q, 0)) (store k ?q [y] M2) = Some (Some v, insert ?q S)"
    using y(5) by (simp add: view_pointer_def deref_def load_store)
  moreover have "extends M (store k ?q [y] M2)"
    using y(2) extends_trans extends_alloc extends_store by blast
  moreover have "insert ?q S \<subseteq> {mem_next M..<mem_next M2}" using y(2,6) by (auto simp: extends_def)
  ultimately show ?thesis using y(4) by auto
qed

lemma pointer_copies:
  assumes M: "mem_ok M" and v: "view_pointer k view p M = Some (w, R)"
  shows "\<exists>q M' R'. copy_new k into p M = Some (q, M') \<and> mem_ok M' \<and> extends M M' \<and>
    view_pointer k view q M' = Some (w, R') \<and> R' \<subseteq> {mem_next M..<mem_next M'}"
proof (cases p)
  case None
  then show ?thesis using M v by (simp add: copy_new_def view_pointer_def)
next
  case (Some ai)
  then obtain a i x v' T where x: "p = Some (a, i)" "deref k a i M = Some x" "view x M = Some (v', T)"
      "w = Some v'"
    using v by (cases ai) (auto simp: view_pointer_def bind_eq_Some_conv)
  then have "a < mem_next M"
    using load_dom [of k a M] mem_ok_dom [OF M, of a] by (auto simp: deref_def bind_eq_Some_conv)
  then have "deref k a i (snd (alloc k [0 :: 'm] M)) = Some x" using x(2) by (simp add: deref_def load_alloc)
  from copy_from_ok [OF M x(3), of "deref k a i", OF this] show ?thesis
    unfolding copy_new_def x(1) x(4) by fastforce
qed

sublocale pointer: deep_copier "copy_new k into" "view_pointer k view"
proof
  fix p M w R and M' :: "'c memory"
  assume "view_pointer k view p M = Some (w, R)" and same: "\<And>a. a \<in> R \<Longrightarrow> mem_cells M' a = mem_cells M a"
  then show "view_pointer k view p M' = Some (w, R)"
  proof (cases p)
    case (Some ai)
    then obtain a i x v T where x: "p = Some (a, i)" "deref k a i M = Some x" "view x M = Some (v, T)"
        "w = Some v" "R = insert a T"
      using \<open>view_pointer k view p M = Some (w, R)\<close>
      by (cases ai) (auto simp: view_pointer_def bind_eq_Some_conv)
    then have "view x M' = Some (v, T)" using same by (intro view_frame [OF x(3)]) simp
    moreover have "deref k a i M' = deref k a i M"
      using x(5) same [of a] load_cong [of M' a M k] by (simp add: deref_def)
    ultimately show ?thesis using x by (simp add: view_pointer_def)
  qed (simp add: view_pointer_def)
next
  fix p M w R
  assume "view_pointer k view p M = Some (w, R)"
  then show "R \<subseteq> dom (mem_cells M)"
    by (auto simp: view_pointer_def deref_def bind_eq_Some_conv dest!: view_dom load_dom
        split: option.splits prod.splits if_splits)
qed (rule pointer_copies)

lemmas slice_is_copier = slice.deep_copier_axioms
lemmas pointer_is_copier = pointer.deep_copier_axioms

text \<open>The nil slice stays nil, and an empty one stays empty without becoming nil.\<close>

lemma copy_slice_shape:
  "copy_slice k into s M = Some (t, M') \<Longrightarrow> (t = NilSlice \<longleftrightarrow> s = NilSlice) \<and>
   (s \<noteq> NilSlice \<longrightarrow> slice_len t = slice_len s \<and> slice_off t = 0 \<and> slice_cap t = slice_len s)"
  by (auto simp: copy_slice_def bind_eq_Some_conv split: slice.splits prod.splits)

end

section \<open>Slices of structs without pointers\<close>

text \<open>The built-in \<open>copy\<close> leaves the same memory as the loop over plain assignments.\<close>

lemma view_list_flat: "view_list flat_view xs M = Some (xs, {})"
  by (induction xs) (simp_all add: flat_view_def)

context cell_kind
begin

lemma view_flat_slice_Some:
  "view_slice k flat_view (Slice a off n c) M = Some (vs, R) \<longleftrightarrow>
   (\<exists>xs. load k a M = Some xs \<and> n \<le> c \<and> off + c \<le> length xs \<and> vs = take n (drop off xs) \<and> R = {a})"
  by (auto simp: view_slice_def view_list_flat bind_eq_Some_conv)

end

locale flat_array = cell_kind k for k :: "('c, 'm :: zero) kind"
begin

sublocale array_copier k flat_copy flat_view
  by (intro array_copier.intro deep_copier_flat) (rule cell_kind_axioms)

lemma flat_slice_copies:
  assumes M: "mem_ok M" and v: "view_slice k flat_view s M = Some (vs, R)"
  shows "\<exists>t M' R'. copy_flat_slice k s M = Some (t, M') \<and> mem_ok M' \<and> extends M M' \<and>
    view_slice k flat_view t M' = Some (vs, R') \<and> R' \<subseteq> {mem_next M..<mem_next M'}"
proof (cases s)
  case NilSlice
  then show ?thesis using M v by (simp add: copy_flat_slice_def view_slice_def)
next
  case (Slice a off n c)
  then obtain xs where xs: "load k a M = Some xs" "n \<le> c \<and> off + c \<le> length xs" "vs = take n (drop off xs)"
    using v by (auto simp: view_flat_slice_Some)
  let ?d = "mem_next M" and ?M1 = "snd (alloc k (replicate n (0 :: 'm)) M)"
  let ?M2 = "store k ?d vs ?M1"
  have "a < mem_next M" using load_dom [OF xs(1)] mem_ok_dom [OF M] by simp
  then have "load k a ?M1 = Some xs" "load k ?d ?M1 = Some (replicate n 0)" using xs(1) by (simp_all add: load_alloc)
  then have "copy_builtin k ?d n a off n ?M1 = Some ?M2" by (simp add: copy_builtin_def xs(3))
  then have "copy_flat_slice k s M = Some (Slice ?d 0 n n, ?M2)"
    using Slice by (simp add: copy_flat_slice_def split_beta)
  moreover have "view_slice k flat_view (Slice ?d 0 n n) ?M2 = Some (vs, {?d})"
    using xs by (auto simp add: view_flat_slice_Some load_store)
  moreover have "mem_ok ?M2" using M by (intro mem_ok_store) simp_all
  moreover have "extends M ?M2" by (rule extends_store) simp_all
  ultimately show ?thesis by (intro exI [of _ "Slice ?d 0 n n"] exI [of _ ?M2] exI [of _ "{?d}"]) simp
qed

sublocale flat_slice: deep_copier "copy_flat_slice k" "view_slice k flat_view"
  by unfold_locales (use slice.view_frame slice.view_dom flat_slice_copies in blast)+

lemmas flat_slice_is_copier = flat_slice.deep_copier_axioms

end

section \<open>Structs\<close>

text \<open>
  A generated body starts from \<open>*out = *in\<close> and then replaces one field after the other by its copy.
  Two fields are copied one after the other; one field is copied inside a struct whose other
  fields are assigned.
\<close>

definition copy_pair :: "('c, 'a) copier \<Rightarrow> ('c, 'b) copier \<Rightarrow> ('c, 'a \<times> 'b) copier" where
  "copy_pair f g xy M = do { (x, M1) \<leftarrow> f (fst xy) M; (y, M2) \<leftarrow> g (snd xy) M1; Some ((x, y), M2) }"

definition view_pair :: "('c, 'a, 'v) viewer \<Rightarrow> ('c, 'b, 'w) viewer \<Rightarrow> ('c, 'a \<times> 'b, 'v \<times> 'w) viewer" where
  "view_pair f g xy M = do { (v, R) \<leftarrow> f (fst xy) M; (w, S) \<leftarrow> g (snd xy) M; Some ((v, w), R \<union> S) }"

definition copy_field :: "('s \<Rightarrow> 'a) \<Rightarrow> ('a \<Rightarrow> 's \<Rightarrow> 's) \<Rightarrow> ('c, 'a) copier \<Rightarrow> ('c, 's) copier" where
  "copy_field get put f s M = do { (x, M1) \<leftarrow> f (get s) M; Some (put x s, M1) }"

definition view_field :: "('s \<Rightarrow> 'a) \<Rightarrow> ('v \<Rightarrow> 's \<Rightarrow> 'w) \<Rightarrow> ('c, 'a, 'v) viewer \<Rightarrow> ('c, 's, 'w) viewer" where
  "view_field get build f s M = do { (v, R) \<leftarrow> f (get s) M; Some (build v s, R) }"

lemma deep_copier_pair:
  fixes f :: "('c, 'x) copier" and g :: "('c, 'y) copier"
  assumes f: "deep_copier f vf" and g: "deep_copier g vg"
  shows "deep_copier (copy_pair f g) (view_pair vf vg)"
proof
  fix xy M vw R and M' :: "'c memory"
  assume "view_pair vf vg xy M = Some (vw, R)" and same: "\<And>a. a \<in> R \<Longrightarrow> mem_cells M' a = mem_cells M a"
  then obtain v S w T where v: "vf (fst xy) M = Some (v, S)" and w: "vg (snd xy) M = Some (w, T)"
      and vw: "vw = (v, w)" "R = S \<union> T"
    by (auto simp: view_pair_def bind_eq_Some_conv)
  have "vf (fst xy) M' = Some (v, S)" by (rule deep_copier.view_frame [OF f v]) (simp add: same vw)
  moreover have "vg (snd xy) M' = Some (w, T)" by (rule deep_copier.view_frame [OF g w]) (simp add: same vw)
  ultimately show "view_pair vf vg xy M' = Some (vw, R)" by (simp add: view_pair_def vw)
next
  fix xy M vw R
  assume "view_pair vf vg xy M = Some (vw, R)"
  then show "R \<subseteq> dom (mem_cells M)"
    using deep_copier.view_dom [OF f, of "fst xy" M] deep_copier.view_dom [OF g, of "snd xy" M]
    by (fastforce simp: view_pair_def bind_eq_Some_conv)
next
  fix M xy vw R
  assume M: "mem_ok M" and "view_pair vf vg xy M = Some (vw, R)"
  then obtain v S w T where v: "vf (fst xy) M = Some (v, S)" and w: "vg (snd xy) M = Some (w, T)"
      and vw: "vw = (v, w)"
    by (auto simp: view_pair_def bind_eq_Some_conv)
  obtain x M1 S' where x: "f (fst xy) M = Some (x, M1)" "mem_ok M1" "extends M M1" "vf x M1 = Some (v, S')"
      "S' \<subseteq> {mem_next M..<mem_next M1}"
    using deep_copier.copies [OF f M v] by blast
  have "vg (snd xy) M1 = Some (w, T)" by (rule deep_copier.view_extends [OF g M w x(3)])
  then obtain y M2 T' where y: "g (snd xy) M1 = Some (y, M2)" "mem_ok M2" "extends M1 M2"
      "vg y M2 = Some (w, T')" "T' \<subseteq> {mem_next M1..<mem_next M2}"
    using deep_copier.copies [OF g x(2)] by blast
  have "vf x M2 = Some (v, S')" by (rule deep_copier.view_extends [OF f x(2,4) y(3)])
  then have "view_pair vf vg (x, y) M2 = Some (vw, S' \<union> T')" using y(4) vw by (simp add: view_pair_def)
  moreover have "copy_pair f g xy M = Some ((x, y), M2)" using x(1) y(1) by (simp add: copy_pair_def)
  moreover have "S' \<union> T' \<subseteq> {mem_next M..<mem_next M2}"
    using x(3,5) y(3,5) by (fastforce simp: extends_def)
  ultimately show "\<exists>p M' R'. copy_pair f g xy M = Some (p, M') \<and> mem_ok M' \<and> extends M M' \<and>
      view_pair vf vg p M' = Some (vw, R') \<and> R' \<subseteq> {mem_next M..<mem_next M'}"
    using y(2) extends_trans [OF x(3) y(3)] by blast
qed

lemma deep_copier_field:
  fixes f :: "('c, 'x) copier"
  assumes f: "deep_copier f vf"
    and lens: "\<And>x s. get (put x s) = x" "\<And>v x s. build v (put x s) = build v s"
  shows "deep_copier (copy_field get put f) (view_field get build vf)"
proof
  fix s M v R and M' :: "'c memory"
  assume "view_field get build vf s M = Some (v, R)" and same: "\<And>a. a \<in> R \<Longrightarrow> mem_cells M' a = mem_cells M a"
  then obtain w where w: "vf (get s) M = Some (w, R)" "v = build w s"
    by (auto simp: view_field_def bind_eq_Some_conv)
  have "vf (get s) M' = Some (w, R)" by (rule deep_copier.view_frame [OF f w(1)]) (rule same)
  then show "view_field get build vf s M' = Some (v, R)" by (simp add: view_field_def w(2))
next
  fix s M v R
  assume "view_field get build vf s M = Some (v, R)"
  then show "R \<subseteq> dom (mem_cells M)"
    using deep_copier.view_dom [OF f, of "get s" M] by (auto simp: view_field_def bind_eq_Some_conv)
next
  fix M s v R
  assume M: "mem_ok M" and "view_field get build vf s M = Some (v, R)"
  then obtain w where w: "vf (get s) M = Some (w, R)" "v = build w s"
    by (auto simp: view_field_def bind_eq_Some_conv)
  then show "\<exists>t M' R'. copy_field get put f s M = Some (t, M') \<and> mem_ok M' \<and> extends M M' \<and>
      view_field get build vf t M' = Some (v, R') \<and> R' \<subseteq> {mem_next M..<mem_next M'}"
    using deep_copier.copies [OF f M w(1)]
    by (auto simp: copy_field_def view_field_def lens)
qed

section \<open>The contracts as rules\<close>

named_theorems copier_rules \<open>deep copies built from deep copies\<close>

lemmas [copier_rules] = deep_copier_flat deep_copier_pair

lemma deep_copier_slice [copier_rules]:
  "cell_kind k \<Longrightarrow> deep_copier into view \<Longrightarrow> deep_copier (copy_slice k into) (view_slice k view)"
  by (rule array_copier.slice_is_copier [OF array_copier.intro])

lemma deep_copier_new [copier_rules]:
  "cell_kind k \<Longrightarrow> deep_copier into view \<Longrightarrow> deep_copier (copy_new k into) (view_pointer k view)"
  by (rule array_copier.pointer_is_copier [OF array_copier.intro])

lemma deep_copier_flat_slice [copier_rules]:
  "cell_kind k \<Longrightarrow> deep_copier (copy_flat_slice k) (view_slice k flat_view)"
  by (rule flat_array.flat_slice_is_copier [OF flat_array.intro])

section \<open>Writers\<close>

text \<open>
  The other side of the contract: code that allocates, and writes nowhere else than in the cells
  it was given.
\<close>

definition writes_only :: "addr set \<Rightarrow> 'c memory \<Rightarrow> 'c memory \<Rightarrow> bool" where
  "writes_only R M M' \<longleftrightarrow> mem_ok M' \<and> mem_next M \<le> mem_next M' \<and>
     (\<forall>a < mem_next M. a \<notin> R \<longrightarrow> mem_cells M' a = mem_cells M a)"

lemma writes_only_refl: "mem_ok M \<Longrightarrow> writes_only R M M"
  by (simp add: writes_only_def)

lemma writes_only_extends: "mem_ok M' \<Longrightarrow> extends M M' \<Longrightarrow> writes_only R M M'"
  by (auto simp: writes_only_def extends_def)

lemma writes_only_trans:
  "writes_only R M M' \<Longrightarrow> writes_only S M' M'' \<Longrightarrow> S \<subseteq> R \<union> {mem_next M..} \<Longrightarrow> writes_only R M M''"
  unfolding writes_only_def by (metis Un_iff atLeast_iff less_le_trans not_le subsetD le_trans)

lemma writes_only_store: "mem_ok M \<Longrightarrow> a < mem_next M \<Longrightarrow> a \<in> R \<Longrightarrow> writes_only R M (store k a xs M)"
  by (auto simp: writes_only_def mem_ok_store)

text \<open>A struct is not affected by a writer that was given none of its cells.\<close>

context deep_copier
begin

lemma view_writes_only:
  "mem_ok M \<Longrightarrow> view x M = Some (v, R) \<Longrightarrow> writes_only S M M' \<Longrightarrow> R \<inter> S = {} \<Longrightarrow> view x M' = Some (v, R)"
  using view_frame [of x M v R M'] view_below [of M x v R] unfolding writes_only_def by blast

end

text \<open>
  The built-in \<open>append\<close> of one element: in place when the capacity allows it, otherwise into a new
  array whose capacity is the choice of the runtime, the parameter \<open>grow\<close>.
\<close>

definition append_one :: "('c, 'm :: zero) kind \<Rightarrow> (nat \<Rightarrow> nat) \<Rightarrow> slice \<Rightarrow> 'm \<Rightarrow> 'c memory \<Rightarrow> (slice \<times> 'c memory) option" where
  "append_one k grow s x M =
     (case s of
        NilSlice \<Rightarrow>
          let c = max 1 (grow 0); (d, M1) = alloc k (x # replicate (c - 1) 0) M in Some (Slice d 0 1 c, M1)
      | Slice a off n c \<Rightarrow>
          if n < c then do { M1 \<leftarrow> assign k a (off + n) x M; Some (Slice a off (Suc n) c, M1) }
          else do { xs \<leftarrow> load k a M;
                    let c' = max (Suc n) (grow n);
                        (d, M1) = alloc k (take n (drop off xs) @ x # replicate (c' - Suc n) 0) M
                    in Some (Slice d 0 (Suc n) c', M1) })"

context flat_array
begin

lemma append_one_ok:
  assumes M: "mem_ok M" and v: "view_slice k flat_view s M = Some (vs, R)"
  shows "\<exists>t M' R'. append_one k grow s x M = Some (t, M') \<and> writes_only R M M' \<and>
    view_slice k flat_view t M' = Some (vs @ [x], R') \<and> R' \<subseteq> R \<union> {mem_next M..<mem_next M'}"
proof (cases s)
  case NilSlice
  let ?c = "max 1 (grow 0)"
  let ?M1 = "snd (alloc k (x # replicate (?c - 1) 0) M)"
  have "append_one k grow s x M = Some (Slice (mem_next M) 0 1 ?c, ?M1)"
    using NilSlice by (simp add: append_one_def split_beta Let_def)
  moreover have "view_slice k flat_view (Slice (mem_next M) 0 1 ?c) ?M1 = Some ([x], {mem_next M})"
    by (auto simp: view_flat_slice_Some load_alloc)
  moreover have "writes_only R M ?M1" using M by (intro writes_only_extends) simp_all
  ultimately show ?thesis using v NilSlice by (auto simp: view_slice_def)
next
  case (Slice a off n c)
  then obtain xs where xs: "load k a M = Some xs" "n \<le> c" "off + c \<le> length xs" "vs = take n (drop off xs)"
      "R = {a}"
    using v by (auto simp: view_flat_slice_Some)
  have a: "a < mem_next M" using load_dom [OF xs(1)] mem_ok_dom [OF M] by simp
  show ?thesis
  proof (cases "n < c")
    case True
    let ?M1 = "store k a (xs[off + n := x]) M"
    have "append_one k grow s x M = Some (Slice a off (Suc n) c, ?M1)"
      using Slice xs True by (simp add: append_one_def assign_def)
    moreover have "take (Suc n) (drop off (xs[off + n := x])) = vs @ [x]"
      using xs True by (simp add: take_Suc_conv_app_nth drop_update_swap)
    then have "view_slice k flat_view (Slice a off (Suc n) c) ?M1 = Some (vs @ [x], {a})"
      using xs True by (auto simp: view_flat_slice_Some load_store)
    moreover have "writes_only R M ?M1" using M a xs(5) by (intro writes_only_store) simp_all
    ultimately show ?thesis using xs(5) by auto
  next
    case False
    let ?c = "max (Suc n) (grow n)"
    let ?M1 = "snd (alloc k (vs @ x # replicate (?c - Suc n) 0) M)"
    have len: "length vs = n" using xs by auto
    have "append_one k grow s x M = Some (Slice (mem_next M) 0 (Suc n) ?c, ?M1)"
      using Slice xs False by (simp add: append_one_def split_beta Let_def)
    moreover have "view_slice k flat_view (Slice (mem_next M) 0 (Suc n) ?c) ?M1 = Some (vs @ [x], {mem_next M})"
      using len by (auto simp: view_flat_slice_Some load_alloc)
    moreover have "writes_only R M ?M1" using M by (intro writes_only_extends) simp_all
    ultimately show ?thesis by auto
  qed
qed

end

end
