(* ===== verification/Api_Memory.thy ===== *)
theory Api_Memory
  imports Go_Memory Api_Types
begin

text \<open>
  The structs of api/v1beta1 as they lie in memory: where the values of Api_Types have a list or
  an option, these records have a slice or a pointer.  The structs of k8s.io/apimachinery with
  pointers of their own (ObjectMeta, ListMeta, LabelSelector) are a type parameter.  For each
  type there is the zero value that \<open>new\<close> and \<open>make\<close> write, and a kind of cell.
\<close>

section \<open>Structs with slices and pointers\<close>

record mServiceSelector =
  mss_ObjectReference :: ObjectReference
  mss_Port :: pointer
  mss_Path :: string
  mss_Protocol :: string

record mInfoItemSource =
  msrc_Type :: InfoItemSourceType
  msrc_SecretKeyRef :: pointer
  msrc_ConfigMapKeyRef :: pointer
  msrc_ServiceRef :: pointer
  msrc_IngressRef :: pointer

record mInfoItem =
  minfo_Name :: string
  minfo_Type :: InfoItemType
  minfo_Value :: string
  minfo_ValueFrom :: pointer

record mDescriptor =
  mdesc_Type :: string
  mdesc_Version :: string
  mdesc_Description :: string
  mdesc_Icons :: slice
  mdesc_Maintainers :: slice
  mdesc_Owners :: slice
  mdesc_Keywords :: slice
  mdesc_Links :: slice
  mdesc_Notes :: string

record mApplicationSpec =
  mspec_ComponentGroupKinds :: slice
  mspec_Descriptor :: mDescriptor
  mspec_Selector :: pointer
  mspec_AddOwnerRef :: bool
  mspec_Info :: slice
  mspec_AssemblyPhase :: ApplicationAssemblyPhase

record mComponentList =
  mcl_Objects :: slice

record mApplicationStatus =
  mst_ObservedGeneration :: int64
  mst_Conditions :: slice
  mst_ComponentList :: mComponentList
  mst_ComponentsReady :: string

record 'x mApplication =
  mapp_TypeMeta :: TypeMeta
  mapp_Meta :: 'x
  mapp_Spec :: mApplicationSpec
  mapp_Status :: mApplicationStatus

record 'x mApplicationList =
  mal_TypeMeta :: TypeMeta
  mal_ListMeta :: 'x
  mal_Items :: slice

section \<open>Zero values\<close>

instantiation GroupKind_ext :: (zero) zero
begin
definition zero_GroupKind_ext :: "'a GroupKind_scheme" where "zero_GroupKind_ext = GroupKind.extend (GroupKind.make 0 0) 0"
instance ..
end

instantiation TypeMeta_ext :: (zero) zero
begin
definition zero_TypeMeta_ext :: "'a TypeMeta_scheme" where "zero_TypeMeta_ext = TypeMeta.extend (TypeMeta.make 0 0) 0"
instance ..
end

instantiation ObjectReference_ext :: (zero) zero
begin
definition zero_ObjectReference_ext :: "'a ObjectReference_scheme" where "zero_ObjectReference_ext = ObjectReference.extend (ObjectReference.make 0 0 0 0 0 0 0) 0"
instance ..
end

instantiation ImageSpec_ext :: (zero) zero
begin
definition zero_ImageSpec_ext :: "'a ImageSpec_scheme" where "zero_ImageSpec_ext = ImageSpec.extend (ImageSpec.make 0 0 0) 0"
instance ..
end

instantiation ContactData_ext :: (zero) zero
begin
definition zero_ContactData_ext :: "'a ContactData_scheme" where "zero_ContactData_ext = ContactData.extend (ContactData.make 0 0 0) 0"
instance ..
end

instantiation Link_ext :: (zero) zero
begin
definition zero_Link_ext :: "'a Link_scheme" where "zero_Link_ext = Link.extend (Link.make 0 0) 0"
instance ..
end

instantiation ConfigMapKeySelector_ext :: (zero) zero
begin
definition zero_ConfigMapKeySelector_ext :: "'a ConfigMapKeySelector_scheme" where "zero_ConfigMapKeySelector_ext = ConfigMapKeySelector.extend (ConfigMapKeySelector.make 0 0) 0"
instance ..
end

instantiation SecretKeySelector_ext :: (zero) zero
begin
definition zero_SecretKeySelector_ext :: "'a SecretKeySelector_scheme" where "zero_SecretKeySelector_ext = SecretKeySelector.extend (SecretKeySelector.make 0 0) 0"
instance ..
end

instantiation IngressSelector_ext :: (zero) zero
begin
definition zero_IngressSelector_ext :: "'a IngressSelector_scheme" where "zero_IngressSelector_ext = IngressSelector.extend (IngressSelector.make 0 0 0 0) 0"
instance ..
end

instantiation ObjectStatus_ext :: (zero) zero
begin
definition zero_ObjectStatus_ext :: "'a ObjectStatus_scheme" where "zero_ObjectStatus_ext = ObjectStatus.extend (ObjectStatus.make 0 0 0 0 0) 0"
instance ..
end

instantiation Condition_ext :: (zero) zero
begin
definition zero_Condition_ext :: "'a Condition_scheme" where "zero_Condition_ext = Condition.extend (Condition.make 0 0 0 0 0 0) 0"
instance ..
end


instantiation mServiceSelector_ext :: (zero) zero
begin
definition zero_mServiceSelector_ext :: "'a mServiceSelector_scheme" where "zero_mServiceSelector_ext = mServiceSelector.extend (mServiceSelector.make 0 0 0 0) 0"
instance ..
end

instantiation mInfoItemSource_ext :: (zero) zero
begin
definition zero_mInfoItemSource_ext :: "'a mInfoItemSource_scheme" where "zero_mInfoItemSource_ext = mInfoItemSource.extend (mInfoItemSource.make 0 0 0 0 0) 0"
instance ..
end

instantiation mInfoItem_ext :: (zero) zero
begin
definition zero_mInfoItem_ext :: "'a mInfoItem_scheme" where "zero_mInfoItem_ext = mInfoItem.extend (mInfoItem.make 0 0 0 0) 0"
instance ..
end

instantiation mDescriptor_ext :: (zero) zero
begin
definition zero_mDescriptor_ext :: "'a mDescriptor_scheme" where "zero_mDescriptor_ext = mDescriptor.extend (mDescriptor.make 0 0 0 0 0 0 0 0 0) 0"
instance ..
end

instantiation mApplicationSpec_ext :: (zero) zero
begin
definition zero_mApplicationSpec_ext :: "'a mApplicationSpec_scheme" where "zero_mApplicationSpec_ext = mApplicationSpec.extend (mApplicationSpec.make 0 0 0 0 0 0) 0"
instance ..
end

instantiation mComponentList_ext :: (zero) zero
begin
definition zero_mComponentList_ext :: "'a mComponentList_scheme" where "zero_mComponentList_ext = mComponentList.extend (mComponentList.make 0) 0"
instance ..
end

instantiation mApplicationStatus_ext :: (zero) zero
begin
definition zero_mApplicationStatus_ext :: "'a mApplicationStatus_scheme" where "zero_mApplicationStatus_ext = mApplicationStatus.extend (mApplicationStatus.make 0 0 0 0) 0"
instance ..
end

instantiation mApplication_ext :: (zero, zero) zero
begin
definition zero_mApplication_ext :: "('a, 'b) mApplication_scheme" where "zero_mApplication_ext = mApplication.extend (mApplication.make 0 0 0 0) 0"
instance ..
end

instantiation mApplicationList_ext :: (zero, zero) zero
begin
definition zero_mApplicationList_ext :: "('a, 'b) mApplicationList_scheme" where "zero_mApplicationList_ext = mApplicationList.extend (mApplicationList.make 0 0 0) 0"
instance ..
end

section \<open>Cells\<close>

text \<open>One kind of cell per type that the generated code allocates.\<close>

datatype 'x cell =
    ImageCells "ImageSpec list"
  | ContactCells "ContactData list"
  | LinkCells "Link list"
  | StringCells "string list"
  | GroupKindCells "GroupKind list"
  | ObjectStatusCells "ObjectStatus list"
  | ConfigMapCells "ConfigMapKeySelector list"
  | SecretCells "SecretKeySelector list"
  | IngressCells "IngressSelector list"
  | Int32Cells "int32 list"
  | ExternCells "'x list"
  | ConditionCells "Condition list"
  | ServiceCells "mServiceSelector list"
  | InfoSourceCells "mInfoItemSource list"
  | InfoItemCells "mInfoItem list"
  | DescriptorCells "mDescriptor list"
  | SpecCells "mApplicationSpec list"
  | ComponentListCells "mComponentList list"
  | StatusCells "mApplicationStatus list"
  | ApplicationCells "'x mApplication list"
  | ApplicationListCells "'x mApplicationList list"

definition images :: "('x cell, ImageSpec) kind" where
  "images = \<lparr>pack = ImageCells, unpack = (\<lambda>c. case c of ImageCells xs \<Rightarrow> Some xs | _ \<Rightarrow> None)\<rparr>"
definition contacts :: "('x cell, ContactData) kind" where
  "contacts = \<lparr>pack = ContactCells, unpack = (\<lambda>c. case c of ContactCells xs \<Rightarrow> Some xs | _ \<Rightarrow> None)\<rparr>"
definition links :: "('x cell, Link) kind" where
  "links = \<lparr>pack = LinkCells, unpack = (\<lambda>c. case c of LinkCells xs \<Rightarrow> Some xs | _ \<Rightarrow> None)\<rparr>"
definition strings :: "('x cell, string) kind" where
  "strings = \<lparr>pack = StringCells, unpack = (\<lambda>c. case c of StringCells xs \<Rightarrow> Some xs | _ \<Rightarrow> None)\<rparr>"
definition group_kinds :: "('x cell, GroupKind) kind" where
  "group_kinds = \<lparr>pack = GroupKindCells, unpack = (\<lambda>c. case c of GroupKindCells xs \<Rightarrow> Some xs | _ \<Rightarrow> None)\<rparr>"
definition object_statuses :: "('x cell, ObjectStatus) kind" where
  "object_statuses = \<lparr>pack = ObjectStatusCells, unpack = (\<lambda>c. case c of ObjectStatusCells xs \<Rightarrow> Some xs | _ \<Rightarrow> None)\<rparr>"
definition config_maps :: "('x cell, ConfigMapKeySelector) kind" where
  "config_maps = \<lparr>pack = ConfigMapCells, unpack = (\<lambda>c. case c of ConfigMapCells xs \<Rightarrow> Some xs | _ \<Rightarrow> None)\<rparr>"
definition secrets :: "('x cell, SecretKeySelector) kind" where
  "secrets = \<lparr>pack = SecretCells, unpack = (\<lambda>c. case c of SecretCells xs \<Rightarrow> Some xs | _ \<Rightarrow> None)\<rparr>"
definition ingresses :: "('x cell, IngressSelector) kind" where
  "ingresses = \<lparr>pack = IngressCells, unpack = (\<lambda>c. case c of IngressCells xs \<Rightarrow> Some xs | _ \<Rightarrow> None)\<rparr>"
definition int32s :: "('x cell, int32) kind" where
  "int32s = \<lparr>pack = Int32Cells, unpack = (\<lambda>c. case c of Int32Cells xs \<Rightarrow> Some xs | _ \<Rightarrow> None)\<rparr>"
definition externs :: "('x cell, 'x) kind" where
  "externs = \<lparr>pack = ExternCells, unpack = (\<lambda>c. case c of ExternCells xs \<Rightarrow> Some xs | _ \<Rightarrow> None)\<rparr>"
definition conditions :: "('x cell, Condition) kind" where
  "conditions = \<lparr>pack = ConditionCells, unpack = (\<lambda>c. case c of ConditionCells xs \<Rightarrow> Some xs | _ \<Rightarrow> None)\<rparr>"
definition services :: "('x cell, mServiceSelector) kind" where
  "services = \<lparr>pack = ServiceCells, unpack = (\<lambda>c. case c of ServiceCells xs \<Rightarrow> Some xs | _ \<Rightarrow> None)\<rparr>"
definition info_sources :: "('x cell, mInfoItemSource) kind" where
  "info_sources = \<lparr>pack = InfoSourceCells, unpack = (\<lambda>c. case c of InfoSourceCells xs \<Rightarrow> Some xs | _ \<Rightarrow> None)\<rparr>"
definition info_items :: "('x cell, mInfoItem) kind" where
  "info_items = \<lparr>pack = InfoItemCells, unpack = (\<lambda>c. case c of InfoItemCells xs \<Rightarrow> Some xs | _ \<Rightarrow> None)\<rparr>"
definition descriptors :: "('x cell, mDescriptor) kind" where
  "descriptors = \<lparr>pack = DescriptorCells, unpack = (\<lambda>c. case c of DescriptorCells xs \<Rightarrow> Some xs | _ \<Rightarrow> None)\<rparr>"
definition specs :: "('x cell, mApplicationSpec) kind" where
  "specs = \<lparr>pack = SpecCells, unpack = (\<lambda>c. case c of SpecCells xs \<Rightarrow> Some xs | _ \<Rightarrow> None)\<rparr>"
definition component_lists :: "('x cell, mComponentList) kind" where
  "component_lists = \<lparr>pack = ComponentListCells, unpack = (\<lambda>c. case c of ComponentListCells xs \<Rightarrow> Some xs | _ \<Rightarrow> None)\<rparr>"
definition app_statuses :: "('x cell, mApplicationStatus) kind" where
  "app_statuses = \<lparr>pack = StatusCells, unpack = (\<lambda>c. case c of StatusCells xs \<Rightarrow> Some xs | _ \<Rightarrow> None)\<rparr>"
definition applications :: "('x cell, 'x mApplication) kind" where
  "applications = \<lparr>pack = ApplicationCells, unpack = (\<lambda>c. case c of ApplicationCells xs \<Rightarrow> Some xs | _ \<Rightarrow> None)\<rparr>"
definition application_lists :: "('x cell, 'x mApplicationList) kind" where
  "application_lists = \<lparr>pack = ApplicationListCells, unpack = (\<lambda>c. case c of ApplicationListCells xs \<Rightarrow> Some xs | _ \<Rightarrow> None)\<rparr>"

lemma cell_kind_images: "cell_kind images" by unfold_locales (simp add: images_def)
lemma cell_kind_contacts: "cell_kind contacts" by unfold_locales (simp add: contacts_def)
lemma cell_kind_links: "cell_kind links" by unfold_locales (simp add: links_def)
lemma cell_kind_strings: "cell_kind strings" by unfold_locales (simp add: strings_def)
lemma cell_kind_group_kinds: "cell_kind group_kinds" by unfold_locales (simp add: group_kinds_def)
lemma cell_kind_object_statuses: "cell_kind object_statuses" by unfold_locales (simp add: object_statuses_def)
lemma cell_kind_config_maps: "cell_kind config_maps" by unfold_locales (simp add: config_maps_def)
lemma cell_kind_secrets: "cell_kind secrets" by unfold_locales (simp add: secrets_def)
lemma cell_kind_ingresses: "cell_kind ingresses" by unfold_locales (simp add: ingresses_def)
lemma cell_kind_int32s: "cell_kind int32s" by unfold_locales (simp add: int32s_def)
lemma cell_kind_externs: "cell_kind externs" by unfold_locales (simp add: externs_def)
lemma cell_kind_conditions: "cell_kind conditions" by unfold_locales (simp add: conditions_def)
lemma cell_kind_services: "cell_kind services" by unfold_locales (simp add: services_def)
lemma cell_kind_info_sources: "cell_kind info_sources" by unfold_locales (simp add: info_sources_def)
lemma cell_kind_info_items: "cell_kind info_items" by unfold_locales (simp add: info_items_def)
lemma cell_kind_descriptors: "cell_kind descriptors" by unfold_locales (simp add: descriptors_def)
lemma cell_kind_specs: "cell_kind specs" by unfold_locales (simp add: specs_def)
lemma cell_kind_component_lists: "cell_kind component_lists" by unfold_locales (simp add: component_lists_def)
lemma cell_kind_app_statuses: "cell_kind app_statuses" by unfold_locales (simp add: app_statuses_def)
lemma cell_kind_applications: "cell_kind applications" by unfold_locales (simp add: applications_def)
lemma cell_kind_application_lists: "cell_kind application_lists" by unfold_locales (simp add: application_lists_def)

end
