(* ===== verification/Deep_Copy.thy ===== *)
theory Deep_Copy
  imports Api_Memory
begin

text \<open>
  The generated deep copies (api/v1beta1/zz_generated.deepcopy.go), statement by statement over
  the memory of Go_Memory.  \<open>T_DeepCopyInto\<close> takes the struct \<open>*in\<close> and returns what the body has
  stored in \<open>*out\<close> (a variable other than \<open>*in\<close>, as it is wherever the program copies);
  \<open>T_DeepCopy\<close> takes and returns a pointer.  The copies of ObjectMeta, ListMeta, LabelSelector and
  Time belong to k8s.io/apimachinery: they are fields of the record \<open>apimachinery\<close>, and the law
  \<open>apimachinery_law\<close> is what their documentation promises.
\<close>

record 'x apimachinery =
  ObjectMeta_DeepCopyInto :: "('x cell, 'x) copier"
  ObjectMeta_view :: "('x cell, 'x, ObjectMeta) viewer"
  ListMeta_DeepCopyInto :: "('x cell, 'x) copier"
  ListMeta_view :: "('x cell, 'x, ListMeta) viewer"
  LabelSelector_DeepCopyInto :: "('x cell, 'x) copier"
  LabelSelector_view :: "('x cell, 'x, LabelSelector) viewer"
  Time_DeepCopyInto :: "('x cell, int) copier"

definition apimachinery_law :: "'x apimachinery \<Rightarrow> bool" where
  "apimachinery_law E \<longleftrightarrow>
     deep_copier (ObjectMeta_DeepCopyInto E) (ObjectMeta_view E) \<and>
     deep_copier (ListMeta_DeepCopyInto E) (ListMeta_view E) \<and>
     deep_copier (LabelSelector_DeepCopyInto E) (LabelSelector_view E) \<and>
     deep_copier (Time_DeepCopyInto E) flat_view"

section \<open>The leaf structs\<close>

definition ImageSpec_DeepCopyInto :: "('c, ImageSpec) copier" where
  "ImageSpec_DeepCopyInto x M = Some (x, M)"

definition ContactData_DeepCopyInto :: "('c, ContactData) copier" where
  "ContactData_DeepCopyInto x M = Some (x, M)"

definition Link_DeepCopyInto :: "('c, Link) copier" where
  "Link_DeepCopyInto x M = Some (x, M)"

definition ObjectStatus_DeepCopyInto :: "('c, ObjectStatus) copier" where
  "ObjectStatus_DeepCopyInto x M = Some (x, M)"

definition ConfigMapKeySelector_DeepCopyInto :: "('c, ConfigMapKeySelector) copier" where
  "ConfigMapKeySelector_DeepCopyInto x M = Some (x\<lparr>cmks_ObjectReference := cmks_ObjectReference x\<rparr>, M)"

definition SecretKeySelector_DeepCopyInto :: "('c, SecretKeySelector) copier" where
  "SecretKeySelector_DeepCopyInto x M = Some (x\<lparr>sks_ObjectReference := sks_ObjectReference x\<rparr>, M)"

definition IngressSelector_DeepCopyInto :: "('c, IngressSelector) copier" where
  "IngressSelector_DeepCopyInto x M = Some (x\<lparr>is_ObjectReference := is_ObjectReference x\<rparr>, M)"

section \<open>DeepCopyInto\<close>

definition Condition_DeepCopyInto :: "'x apimachinery \<Rightarrow> ('x cell, Condition) copier" where
  "Condition_DeepCopyInto E x M =
     do { (t, M1) \<leftarrow> Time_DeepCopyInto E (cond_LastUpdateTime x) M;
          (u, M2) \<leftarrow> Time_DeepCopyInto E (cond_LastTransitionTime x) M1;
          Some (x\<lparr>cond_LastUpdateTime := t, cond_LastTransitionTime := u\<rparr>, M2) }"

definition ServiceSelector_DeepCopyInto :: "('x cell, mServiceSelector) copier" where
  "ServiceSelector_DeepCopyInto x M =
     do { (p, M1) \<leftarrow> copy_new int32s flat_copy (mss_Port x) M;
          Some (x\<lparr>mss_ObjectReference := mss_ObjectReference x, mss_Port := p\<rparr>, M1) }"

definition InfoItemSource_DeepCopyInto :: "('x cell, mInfoItemSource) copier" where
  "InfoItemSource_DeepCopyInto x M =
     do { (p, M1) \<leftarrow> copy_new secrets flat_copy (msrc_SecretKeyRef x) M;
          (q, M2) \<leftarrow> copy_new config_maps flat_copy (msrc_ConfigMapKeyRef x) M1;
          (r, M3) \<leftarrow> copy_new services ServiceSelector_DeepCopyInto (msrc_ServiceRef x) M2;
          (s, M4) \<leftarrow> copy_new ingresses flat_copy (msrc_IngressRef x) M3;
          Some (x\<lparr>msrc_SecretKeyRef := p, msrc_ConfigMapKeyRef := q, msrc_ServiceRef := r, msrc_IngressRef := s\<rparr>, M4) }"

definition InfoItem_DeepCopyInto :: "('x cell, mInfoItem) copier" where
  "InfoItem_DeepCopyInto x M =
     do { (p, M1) \<leftarrow> copy_new info_sources InfoItemSource_DeepCopyInto (minfo_ValueFrom x) M;
          Some (x\<lparr>minfo_ValueFrom := p\<rparr>, M1) }"

definition Descriptor_DeepCopyInto :: "('x cell, mDescriptor) copier" where
  "Descriptor_DeepCopyInto x M =
     do { (s1, M1) \<leftarrow> copy_flat_slice images (mdesc_Icons x) M;
          (s2, M2) \<leftarrow> copy_flat_slice contacts (mdesc_Maintainers x) M1;
          (s3, M3) \<leftarrow> copy_flat_slice contacts (mdesc_Owners x) M2;
          (s4, M4) \<leftarrow> copy_flat_slice strings (mdesc_Keywords x) M3;
          (s5, M5) \<leftarrow> copy_flat_slice links (mdesc_Links x) M4;
          Some (x\<lparr>mdesc_Icons := s1, mdesc_Maintainers := s2, mdesc_Owners := s3, mdesc_Keywords := s4,
            mdesc_Links := s5\<rparr>, M5) }"

definition ApplicationSpec_DeepCopyInto :: "'x :: zero apimachinery \<Rightarrow> ('x cell, mApplicationSpec) copier" where
  "ApplicationSpec_DeepCopyInto E x M =
     do { (s, M1) \<leftarrow> copy_flat_slice group_kinds (mspec_ComponentGroupKinds x) M;
          (d, M2) \<leftarrow> Descriptor_DeepCopyInto (mspec_Descriptor x) M1;
          (p, M3) \<leftarrow> copy_new externs (LabelSelector_DeepCopyInto E) (mspec_Selector x) M2;
          (t, M4) \<leftarrow> copy_slice info_items InfoItem_DeepCopyInto (mspec_Info x) M3;
          Some (x\<lparr>mspec_ComponentGroupKinds := s, mspec_Descriptor := d, mspec_Selector := p, mspec_Info := t\<rparr>, M4) }"

definition ComponentList_DeepCopyInto :: "('x cell, mComponentList) copier" where
  "ComponentList_DeepCopyInto x M =
     do { (s, M1) \<leftarrow> copy_flat_slice object_statuses (mcl_Objects x) M; Some (x\<lparr>mcl_Objects := s\<rparr>, M1) }"

definition ApplicationStatus_DeepCopyInto :: "'x apimachinery \<Rightarrow> ('x cell, mApplicationStatus) copier" where
  "ApplicationStatus_DeepCopyInto E x M =
     do { (s, M1) \<leftarrow> copy_slice conditions (Condition_DeepCopyInto E) (mst_Conditions x) M;
          (c, M2) \<leftarrow> ComponentList_DeepCopyInto (mst_ComponentList x) M1;
          Some (x\<lparr>mst_Conditions := s, mst_ComponentList := c\<rparr>, M2) }"

definition Application_DeepCopyInto :: "'x :: zero apimachinery \<Rightarrow> ('x cell, 'x mApplication) copier" where
  "Application_DeepCopyInto E x M =
     do { (m, M1) \<leftarrow> ObjectMeta_DeepCopyInto E (mapp_Meta x) M;
          (s, M2) \<leftarrow> ApplicationSpec_DeepCopyInto E (mapp_Spec x) M1;
          (t, M3) \<leftarrow> ApplicationStatus_DeepCopyInto E (mapp_Status x) M2;
          Some (x\<lparr>mapp_TypeMeta := mapp_TypeMeta x, mapp_Meta := m, mapp_Spec := s, mapp_Status := t\<rparr>, M3) }"

definition ApplicationList_DeepCopyInto :: "'x :: zero apimachinery \<Rightarrow> ('x cell, 'x mApplicationList) copier" where
  "ApplicationList_DeepCopyInto E x M =
     do { (m, M1) \<leftarrow> ListMeta_DeepCopyInto E (mal_ListMeta x) M;
          (s, M2) \<leftarrow> copy_slice applications (Application_DeepCopyInto E) (mal_Items x) M1;
          Some (x\<lparr>mal_TypeMeta := mal_TypeMeta x, mal_ListMeta := m, mal_Items := s\<rparr>, M2) }"

section \<open>DeepCopy\<close>

definition ImageSpec_DeepCopy :: "('x cell, pointer) copier" where
  "ImageSpec_DeepCopy = copy_new images ImageSpec_DeepCopyInto"

definition ContactData_DeepCopy :: "('x cell, pointer) copier" where
  "ContactData_DeepCopy = copy_new contacts ContactData_DeepCopyInto"

definition Link_DeepCopy :: "('x cell, pointer) copier" where
  "Link_DeepCopy = copy_new links Link_DeepCopyInto"

definition ObjectStatus_DeepCopy :: "('x cell, pointer) copier" where
  "ObjectStatus_DeepCopy = copy_new object_statuses ObjectStatus_DeepCopyInto"

definition ConfigMapKeySelector_DeepCopy :: "('x cell, pointer) copier" where
  "ConfigMapKeySelector_DeepCopy = copy_new config_maps ConfigMapKeySelector_DeepCopyInto"

definition SecretKeySelector_DeepCopy :: "('x cell, pointer) copier" where
  "SecretKeySelector_DeepCopy = copy_new secrets SecretKeySelector_DeepCopyInto"

definition IngressSelector_DeepCopy :: "('x cell, pointer) copier" where
  "IngressSelector_DeepCopy = copy_new ingresses IngressSelector_DeepCopyInto"

definition Condition_DeepCopy :: "'x apimachinery \<Rightarrow> ('x cell, pointer) copier" where
  "Condition_DeepCopy E = copy_new conditions (Condition_DeepCopyInto E)"

definition ServiceSelector_DeepCopy :: "('x cell, pointer) copier" where
  "ServiceSelector_DeepCopy = copy_new services ServiceSelector_DeepCopyInto"

definition InfoItemSource_DeepCopy :: "('x cell, pointer) copier" where
  "InfoItemSource_DeepCopy = copy_new info_sources InfoItemSource_DeepCopyInto"

definition InfoItem_DeepCopy :: "('x cell, pointer) copier" where
  "InfoItem_DeepCopy = copy_new info_items InfoItem_DeepCopyInto"

definition Descriptor_DeepCopy :: "('x cell, pointer) copier" where
  "Descriptor_DeepCopy = copy_new descriptors Descriptor_DeepCopyInto"

definition ApplicationSpec_DeepCopy :: "'x :: zero apimachinery \<Rightarrow> ('x cell, pointer) copier" where
  "ApplicationSpec_DeepCopy E = copy_new specs (ApplicationSpec_DeepCopyInto E)"

definition ComponentList_DeepCopy :: "('x cell, pointer) copier" where
  "ComponentList_DeepCopy = copy_new component_lists ComponentList_DeepCopyInto"

definition ApplicationStatus_DeepCopy :: "'x apimachinery \<Rightarrow> ('x cell, pointer) copier" where
  "ApplicationStatus_DeepCopy E = copy_new app_statuses (ApplicationStatus_DeepCopyInto E)"

definition Application_DeepCopy :: "'x :: zero apimachinery \<Rightarrow> ('x cell, pointer) copier" where
  "Application_DeepCopy E = copy_new applications (Application_DeepCopyInto E)"

definition ApplicationList_DeepCopy :: "'x :: zero apimachinery \<Rightarrow> ('x cell, pointer) copier" where
  "ApplicationList_DeepCopy E = copy_new application_lists (ApplicationList_DeepCopyInto E)"

text \<open>
  A value of the interface runtime.Object: nil, or a dynamic type with a pointer.  An interface
  that holds a nil pointer is not nil.
\<close>

datatype runtime_object = NilObject | ApplicationObject pointer | ApplicationListObject pointer

definition Application_DeepCopyObject :: "'x :: zero apimachinery \<Rightarrow> pointer \<Rightarrow> 'x cell memory \<Rightarrow>
    (runtime_object \<times> 'x cell memory) option" where
  "Application_DeepCopyObject E p M =
     do { (c, M1) \<leftarrow> Application_DeepCopy E p M;
          if c \<noteq> None then Some (ApplicationObject c, M1) else Some (NilObject, M1) }"

definition ApplicationList_DeepCopyObject :: "'x :: zero apimachinery \<Rightarrow> pointer \<Rightarrow> 'x cell memory \<Rightarrow>
    (runtime_object \<times> 'x cell memory) option" where
  "ApplicationList_DeepCopyObject E p M =
     do { (c, M1) \<leftarrow> ApplicationList_DeepCopy E p M;
          if c \<noteq> None then Some (ApplicationListObject c, M1) else Some (NilObject, M1) }"

end
