(* ===== verification/Deep_Copy_Facts.thy ===== *)
theory Deep_Copy_Facts
  imports Deep_Copy
begin

text \<open>
  What the generated copies promise.  For each struct a view gives the value of Api_Types that it
  denotes in memory, with every address it reaches; each DeepCopyInto is a \<open>deep_copier\<close> for its
  view, put together from the contracts of pointers, slices and pairs of fields.
\<close>

section \<open>What the structs denote\<close>

definition ServiceSelector_view :: "('x cell, mServiceSelector, ServiceSelector) viewer" where
  "ServiceSelector_view =
     view_field mss_Port
       (\<lambda>p s. \<lparr>ss_ObjectReference = mss_ObjectReference s, ss_Port = p, ss_Path = mss_Path s,
          ss_Protocol = mss_Protocol s\<rparr>)
       (view_pointer int32s flat_view)"

definition InfoItemSource_view :: "('x cell, mInfoItemSource, InfoItemSource) viewer" where
  "InfoItemSource_view =
     view_field (\<lambda>s. (msrc_SecretKeyRef s, msrc_ConfigMapKeyRef s, msrc_ServiceRef s, msrc_IngressRef s))
       (\<lambda>(p, q, r, t) s. \<lparr>src_Type = msrc_Type s, src_SecretKeyRef = p, src_ConfigMapKeyRef = q,
          src_ServiceRef = r, src_IngressRef = t\<rparr>)
       (view_pair (view_pointer secrets flat_view)
         (view_pair (view_pointer config_maps flat_view)
           (view_pair (view_pointer services ServiceSelector_view) (view_pointer ingresses flat_view))))"

definition InfoItem_view :: "('x cell, mInfoItem, InfoItem) viewer" where
  "InfoItem_view =
     view_field minfo_ValueFrom
       (\<lambda>p s. \<lparr>info_Name = minfo_Name s, info_Type = minfo_Type s, info_Value = minfo_Value s, info_ValueFrom = p\<rparr>)
       (view_pointer info_sources InfoItemSource_view)"

definition Descriptor_view :: "('x cell, mDescriptor, Descriptor) viewer" where
  "Descriptor_view =
     view_field (\<lambda>s. (mdesc_Icons s, mdesc_Maintainers s, mdesc_Owners s, mdesc_Keywords s, mdesc_Links s))
       (\<lambda>(a, b, c, d, e) s. \<lparr>desc_Type = mdesc_Type s, desc_Version = mdesc_Version s,
          desc_Description = mdesc_Description s, desc_Icons = a, desc_Maintainers = b, desc_Owners = c,
          desc_Keywords = d, desc_Links = e, desc_Notes = mdesc_Notes s\<rparr>)
       (view_pair (view_slice images flat_view)
         (view_pair (view_slice contacts flat_view)
           (view_pair (view_slice contacts flat_view)
             (view_pair (view_slice strings flat_view) (view_slice links flat_view)))))"

definition ApplicationSpec_view :: "'x apimachinery \<Rightarrow> ('x cell, mApplicationSpec, ApplicationSpec) viewer" where
  "ApplicationSpec_view E =
     view_field (\<lambda>s. (mspec_ComponentGroupKinds s, mspec_Descriptor s, mspec_Selector s, mspec_Info s))
       (\<lambda>(a, b, c, d) s. \<lparr>spec_ComponentGroupKinds = a, spec_Descriptor = b, spec_Selector = c,
          spec_AddOwnerRef = mspec_AddOwnerRef s, spec_Info = d, spec_AssemblyPhase = mspec_AssemblyPhase s\<rparr>)
       (view_pair (view_slice group_kinds flat_view)
         (view_pair Descriptor_view
           (view_pair (view_pointer externs (LabelSelector_view E)) (view_slice info_items InfoItem_view))))"

definition ComponentList_view :: "('x cell, mComponentList, ComponentList) viewer" where
  "ComponentList_view = view_field mcl_Objects (\<lambda>s c. \<lparr>cl_Objects = s\<rparr>) (view_slice object_statuses flat_view)"

definition ApplicationStatus_view :: "('x cell, mApplicationStatus, ApplicationStatus) viewer" where
  "ApplicationStatus_view =
     view_field (\<lambda>s. (mst_Conditions s, mst_ComponentList s))
       (\<lambda>(a, b) s. \<lparr>st_ObservedGeneration = mst_ObservedGeneration s, st_Conditions = a, st_ComponentList = b,
          st_ComponentsReady = mst_ComponentsReady s\<rparr>)
       (view_pair (view_slice conditions flat_view) ComponentList_view)"

definition Application_view :: "'x apimachinery \<Rightarrow> ('x cell, 'x mApplication, Application) viewer" where
  "Application_view E =
     view_field (\<lambda>s. (mapp_Meta s, mapp_Spec s, mapp_Status s))
       (\<lambda>(a, b, c) s. \<lparr>app_TypeMeta = mapp_TypeMeta s, app_Meta = a, app_Spec = b, app_Status = c\<rparr>)
       (view_pair (ObjectMeta_view E) (view_pair (ApplicationSpec_view E) ApplicationStatus_view))"

definition ApplicationList_view :: "'x apimachinery \<Rightarrow> ('x cell, 'x mApplicationList, ApplicationList) viewer" where
  "ApplicationList_view E =
     view_field (\<lambda>s. (mal_ListMeta s, mal_Items s))
       (\<lambda>(a, b) s. \<lparr>al_TypeMeta = mal_TypeMeta s, al_ListMeta = a, al_Items = b\<rparr>)
       (view_pair (ListMeta_view E) (view_slice applications (Application_view E)))"

section \<open>Every DeepCopyInto is a deep copy\<close>

lemmas cell_kinds = cell_kind_images cell_kind_contacts cell_kind_links cell_kind_strings cell_kind_group_kinds
  cell_kind_object_statuses cell_kind_config_maps cell_kind_secrets cell_kind_ingresses cell_kind_int32s
  cell_kind_externs cell_kind_conditions cell_kind_services cell_kind_info_sources cell_kind_info_items
  cell_kind_descriptors cell_kind_specs cell_kind_component_lists cell_kind_app_statuses cell_kind_applications
  cell_kind_application_lists

lemmas copy_shape = copy_field_def copy_pair_def case_prod_unfold

lemma flat_into:
  "ImageSpec_DeepCopyInto = flat_copy" "ContactData_DeepCopyInto = flat_copy" "Link_DeepCopyInto = flat_copy"
  "ObjectStatus_DeepCopyInto = flat_copy" "ConfigMapKeySelector_DeepCopyInto = flat_copy"
  "SecretKeySelector_DeepCopyInto = flat_copy" "IngressSelector_DeepCopyInto = flat_copy"
  by (simp_all add: fun_eq_iff flat_copy_def ImageSpec_DeepCopyInto_def ContactData_DeepCopyInto_def
      Link_DeepCopyInto_def ObjectStatus_DeepCopyInto_def ConfigMapKeySelector_DeepCopyInto_def
      SecretKeySelector_DeepCopyInto_def IngressSelector_DeepCopyInto_def)

lemma ServiceSelector_into:
  "ServiceSelector_DeepCopyInto = copy_field mss_Port (\<lambda>p s. s\<lparr>mss_Port := p\<rparr>) (copy_new int32s flat_copy)"
  by (intro ext) (simp add: ServiceSelector_DeepCopyInto_def copy_shape)

lemma deep_copier_ServiceSelector: "deep_copier ServiceSelector_DeepCopyInto ServiceSelector_view"
  unfolding ServiceSelector_into ServiceSelector_view_def
  by (intro deep_copier_field copier_rules cell_kinds) simp_all

interpretation service_selector: array_copier services ServiceSelector_DeepCopyInto ServiceSelector_view
  by (intro array_copier.intro cell_kinds deep_copier_ServiceSelector)

lemma InfoItemSource_into:
  "InfoItemSource_DeepCopyInto =
     copy_field (\<lambda>s. (msrc_SecretKeyRef s, msrc_ConfigMapKeyRef s, msrc_ServiceRef s, msrc_IngressRef s))
       (\<lambda>(p, q, r, t) s. s\<lparr>msrc_SecretKeyRef := p, msrc_ConfigMapKeyRef := q, msrc_ServiceRef := r, msrc_IngressRef := t\<rparr>)
       (copy_pair (copy_new secrets flat_copy)
         (copy_pair (copy_new config_maps flat_copy)
           (copy_pair (copy_new services ServiceSelector_DeepCopyInto) (copy_new ingresses flat_copy))))"
  by (intro ext) (simp add: InfoItemSource_DeepCopyInto_def copy_shape)

lemma deep_copier_InfoItemSource: "deep_copier InfoItemSource_DeepCopyInto InfoItemSource_view"
  unfolding InfoItemSource_into InfoItemSource_view_def
  by (intro deep_copier_field copier_rules cell_kinds deep_copier_ServiceSelector) auto

lemma InfoItem_into:
  "InfoItem_DeepCopyInto =
     copy_field minfo_ValueFrom (\<lambda>p s. s\<lparr>minfo_ValueFrom := p\<rparr>) (copy_new info_sources InfoItemSource_DeepCopyInto)"
  by (intro ext) (simp add: InfoItem_DeepCopyInto_def copy_shape)

lemma deep_copier_InfoItem: "deep_copier InfoItem_DeepCopyInto InfoItem_view"
  unfolding InfoItem_into InfoItem_view_def
  by (intro deep_copier_field copier_rules cell_kinds deep_copier_InfoItemSource) simp_all

lemma Descriptor_into:
  "Descriptor_DeepCopyInto =
     copy_field (\<lambda>s. (mdesc_Icons s, mdesc_Maintainers s, mdesc_Owners s, mdesc_Keywords s, mdesc_Links s))
       (\<lambda>(a, b, c, d, e) s. s\<lparr>mdesc_Icons := a, mdesc_Maintainers := b, mdesc_Owners := c, mdesc_Keywords := d,
          mdesc_Links := e\<rparr>)
       (copy_pair (copy_flat_slice images)
         (copy_pair (copy_flat_slice contacts)
           (copy_pair (copy_flat_slice contacts) (copy_pair (copy_flat_slice strings) (copy_flat_slice links)))))"
  by (intro ext) (simp add: Descriptor_DeepCopyInto_def copy_shape)

lemma deep_copier_Descriptor: "deep_copier Descriptor_DeepCopyInto Descriptor_view"
  unfolding Descriptor_into Descriptor_view_def
  by (intro deep_copier_field copier_rules cell_kinds) auto

lemma ApplicationSpec_into:
  "ApplicationSpec_DeepCopyInto E =
     copy_field (\<lambda>s. (mspec_ComponentGroupKinds s, mspec_Descriptor s, mspec_Selector s, mspec_Info s))
       (\<lambda>(a, b, c, d) s. s\<lparr>mspec_ComponentGroupKinds := a, mspec_Descriptor := b, mspec_Selector := c, mspec_Info := d\<rparr>)
       (copy_pair (copy_flat_slice group_kinds)
         (copy_pair Descriptor_DeepCopyInto
           (copy_pair (copy_new externs (LabelSelector_DeepCopyInto E)) (copy_slice info_items InfoItem_DeepCopyInto))))"
  by (intro ext) (simp add: ApplicationSpec_DeepCopyInto_def copy_shape)

lemma deep_copier_ApplicationSpec:
  "apimachinery_law E \<Longrightarrow> deep_copier (ApplicationSpec_DeepCopyInto E) (ApplicationSpec_view E)"
  unfolding ApplicationSpec_into ApplicationSpec_view_def apimachinery_law_def
  by (intro deep_copier_field copier_rules cell_kinds deep_copier_Descriptor deep_copier_InfoItem) auto

lemma ComponentList_into:
  "ComponentList_DeepCopyInto = copy_field mcl_Objects (\<lambda>s c. c\<lparr>mcl_Objects := s\<rparr>) (copy_flat_slice object_statuses)"
  by (intro ext) (simp add: ComponentList_DeepCopyInto_def copy_shape)

lemma deep_copier_ComponentList: "deep_copier ComponentList_DeepCopyInto ComponentList_view"
  unfolding ComponentList_into ComponentList_view_def
  by (intro deep_copier_field copier_rules cell_kinds) simp_all

text \<open>A Condition is plain data to a reader; its copy goes through the two times.\<close>

lemma Condition_into:
  "Condition_DeepCopyInto E =
     copy_field (\<lambda>s. (cond_LastUpdateTime s, cond_LastTransitionTime s))
       (\<lambda>(t, u) s. s\<lparr>cond_LastUpdateTime := t, cond_LastTransitionTime := u\<rparr>)
       (copy_pair (Time_DeepCopyInto E) (Time_DeepCopyInto E))"
  by (intro ext) (simp add: Condition_DeepCopyInto_def copy_shape)

lemma Condition_flat_view:
  "(flat_view :: ('c, Condition, Condition) viewer) =
     view_field (\<lambda>s. (cond_LastUpdateTime s, cond_LastTransitionTime s))
       (\<lambda>(t, u) s. s\<lparr>cond_LastUpdateTime := t, cond_LastTransitionTime := u\<rparr>) (view_pair flat_view flat_view)"
  by (intro ext) (simp add: view_field_def view_pair_def flat_view_def)

lemma deep_copier_Condition:
  "apimachinery_law E \<Longrightarrow> deep_copier (Condition_DeepCopyInto E) flat_view"
  unfolding Condition_into Condition_flat_view apimachinery_law_def
  by (intro deep_copier_field copier_rules) auto

lemma ApplicationStatus_into:
  "ApplicationStatus_DeepCopyInto E =
     copy_field (\<lambda>s. (mst_Conditions s, mst_ComponentList s))
       (\<lambda>(a, b) s. s\<lparr>mst_Conditions := a, mst_ComponentList := b\<rparr>)
       (copy_pair (copy_slice conditions (Condition_DeepCopyInto E)) ComponentList_DeepCopyInto)"
  by (intro ext) (simp add: ApplicationStatus_DeepCopyInto_def copy_shape)

lemma deep_copier_ApplicationStatus:
  "apimachinery_law E \<Longrightarrow> deep_copier (ApplicationStatus_DeepCopyInto E) ApplicationStatus_view"
  unfolding ApplicationStatus_into ApplicationStatus_view_def
  by (intro deep_copier_field copier_rules cell_kinds deep_copier_Condition deep_copier_ComponentList) auto

lemma Application_into:
  "Application_DeepCopyInto E =
     copy_field (\<lambda>s. (mapp_Meta s, mapp_Spec s, mapp_Status s))
       (\<lambda>(a, b, c) s. s\<lparr>mapp_Meta := a, mapp_Spec := b, mapp_Status := c\<rparr>)
       (copy_pair (ObjectMeta_DeepCopyInto E)
         (copy_pair (ApplicationSpec_DeepCopyInto E) (ApplicationStatus_DeepCopyInto E)))"
  by (intro ext) (simp add: Application_DeepCopyInto_def copy_shape)

lemma deep_copier_Application:
  "apimachinery_law E \<Longrightarrow> deep_copier (Application_DeepCopyInto E) (Application_view E)"
  unfolding Application_into Application_view_def
  by (intro deep_copier_field copier_rules deep_copier_ApplicationSpec deep_copier_ApplicationStatus)
    (auto simp: apimachinery_law_def)

lemma ApplicationList_into:
  "ApplicationList_DeepCopyInto E =
     copy_field (\<lambda>s. (mal_ListMeta s, mal_Items s)) (\<lambda>(a, b) s. s\<lparr>mal_ListMeta := a, mal_Items := b\<rparr>)
       (copy_pair (ListMeta_DeepCopyInto E) (copy_slice applications (Application_DeepCopyInto E)))"
  by (intro ext) (simp add: ApplicationList_DeepCopyInto_def copy_shape)

lemma deep_copier_ApplicationList:
  "apimachinery_law E \<Longrightarrow> deep_copier (ApplicationList_DeepCopyInto E) (ApplicationList_view E)"
  unfolding ApplicationList_into ApplicationList_view_def
  by (intro deep_copier_field copier_rules cell_kinds deep_copier_Application) (auto simp: apimachinery_law_def)

section \<open>The methods\<close>

interpretation descriptor: deep_copier Descriptor_DeepCopyInto Descriptor_view
  by (rule deep_copier_Descriptor)

interpretation info_item: array_copier info_items InfoItem_DeepCopyInto InfoItem_view
  by (intro array_copier.intro cell_kinds deep_copier_InfoItem)

lemmas DeepCopy_defs = ImageSpec_DeepCopy_def ContactData_DeepCopy_def Link_DeepCopy_def
  ObjectStatus_DeepCopy_def ConfigMapKeySelector_DeepCopy_def SecretKeySelector_DeepCopy_def
  IngressSelector_DeepCopy_def ServiceSelector_DeepCopy_def InfoItemSource_DeepCopy_def InfoItem_DeepCopy_def
  Descriptor_DeepCopy_def ComponentList_DeepCopy_def Condition_DeepCopy_def ApplicationSpec_DeepCopy_def
  ApplicationStatus_DeepCopy_def Application_DeepCopy_def ApplicationList_DeepCopy_def

text \<open>
  C5: every DeepCopy method of the package is a deep copy: run on a well-formed memory it returns
  a pointer to a struct that denotes the same value, with every pointer, slice and nested struct
  in cells that did not exist before; nothing else in memory changes, and nil gives nil.  The
  types without methods of their own below them need no assumption; those that contain an
  ObjectMeta, a ListMeta, a LabelSelector or a Time need the documented one about its copy.
\<close>

theorem generated_copies_are_deep:
  assumes "apimachinery_law (E :: 'x :: zero apimachinery)"
  shows "deep_copier (ImageSpec_DeepCopy :: ('x cell, pointer) copier) (view_pointer images flat_view) \<and>
    deep_copier (ContactData_DeepCopy :: ('x cell, pointer) copier) (view_pointer contacts flat_view) \<and>
    deep_copier (Link_DeepCopy :: ('x cell, pointer) copier) (view_pointer links flat_view) \<and>
    deep_copier (ObjectStatus_DeepCopy :: ('x cell, pointer) copier) (view_pointer object_statuses flat_view) \<and>
    deep_copier (ConfigMapKeySelector_DeepCopy :: ('x cell, pointer) copier) (view_pointer config_maps flat_view) \<and>
    deep_copier (SecretKeySelector_DeepCopy :: ('x cell, pointer) copier) (view_pointer secrets flat_view) \<and>
    deep_copier (IngressSelector_DeepCopy :: ('x cell, pointer) copier) (view_pointer ingresses flat_view) \<and>
    deep_copier (ServiceSelector_DeepCopy :: ('x cell, pointer) copier) (view_pointer services ServiceSelector_view) \<and>
    deep_copier (InfoItemSource_DeepCopy :: ('x cell, pointer) copier) (view_pointer info_sources InfoItemSource_view) \<and>
    deep_copier (InfoItem_DeepCopy :: ('x cell, pointer) copier) (view_pointer info_items InfoItem_view) \<and>
    deep_copier (Descriptor_DeepCopy :: ('x cell, pointer) copier) (view_pointer descriptors Descriptor_view) \<and>
    deep_copier (ComponentList_DeepCopy :: ('x cell, pointer) copier) (view_pointer component_lists ComponentList_view) \<and>
    deep_copier (Condition_DeepCopy E) (view_pointer conditions flat_view) \<and>
    deep_copier (ApplicationSpec_DeepCopy E) (view_pointer specs (ApplicationSpec_view E)) \<and>
    deep_copier (ApplicationStatus_DeepCopy E) (view_pointer app_statuses ApplicationStatus_view) \<and>
    deep_copier (Application_DeepCopy E) (view_pointer applications (Application_view E)) \<and>
    deep_copier (ApplicationList_DeepCopy E) (view_pointer application_lists (ApplicationList_view E))"
  unfolding DeepCopy_defs flat_into
  by (intro conjI copier_rules cell_kinds deep_copier_ServiceSelector deep_copier_InfoItemSource deep_copier_InfoItem
      deep_copier_Descriptor deep_copier_ComponentList deep_copier_Condition [OF assms]
      deep_copier_ApplicationSpec [OF assms] deep_copier_ApplicationStatus [OF assms]
      deep_copier_Application [OF assms] deep_copier_ApplicationList [OF assms])

text \<open>
  C4: an Application and its DeepCopy share nothing.  Both denote the same value; any later writes
  through the copy (to cells that the copy reaches, or to new ones) leave the original's value as
  it was, and any writes through the original leave the copy's.
\<close>

theorem Application_DeepCopy_independent:
  fixes E :: "'x :: zero apimachinery"
  assumes E: "apimachinery_law E" and M: "mem_ok M"
    and p: "view_pointer applications (Application_view E) p M = Some (w, R)"
  shows "\<exists>q M' R'. Application_DeepCopy E p M = Some (q, M') \<and>
    view_pointer applications (Application_view E) q M' = Some (w, R') \<and> R \<inter> R' = {} \<and>
    (\<forall>N. writes_only R' M' N \<longrightarrow> view_pointer applications (Application_view E) p N = Some (w, R)) \<and>
    (\<forall>N. writes_only R M' N \<longrightarrow> view_pointer applications (Application_view E) q N = Some (w, R'))"
proof -
  note dc = deep_copier_new [OF cell_kind_applications deep_copier_Application [OF E]]
  obtain q M' R' where q: "copy_new applications (Application_DeepCopyInto E) p M = Some (q, M')" "mem_ok M'"
      "view_pointer applications (Application_view E) q M' = Some (w, R')"
    using deep_copier.copies [OF dc M p] by blast
  note ind = deep_copier.copy_independent [OF dc M p q(1,3)]
  have "view_pointer applications (Application_view E) p N = Some (w, R)" if "writes_only R' M' N" for N
    using deep_copier.view_writes_only [OF dc q(2) ind(3) that] ind(2) by blast
  moreover have "view_pointer applications (Application_view E) q N = Some (w, R')" if "writes_only R M' N" for N
    using deep_copier.view_writes_only [OF dc q(2,3) that] ind(2) by blast
  ultimately show ?thesis using q ind(2) unfolding Application_DeepCopy_def by blast
qed

text \<open>
  DeepCopyObject returns the nil interface for a nil pointer, never an interface that holds a
  nil pointer (which would pass a comparison with nil); otherwise it is the deep copy, as an object
  of its own type.
\<close>

lemma DeepCopyObject_not_typed_nil:
  fixes E :: "'x :: zero apimachinery"
  assumes E: "apimachinery_law E" and M: "mem_ok M"
  shows "(view_pointer applications (Application_view E) p M = Some (w, R) \<longrightarrow>
      (\<exists>c M' R'. Application_DeepCopyObject E p M = Some (if p = None then NilObject else ApplicationObject c, M') \<and>
         (c = None \<longleftrightarrow> p = None) \<and> view_pointer applications (Application_view E) c M' = Some (w, R'))) \<and>
    (view_pointer application_lists (ApplicationList_view E) p M = Some (u, R) \<longrightarrow>
      (\<exists>c M' R'. ApplicationList_DeepCopyObject E p M =
           Some (if p = None then NilObject else ApplicationListObject c, M') \<and>
         (c = None \<longleftrightarrow> p = None) \<and> view_pointer application_lists (ApplicationList_view E) c M' = Some (u, R')))"
proof -
  note dc = deep_copier.copies [OF deep_copier_new [OF cell_kind_applications deep_copier_Application [OF E]] M, of p w R]
    and dcl = deep_copier.copies [OF deep_copier_new [OF cell_kind_application_lists deep_copier_ApplicationList [OF E]] M,
      of p u R]
  have nil: "view_pointer k vw p M = Some (x, R) \<Longrightarrow> x = None \<longleftrightarrow> p = None"
      for k :: "('x cell, 'm) kind" and vw :: "('x cell, 'm, 'v) viewer" and p M x R
    by (auto simp: view_pointer_def bind_eq_Some_conv split: option.splits)
  show ?thesis
  proof (intro conjI impI)
    assume p: "view_pointer applications (Application_view E) p M = Some (w, R)"
    then obtain c M' R' where "copy_new applications (Application_DeepCopyInto E) p M = Some (c, M')"
        "view_pointer applications (Application_view E) c M' = Some (w, R')" using dc by blast
    then show "\<exists>c M' R'. Application_DeepCopyObject E p M = Some (if p = None then NilObject else ApplicationObject c, M') \<and>
        (c = None \<longleftrightarrow> p = None) \<and> view_pointer applications (Application_view E) c M' = Some (w, R')"
      using nil [OF p] nil [of applications _ c M' w R']
      by (intro exI [of _ c] exI [of _ M']) (auto simp: Application_DeepCopyObject_def Application_DeepCopy_def)
  next
    assume p: "view_pointer application_lists (ApplicationList_view E) p M = Some (u, R)"
    then obtain c M' R' where "copy_new application_lists (ApplicationList_DeepCopyInto E) p M = Some (c, M')"
        "view_pointer application_lists (ApplicationList_view E) c M' = Some (u, R')" using dcl by blast
    then show "\<exists>c M' R'. ApplicationList_DeepCopyObject E p M =
          Some (if p = None then NilObject else ApplicationListObject c, M') \<and>
        (c = None \<longleftrightarrow> p = None) \<and> view_pointer application_lists (ApplicationList_view E) c M' = Some (u, R')"
      using nil [OF p] nil [of application_lists _ c M' u R']
      by (intro exI [of _ c] exI [of _ M']) (auto simp: ApplicationList_DeepCopyObject_def ApplicationList_DeepCopy_def)
  qed
qed

section \<open>An example\<close>

text \<open>
  A memory with an Application in cell 0: its only condition in cell 1, an info item in cell 2 whose
  value comes from a Service with a port (cells 3, 4, 5), and a label selector (cell 6).  A foreign
  struct is here a pointer to a cell of its own, copied as such.
\<close>

definition example_apimachinery :: "pointer apimachinery" where
  "example_apimachinery = \<lparr>
     ObjectMeta_DeepCopyInto = copy_new externs flat_copy,
     ObjectMeta_view = view_field id
       (\<lambda>p s. \<lparr>om_Name = ''my-app'', om_Namespace = ''ns'', om_Generation = 3, om_DeletionTimestamp = None, om_Labels = []\<rparr>)
       (view_pointer externs flat_view),
     ListMeta_DeepCopyInto = copy_new externs flat_copy,
     ListMeta_view = view_field id (\<lambda>p s. \<lparr>lm_ResourceVersion = ''7'', lm_Continue = ''''\<rparr>) (view_pointer externs flat_view),
     LabelSelector_DeepCopyInto = copy_new externs flat_copy,
     LabelSelector_view = view_field id (\<lambda>p s. \<lparr>sel_MatchLabels = [], sel_MatchExpressions = []\<rparr>) (view_pointer externs flat_view),
     Time_DeepCopyInto = flat_copy\<rparr>"

lemma copy_field_id: "copy_field id (\<lambda>x _. x) f = f"
  by (intro ext) (simp add: copy_field_def)

lemma deep_copier_foreign:
  "deep_copier (copy_new externs (flat_copy :: (pointer cell, pointer) copier))
     (view_field id (\<lambda>p s. v) (view_pointer externs flat_view))"
  using deep_copier_field [OF deep_copier_new [OF cell_kind_externs deep_copier_flat], of id "\<lambda>x _. x" "\<lambda>p s. v"]
  by (simp add: copy_field_id)

lemma example_law: "apimachinery_law example_apimachinery"
  by (simp add: apimachinery_law_def example_apimachinery_def deep_copier_flat deep_copier_foreign)

definition example_condition :: Condition where
  "example_condition = \<lparr>cond_Type = Ready, cond_Status = ConditionFalse, cond_Reason = ''a'', cond_Message = ''b'',
     cond_LastUpdateTime = 5, cond_LastTransitionTime = 5\<rparr>"

definition example_struct :: "pointer mApplication" where
  "example_struct =
     \<lparr>mapp_TypeMeta = \<lparr>tm_Kind = ''Application'', tm_APIVersion = ''app.k8s.io/v1beta1''\<rparr>, mapp_Meta = None,
      mapp_Spec = \<lparr>mspec_ComponentGroupKinds = NilSlice, mspec_Descriptor = 0, mspec_Selector = Some (6, 0),
        mspec_AddOwnerRef = False, mspec_Info = Slice 2 0 1 1, mspec_AssemblyPhase = ''''\<rparr>,
      mapp_Status = \<lparr>mst_ObservedGeneration = 1, mst_Conditions = Slice 1 0 1 1,
        mst_ComponentList = \<lparr>mcl_Objects = NilSlice\<rparr>, mst_ComponentsReady = ''0/1''\<rparr>\<rparr>"

definition example_memory :: "pointer cell memory" where
  "example_memory = \<lparr>mem_next = 7, mem_cells = [
     0 \<mapsto> ApplicationCells [example_struct],
     1 \<mapsto> ConditionCells [example_condition],
     2 \<mapsto> InfoItemCells [\<lparr>minfo_Name = ''url'', minfo_Type = ''Reference'', minfo_Value = '''', minfo_ValueFrom = Some (3, 0)\<rparr>],
     3 \<mapsto> InfoSourceCells [\<lparr>msrc_Type = ''ServiceRef'', msrc_SecretKeyRef = None, msrc_ConfigMapKeyRef = None,
            msrc_ServiceRef = Some (4, 0), msrc_IngressRef = None\<rparr>],
     4 \<mapsto> ServiceCells [\<lparr>mss_ObjectReference = 0, mss_Port = Some (5, 0), mss_Path = '''', mss_Protocol = ''http''\<rparr>],
     5 \<mapsto> Int32Cells [8080],
     6 \<mapsto> ExternCells [None]]\<rparr>"

definition example_value :: Application where
  "example_value =
     \<lparr>app_TypeMeta = \<lparr>tm_Kind = ''Application'', tm_APIVersion = ''app.k8s.io/v1beta1''\<rparr>,
      app_Meta = \<lparr>om_Name = ''my-app'', om_Namespace = ''ns'', om_Generation = 3, om_DeletionTimestamp = None, om_Labels = []\<rparr>,
      app_Spec = \<lparr>spec_ComponentGroupKinds = [],
        spec_Descriptor = \<lparr>desc_Type = '''', desc_Version = '''', desc_Description = '''', desc_Icons = [],
          desc_Maintainers = [], desc_Owners = [], desc_Keywords = [], desc_Links = [], desc_Notes = ''''\<rparr>,
        spec_Selector = Some \<lparr>sel_MatchLabels = [], sel_MatchExpressions = []\<rparr>, spec_AddOwnerRef = False,
        spec_Info = [\<lparr>info_Name = ''url'', info_Type = ''Reference'', info_Value = '''',
          info_ValueFrom = Some \<lparr>src_Type = ''ServiceRef'', src_SecretKeyRef = None, src_ConfigMapKeyRef = None,
            src_ServiceRef = Some \<lparr>ss_ObjectReference = 0, ss_Port = Some 8080, ss_Path = '''', ss_Protocol = ''http''\<rparr>,
            src_IngressRef = None\<rparr>\<rparr>],
        spec_AssemblyPhase = ''''\<rparr>,
      app_Status = \<lparr>st_ObservedGeneration = 1, st_Conditions = [example_condition],
        st_ComponentList = \<lparr>cl_Objects = []\<rparr>, st_ComponentsReady = ''0/1''\<rparr>\<rparr>"

lemma example_memory_ok: "mem_ok example_memory"
  by (simp add: mem_ok_def example_memory_def)

lemmas kind_defs = images_def contacts_def links_def strings_def group_kinds_def object_statuses_def config_maps_def
  secrets_def ingresses_def int32s_def externs_def conditions_def services_def info_sources_def info_items_def
  descriptors_def specs_def component_lists_def app_statuses_def applications_def application_lists_def

lemma zero_descriptor: "(0 :: mDescriptor) = \<lparr>mdesc_Type = '''', mdesc_Version = '''', mdesc_Description = '''',
    mdesc_Icons = NilSlice, mdesc_Maintainers = NilSlice, mdesc_Owners = NilSlice, mdesc_Keywords = NilSlice,
    mdesc_Links = NilSlice, mdesc_Notes = ''''\<rparr>"
  by (simp add: zero_mDescriptor_ext_def mDescriptor.defs zero_defs zero_slice_def)

lemma example_view:
  "view_pointer applications (Application_view example_apimachinery) (Some (0, 0)) example_memory =
     Some (Some example_value, {0, 1, 2, 3, 4, 5, 6})"
  by (simp add: view_pointer_def Application_view_def ApplicationSpec_view_def ApplicationStatus_view_def
        ComponentList_view_def Descriptor_view_def InfoItem_view_def InfoItemSource_view_def ServiceSelector_view_def
        view_field_def view_pair_def view_slice_def view_list_flat deref_def load_def kind_defs flat_view_def
        example_apimachinery_def example_memory_def example_struct_def example_value_def zero_descriptor)

theorem generated_copies_are_deep_witness:
  "deep_copier (Application_DeepCopy example_apimachinery) (view_pointer applications (Application_view example_apimachinery))"
  using generated_copies_are_deep [OF example_law] by blast

theorem Application_DeepCopy_independent_witness:
  "\<exists>q M' R'. Application_DeepCopy example_apimachinery (Some (0, 0)) example_memory = Some (q, M') \<and>
     view_pointer applications (Application_view example_apimachinery) q M' = Some (Some example_value, R') \<and>
     {0, 1, 2, 3, 4, 5, 6} \<inter> R' = {}"
  using Application_DeepCopy_independent [OF example_law example_memory_ok example_view] by blast

lemma DeepCopyObject_not_typed_nil_example:
  "\<exists>c M'. Application_DeepCopyObject example_apimachinery (Some (0, 0)) example_memory = Some (ApplicationObject c, M') \<and>
     c \<noteq> None"
  using DeepCopyObject_not_typed_nil [OF example_law example_memory_ok, of "Some (0, 0)" "Some example_value"
      "{0, 1, 2, 3, 4, 5, 6}" None, THEN conjunct1, THEN mp, OF example_view]
  by auto

end
