(* ===== verification/Status_Memory.thy ===== *)
theory Status_Memory
  imports Deep_Copy_Facts Aggregation
begin

text \<open>
  setCondition (controllers/condition.go) and the tail of getNewApplicationStatus
  (controllers/application_controller.go) on memory: the new status starts as
  \<open>app.Status.DeepCopy()\<close> and is then changed in place, through the pointer into the Conditions
  array and by \<open>append\<close>.  They refine the value-level functions of Conditions and Aggregation, and
  the Application they were given still denotes what it did, which is what the comparison of old
  and new status in Reconcile rests on.
\<close>

section \<open>The code\<close>

text \<open>The elements that a slice of Conditions ranges over.\<close>

definition condition_elems :: "slice \<Rightarrow> 'x cell memory \<Rightarrow> Condition list option" where
  "condition_elems s M = map_option fst (view_slice conditions flat_view s M)"

definition mem_addCondition ::
  "(nat \<Rightarrow> nat) \<Rightarrow> int \<Rightarrow> addr \<times> nat \<Rightarrow> string \<Rightarrow> string \<Rightarrow> string \<Rightarrow> string \<Rightarrow> 'x cell memory \<Rightarrow> 'x cell memory option" where
  "mem_addCondition grow now p ctype cstatus reason message M =
     do { st \<leftarrow> deref app_statuses (fst p) (snd p) M;
          (s, M1) \<leftarrow> append_one conditions grow (mst_Conditions st)
             \<lparr>cond_Type = ctype, cond_Status = cstatus, cond_Reason = reason, cond_Message = message,
              cond_LastUpdateTime = now, cond_LastTransitionTime = now\<rparr> M;
          assign app_statuses (fst p) (snd p) (st\<lparr>mst_Conditions := s\<rparr>) M1 }"

definition mem_setCondition ::
  "(nat \<Rightarrow> nat) \<Rightarrow> int \<Rightarrow> addr \<times> nat \<Rightarrow> string \<Rightarrow> string \<Rightarrow> string \<Rightarrow> string \<Rightarrow> 'x cell memory \<Rightarrow> 'x cell memory option" where
  "mem_setCondition grow now p ctype cstatus reason message M =
     do { st \<leftarrow> deref app_statuses (fst p) (snd p) M;
          cs \<leftarrow> condition_elems (mst_Conditions st) M;
          case find_condition ctype cs 0 None of
            None \<Rightarrow> mem_addCondition grow now p ctype cstatus reason message M
          | Some j \<Rightarrow>
              let a = slice_addr (mst_Conditions st); i = slice_off (mst_Conditions st) + j
              in do { c \<leftarrow> deref conditions a i M;
                      if cond_Status c = cstatus \<and> cond_Reason c = reason \<and> cond_Message c = message then Some M
                      else assign conditions a i (update_condition now c cstatus reason message) M } }"

section \<open>Refinement of setCondition\<close>

interpretation condition_array: flat_array conditions
  by (intro flat_array.intro cell_kinds)

interpretation status_array: cell_kind app_statuses
  by (intro cell_kinds)

interpretation component_list: deep_copier ComponentList_DeepCopyInto ComponentList_view
  by (rule deep_copier_ComponentList)

abbreviation status_at :: "addr \<times> nat \<Rightarrow> 'x cell memory \<Rightarrow> (ApplicationStatus option \<times> addr set) option" where
  "status_at p \<equiv> view_pointer app_statuses ApplicationStatus_view (Some p)"

text \<open>A status in memory: its own cell, the Conditions array, and the rest.\<close>

lemma status_at_Some:
  "status_at (q, i) M = Some (w, R) \<longleftrightarrow>
   (\<exists>x vs A cl B. deref app_statuses q i M = Some x \<and>
      view_slice conditions flat_view (mst_Conditions x) M = Some (vs, A) \<and>
      ComponentList_view (mst_ComponentList x) M = Some (cl, B) \<and>
      w = Some \<lparr>st_ObservedGeneration = mst_ObservedGeneration x, st_Conditions = vs, st_ComponentList = cl,
        st_ComponentsReady = mst_ComponentsReady x\<rparr> \<and> R = insert q (A \<union> B))"
  by (auto simp: view_pointer_def ApplicationStatus_view_def view_field_def view_pair_def bind_eq_Some_conv)

text \<open>Cells of different kinds are different cells.\<close>

lemma load_cells:
  "load app_statuses q M = Some xs \<longleftrightarrow> mem_cells M q = Some (StatusCells xs)"
  "load conditions a M = Some ys \<longleftrightarrow> mem_cells M a = Some (ConditionCells ys)"
  "load object_statuses b M = Some zs \<longleftrightarrow> mem_cells M b = Some (ObjectStatusCells zs)"
  by (auto simp: load_def app_statuses_def conditions_def object_statuses_def bind_eq_Some_conv split: cell.split_asm)

lemma kinds_apart:
  "load app_statuses q M = Some xs \<Longrightarrow> load conditions a M = Some ys \<Longrightarrow> q \<noteq> a"
  "load app_statuses q M = Some xs \<Longrightarrow> load object_statuses b M = Some zs \<Longrightarrow> q \<noteq> b"
  "load conditions a M = Some ys \<Longrightarrow> load object_statuses b M = Some zs \<Longrightarrow> a \<noteq> b"
  by (auto simp: load_cells)

lemma deref_load: "deref k a i M = Some x \<Longrightarrow> \<exists>xs. load k a M = Some xs \<and> i < length xs \<and> x = xs ! i"
  by (auto simp: deref_def bind_eq_Some_conv split: if_splits)

lemma slice_cells:
  "view_slice k flat_view s M = Some (vs, A) \<Longrightarrow> a \<in> A \<Longrightarrow> \<exists>xs. load k a M = Some xs"
  by (auto simp: view_slice_def bind_eq_Some_conv view_list_flat split: slice.splits if_splits)

lemma component_list_cells:
  "ComponentList_view c M = Some (cl, B) \<Longrightarrow> b \<in> B \<Longrightarrow> \<exists>xs. load object_statuses b M = Some xs"
  by (auto simp: ComponentList_view_def view_field_def bind_eq_Some_conv dest: slice_cells)

lemma status_cells_apart:
  assumes "load app_statuses q M = Some xs" "view_slice conditions flat_view s M = Some (vs, A)"
    "ComponentList_view c M = Some (cl, B)"
  shows "q \<notin> A" "q \<notin> B" "A \<inter> B = {}"
proof -
  show "q \<notin> A" using kinds_apart(1) [OF assms(1)] slice_cells [OF assms(2)] by blast
  show "q \<notin> B" using kinds_apart(2) [OF assms(1)] component_list_cells [OF assms(3)] by blast
  show "A \<inter> B = {}" using kinds_apart(3) slice_cells [OF assms(2)] component_list_cells [OF assms(3)] by blast
qed

text \<open>Writing the struct back to its variable.\<close>

lemma status_write:
  assumes M: "mem_ok M" and q: "load app_statuses q M = Some xs" "i < length xs"
    and c: "view_slice conditions flat_view (mst_Conditions x) M = Some (vs, A)"
    and o: "ComponentList_view (mst_ComponentList x) M = Some (cl, B)"
  shows "\<exists>M'. assign app_statuses q i x M = Some M' \<and> writes_only {q} M M' \<and>
    status_at (q, i) M' = Some (Some \<lparr>st_ObservedGeneration = mst_ObservedGeneration x, st_Conditions = vs,
        st_ComponentList = cl, st_ComponentsReady = mst_ComponentsReady x\<rparr>, insert q (A \<union> B))"
proof -
  let ?M' = "store app_statuses q (xs[i := x]) M"
  have w: "writes_only {q} M ?M'"
    using M load_dom [OF q(1)] mem_ok_dom [OF M] by (intro writes_only_store) auto
  have "view_slice conditions flat_view (mst_Conditions x) ?M' = Some (vs, A)"
    using condition_array.slice.view_writes_only [OF M c w] status_cells_apart [OF q(1) c o] by blast
  moreover have "ComponentList_view (mst_ComponentList x) ?M' = Some (cl, B)"
    using component_list.view_writes_only [OF M o w] status_cells_apart [OF q(1) c o] by blast
  moreover have "deref app_statuses q i ?M' = Some x"
    using q(2) by (simp add: deref_def status_array.load_store)
  ultimately have "status_at (q, i) ?M' = Some (Some \<lparr>st_ObservedGeneration = mst_ObservedGeneration x,
      st_Conditions = vs, st_ComponentList = cl, st_ComponentsReady = mst_ComponentsReady x\<rparr>, insert q (A \<union> B))"
    by (auto simp: status_at_Some)
  moreover have "assign app_statuses q i x M = Some ?M'" using q by (simp add: assign_def)
  ultimately show ?thesis using w by blast
qed

lemma mem_addCondition_refines:
  assumes M: "mem_ok M" and st: "status_at (q, i) M = Some (Some st, R)"
  shows "\<exists>M' R'. mem_addCondition grow now (q, i) t s r m M = Some M' \<and> writes_only R M M' \<and>
    status_at (q, i) M' = Some (Some (addCondition now st t s r m), R') \<and> R' \<subseteq> R \<union> {mem_next M..<mem_next M'}"
proof -
  obtain x vs A cl B where x: "deref app_statuses q i M = Some x"
      and c: "view_slice conditions flat_view (mst_Conditions x) M = Some (vs, A)"
      and o: "ComponentList_view (mst_ComponentList x) M = Some (cl, B)"
      and eq: "st = \<lparr>st_ObservedGeneration = mst_ObservedGeneration x, st_Conditions = vs, st_ComponentList = cl,
        st_ComponentsReady = mst_ComponentsReady x\<rparr>" "R = insert q (A \<union> B)"
    using st by (auto simp: status_at_Some)
  obtain xs where xs: "load app_statuses q M = Some xs" "i < length xs" "x = xs ! i" using deref_load [OF x] by blast
  note apart = status_cells_apart [OF xs(1) c o]
  let ?c = "\<lparr>cond_Type = t, cond_Status = s, cond_Reason = r, cond_Message = m, cond_LastUpdateTime = now,
      cond_LastTransitionTime = now\<rparr>"
  obtain u M1 A' where u: "append_one conditions grow (mst_Conditions x) ?c M = Some (u, M1)"
      "writes_only A M M1" "view_slice conditions flat_view u M1 = Some (vs @ [?c], A')"
      "A' \<subseteq> A \<union> {mem_next M..<mem_next M1}"
    using condition_array.append_one_ok [OF M c, of grow ?c] by blast
  have M1: "mem_ok M1" using u(2) by (simp add: writes_only_def)
  have o1: "ComponentList_view (mst_ComponentList x) M1 = Some (cl, B)"
    using component_list.view_writes_only [OF M o u(2)] apart by blast
  have "q < mem_next M" using load_dom [OF xs(1)] mem_ok_dom [OF M] by blast
  then have q1: "load app_statuses q M1 = Some xs"
    using u(2) apart(1) xs(1) by (simp add: writes_only_def load_def)
  obtain M2 where M2: "assign app_statuses q i (x\<lparr>mst_Conditions := u\<rparr>) M1 = Some M2" "writes_only {q} M1 M2"
      "status_at (q, i) M2 = Some (Some \<lparr>st_ObservedGeneration = mst_ObservedGeneration x, st_Conditions = vs @ [?c],
        st_ComponentList = cl, st_ComponentsReady = mst_ComponentsReady x\<rparr>, insert q (A' \<union> B))"
    using status_write [OF M1 q1 xs(2), of "x\<lparr>mst_Conditions := u\<rparr>"] u(3) o1 by auto
  have "mem_addCondition grow now (q, i) t s r m M = Some M2"
    using x u(1) M2(1) by (simp add: mem_addCondition_def)
  moreover have "writes_only R M M1" using u(2) by (auto simp: writes_only_def eq(2))
  then have "writes_only R M M2" by (rule writes_only_trans [OF _ M2(2)]) (simp add: eq(2))
  moreover have "insert q (A' \<union> B) \<subseteq> R \<union> {mem_next M..<mem_next M2}"
    using u(4) M2(2) eq(2) by (fastforce simp: writes_only_def)
  ultimately show ?thesis using M2(3) by (auto simp: addCondition_def eq(1))
qed

lemma mem_setCondition_refines:
  assumes M: "mem_ok M" and st: "status_at (q, i) M = Some (Some st, R)"
  shows "\<exists>M' R'. mem_setCondition grow now (q, i) t s r m M = Some M' \<and> writes_only R M M' \<and>
    status_at (q, i) M' = Some (Some (setCondition now st t s r m), R') \<and> R' \<subseteq> R \<union> {mem_next M..<mem_next M'}"
proof -
  obtain x vs A cl B where x: "deref app_statuses q i M = Some x"
      and c: "view_slice conditions flat_view (mst_Conditions x) M = Some (vs, A)"
      and o: "ComponentList_view (mst_ComponentList x) M = Some (cl, B)"
      and eq: "st = \<lparr>st_ObservedGeneration = mst_ObservedGeneration x, st_Conditions = vs, st_ComponentList = cl,
        st_ComponentsReady = mst_ComponentsReady x\<rparr>" "R = insert q (A \<union> B)"
    using st by (auto simp: status_at_Some)
  have elems: "condition_elems (mst_Conditions x) M = Some vs" using c by (simp add: condition_elems_def)
  show ?thesis
  proof (cases "find_condition t vs 0 None")
    case None
    then show ?thesis
      using mem_addCondition_refines [OF M st, of grow now t s r m] x elems
      by (simp add: mem_setCondition_def setCondition_def eq(1))
  next
    case (Some j)
    then have j: "j < length vs" using find_condition_Some by blast
    then obtain a off n cp where sl: "mst_Conditions x = Slice a off n cp"
      using c by (cases "mst_Conditions x") (auto simp: view_slice_def)
    then obtain ys where ys: "load conditions a M = Some ys" "n \<le> cp" "off + cp \<le> length ys"
        "vs = take n (drop off ys)" "A = {a}"
      using c by (auto simp: condition_array.view_flat_slice_Some)
    then have nth: "ys ! (off + j) = vs ! j" "off + j < length ys" using j by auto
    then have d: "deref conditions a (off + j) M = Some (vs ! j)" using ys(1) by (simp add: deref_def)
    let ?c = "update_condition now (vs ! j) s r m"
    let ?M' = "store conditions a (ys[off + j := ?c]) M"
    show ?thesis
    proof (cases "cond_Status (vs ! j) = s \<and> cond_Reason (vs ! j) = r \<and> cond_Message (vs ! j) = m")
      case True
      then show ?thesis
        using M st x elems Some d sl by (auto simp: mem_setCondition_def setCondition_def eq(1) writes_only_refl)
    next
      case False
      have run: "mem_setCondition grow now (q, i) t s r m M = Some ?M'"
        using x elems Some d sl False ys(1) nth(2) by (auto simp: mem_setCondition_def assign_def)
      have w: "writes_only {a} M ?M'"
        using M load_dom [OF ys(1)] mem_ok_dom [OF M] by (intro writes_only_store) auto
      obtain xs where xs: "load app_statuses q M = Some xs" using deref_load [OF x] by blast
      note apart = status_cells_apart [OF xs c o]
      have "take n (drop off (ys[off + j := ?c])) = vs[j := ?c]"
        using ys(4) by (simp add: drop_update_swap take_update_swap)
      then have "view_slice conditions flat_view (mst_Conditions x) ?M' = Some (vs[j := ?c], A)"
        using ys sl by (auto simp: condition_array.view_flat_slice_Some condition_array.load_store)
      moreover have "ComponentList_view (mst_ComponentList x) ?M' = Some (cl, B)"
        using component_list.view_writes_only [OF M o w] apart(3) ys(5) by blast
      moreover have "deref app_statuses q i ?M' = Some x"
        using x apart(1) ys(5) by (simp add: deref_def load_def)
      ultimately have "status_at (q, i) ?M' = Some (Some (setCondition now st t s r m), R)"
        using Some False by (auto simp: status_at_Some setCondition_def eq)
      moreover have "writes_only R M ?M'" using w ys(5) by (auto simp: writes_only_def eq(2))
      ultimately show ?thesis using run by blast
    qed
  qed
qed

section \<open>getNewApplicationStatus\<close>

definition mem_setReadyCondition ::
  "(nat \<Rightarrow> nat) \<Rightarrow> int \<Rightarrow> addr \<times> nat \<Rightarrow> string \<Rightarrow> string \<Rightarrow> 'x cell memory \<Rightarrow> 'x cell memory option" where
  "mem_setReadyCondition grow now p = mem_setCondition grow now p Ready ConditionTrue"

definition mem_setNotReadyCondition ::
  "(nat \<Rightarrow> nat) \<Rightarrow> int \<Rightarrow> addr \<times> nat \<Rightarrow> string \<Rightarrow> string \<Rightarrow> 'x cell memory \<Rightarrow> 'x cell memory option" where
  "mem_setNotReadyCondition grow now p = mem_setCondition grow now p Ready ConditionFalse"

definition mem_setReadyUnknownCondition ::
  "(nat \<Rightarrow> nat) \<Rightarrow> int \<Rightarrow> addr \<times> nat \<Rightarrow> string \<Rightarrow> string \<Rightarrow> 'x cell memory \<Rightarrow> 'x cell memory option" where
  "mem_setReadyUnknownCondition grow now p = mem_setCondition grow now p Ready ConditionUnknown"

definition mem_setErrorCondition ::
  "(nat \<Rightarrow> nat) \<Rightarrow> int \<Rightarrow> addr \<times> nat \<Rightarrow> string \<Rightarrow> string \<Rightarrow> 'x cell memory \<Rightarrow> 'x cell memory option" where
  "mem_setErrorCondition grow now p = mem_setCondition grow now p Error ConditionTrue"

definition mem_clearErrorCondition ::
  "(nat \<Rightarrow> nat) \<Rightarrow> int \<Rightarrow> addr \<times> nat \<Rightarrow> 'x cell memory \<Rightarrow> 'x cell memory option" where
  "mem_clearErrorCondition grow now p = mem_setCondition grow now p Error ConditionFalse ''NoError'' ''No error seen''"

text \<open>The slice that objectStatuses has built: nil without components, else an array of its own.\<close>

definition new_objects :: "(nat \<Rightarrow> nat) \<Rightarrow> ObjectStatus list \<Rightarrow> 'x cell memory \<Rightarrow> slice \<times> 'x cell memory" where
  "new_objects grow oss M =
     (let n = length oss; c = max n (grow n); (d, M1) = alloc object_statuses (oss @ replicate (c - n) 0) M
      in if oss = [] then (NilSlice, M) else (Slice d 0 n c, M1))"

definition mem_getNewApplicationStatus ::
  "'x apimachinery \<Rightarrow> go_lib \<Rightarrow> (nat \<Rightarrow> nat) \<Rightarrow> int \<Rightarrow> int \<Rightarrow> addr \<times> nat \<Rightarrow> Unstructured list \<Rightarrow> go_error list \<Rightarrow>
   'x cell memory \<Rightarrow> ((addr \<times> nat) \<times> go_error list \<times> 'x cell memory) option" where
  "mem_getNewApplicationStatus X E grow t1 t2 app resources errList M =
     (let (oss, errList') = objectStatuses E resources errList;
          errs = lib_NewAggregate E errList';
          (aggReady, countWorkloadsReady, totalWorkloads) = aggregateReady oss;
          countAllReady = count_all_ready oss 0;
          (objects, M1) = new_objects grow oss M
      in do {
        (p, M2) \<leftarrow> copy_from app_statuses (ApplicationStatus_DeepCopyInto X)
          (\<lambda>M. map_option mapp_Status (deref applications (fst app) (snd app) M)) M1;
        q \<leftarrow> p;
        st \<leftarrow> deref app_statuses (fst q) (snd q) M2;
        M3 \<leftarrow> assign app_statuses (fst q) (snd q) (st\<lparr>mst_ComponentList := \<lparr>mcl_Objects = objects\<rparr>\<rparr>) M2;
        st' \<leftarrow> deref app_statuses (fst q) (snd q) M3;
        M4 \<leftarrow> assign app_statuses (fst q) (snd q)
          (st'\<lparr>mst_ComponentsReady := ratio_string countAllReady (length oss)\<rparr>) M3;
        M5 \<leftarrow> (case errs of
            Some e \<Rightarrow> mem_setReadyUnknownCondition grow t1 q ''ComponentsReadyUnknown''
              ''failed to aggregate all components' statuses, check the Error condition for details'' M4
          | None \<Rightarrow>
              if aggReady then mem_setReadyCondition grow t1 q ''ComponentsReady'' ''all components ready'' M4
              else mem_setNotReadyCondition grow t1 q ''ComponentsNotReady''
                (ratio_string countWorkloadsReady totalWorkloads @ '' workloads not ready'') M4);
        M6 \<leftarrow> (case errs of
            Some e \<Rightarrow> mem_setErrorCondition grow t2 q ''ErrorSeen'' (err_msg e) M5
          | None \<Rightarrow> mem_clearErrorCondition grow t2 q M5);
        Some (q, errList', M6) })"

lemma new_objects_ok:
  assumes M: "mem_ok M" and run: "new_objects grow oss M = (s, M1)"
  shows "mem_ok M1" "extends M M1"
    "\<exists>B. ComponentList_view \<lparr>mcl_Objects = s\<rparr> M1 = Some (\<lparr>cl_Objects = oss\<rparr>, B) \<and> B \<subseteq> {mem_next M..}"
proof -
  have "s = NilSlice \<and> M1 = M \<and> oss = [] \<or>
      s = Slice (mem_next M) 0 (length oss) (max (length oss) (grow (length oss))) \<and>
      M1 = snd (alloc object_statuses (oss @ replicate (max (length oss) (grow (length oss)) - length oss) 0) M)"
    using run by (auto simp: new_objects_def split_beta Let_def split: if_splits)
  then show "mem_ok M1" "extends M M1"
      "\<exists>B. ComponentList_view \<lparr>mcl_Objects = s\<rparr> M1 = Some (\<lparr>cl_Objects = oss\<rparr>, B) \<and> B \<subseteq> {mem_next M..}"
    using M by (auto simp: ComponentList_view_def view_field_def view_slice_def view_list_flat
        cell_kind.load_alloc [OF cell_kind_object_statuses])
qed

text \<open>The three phases: the copy, the two assignments, the two conditions.\<close>

lemma status_copy:
  assumes X: "apimachinery_law X" and M: "mem_ok M"
    and app: "view_pointer applications (Application_view X) (Some p) M = Some (Some v, R)"
  shows "\<exists>q M' R'. copy_from app_statuses (ApplicationStatus_DeepCopyInto X)
      (\<lambda>M. map_option mapp_Status (deref applications (fst p) (snd p) M)) M = Some (Some (q, 0), M') \<and>
    mem_ok M' \<and> extends M M' \<and> status_at (q, 0) M' = Some (Some (app_Status v), R') \<and> R' \<subseteq> {mem_next M..<mem_next M'}"
proof -
  obtain a i where p: "p = (a, i)" by (cases p)
  obtain x T where x: "deref applications a i M = Some x" "ApplicationStatus_view (mapp_Status x) M = Some (app_Status v, T)"
    using app by (auto simp: p view_pointer_def Application_view_def view_field_def view_pair_def bind_eq_Some_conv)
  have "a < mem_next M"
    using deref_load [OF x(1)] load_dom [of applications a M] mem_ok_dom [OF M, of a] by blast
  then have "deref applications a i (snd (alloc app_statuses [0] M)) = Some x"
    using x(1) by (simp add: deref_def load_def)
  then show ?thesis
    using array_copier.copy_from_ok [OF array_copier.intro [OF cell_kind_app_statuses
        deep_copier_ApplicationStatus [OF X]] M x(2), of "\<lambda>M. map_option mapp_Status (deref applications (fst p) (snd p) M)"]
    by (simp add: p)
qed

lemma status_assign:
  assumes M: "mem_ok M" and st: "status_at (q, i) M = Some (Some st, R)"
    and o: "ComponentList_view c M = Some (cl, B)" "q \<notin> B"
  shows "\<exists>x M1 y M2 R'. deref app_statuses q i M = Some x \<and>
    assign app_statuses q i (x\<lparr>mst_ComponentList := c\<rparr>) M = Some M1 \<and> deref app_statuses q i M1 = Some y \<and>
    assign app_statuses q i (y\<lparr>mst_ComponentsReady := r\<rparr>) M1 = Some M2 \<and> writes_only R M M2 \<and>
    status_at (q, i) M2 = Some (Some (st\<lparr>st_ComponentList := cl, st_ComponentsReady := r\<rparr>), R') \<and> R' \<subseteq> R \<union> B"
proof -
  obtain x vs A cl' B' where x: "deref app_statuses q i M = Some x"
      and c: "view_slice conditions flat_view (mst_Conditions x) M = Some (vs, A)"
      and eq: "st = \<lparr>st_ObservedGeneration = mst_ObservedGeneration x, st_Conditions = vs, st_ComponentList = cl',
        st_ComponentsReady = mst_ComponentsReady x\<rparr>" "R = insert q (A \<union> B')"
    using st by (auto simp: status_at_Some)
  obtain xs where xs: "load app_statuses q M = Some xs" "i < length xs" using deref_load [OF x] by blast
  obtain M1 where M1: "assign app_statuses q i (x\<lparr>mst_ComponentList := c\<rparr>) M = Some M1" "writes_only {q} M M1"
      "status_at (q, i) M1 = Some (Some \<lparr>st_ObservedGeneration = mst_ObservedGeneration x, st_Conditions = vs,
        st_ComponentList = cl, st_ComponentsReady = mst_ComponentsReady x\<rparr>, insert q (A \<union> B))"
    using status_write [OF M xs, of "x\<lparr>mst_ComponentList := c\<rparr>"] c o by auto
  then have ok1: "mem_ok M1" by (simp add: writes_only_def)
  obtain y A1 B1 where y: "deref app_statuses q i M1 = Some y"
      and c1: "view_slice conditions flat_view (mst_Conditions y) M1 = Some (vs, A1)"
      and o1: "ComponentList_view (mst_ComponentList y) M1 = Some (cl, B1)"
      and eq1: "mst_ObservedGeneration y = mst_ObservedGeneration x" "insert q (A1 \<union> B1) = insert q (A \<union> B)"
    using M1(3) by (auto simp: status_at_Some)
  obtain ys where ys: "load app_statuses q M1 = Some ys" "i < length ys" using deref_load [OF y] by blast
  obtain M2 where M2: "assign app_statuses q i (y\<lparr>mst_ComponentsReady := r\<rparr>) M1 = Some M2" "writes_only {q} M1 M2"
      "status_at (q, i) M2 = Some (Some \<lparr>st_ObservedGeneration = mst_ObservedGeneration x, st_Conditions = vs,
        st_ComponentList = cl, st_ComponentsReady = r\<rparr>, insert q (A1 \<union> B1))"
    using status_write [OF ok1 ys, of "y\<lparr>mst_ComponentsReady := r\<rparr>" vs A1 cl B1] c1 o1 eq1 by auto
  have "writes_only R M M1" using M1(2) by (auto simp: writes_only_def eq(2))
  then have "writes_only R M M2" by (rule writes_only_trans [OF _ M2(2)]) (simp add: eq(2))
  moreover have "insert q (A1 \<union> B1) \<subseteq> R \<union> B" using eq(2) eq1(2) by auto
  ultimately show ?thesis using x M1(1) y M2 by (fastforce simp: eq(1))
qed

lemma verdict_conditions:
  assumes M: "mem_ok M" and st: "status_at (q, 0) M = Some (Some st, R)" and R: "R \<subseteq> {L..}" "L \<le> mem_next M"
  shows "\<exists>M1 M2 R'.
    (case errs of
       Some e \<Rightarrow> mem_setReadyUnknownCondition grow t1 (q, 0) u1 u2 M
     | None \<Rightarrow> if agg then mem_setReadyCondition grow t1 (q, 0) r1 r2 M
         else mem_setNotReadyCondition grow t1 (q, 0) n1 n2 M) = Some M1 \<and>
    (case errs of
       Some e \<Rightarrow> mem_setErrorCondition grow t2 (q, 0) e1 (err_msg e) M1
     | None \<Rightarrow> mem_clearErrorCondition grow t2 (q, 0) M1) = Some M2 \<and>
    writes_only {L..} M M2 \<and> R' \<subseteq> {L..} \<and>
    status_at (q, 0) M2 = Some (Some
      (let st1 = (case errs of
           Some e \<Rightarrow> setReadyUnknownCondition t1 st u1 u2
         | None \<Rightarrow> if agg then setReadyCondition t1 st r1 r2 else setNotReadyCondition t1 st n1 n2)
       in case errs of Some e \<Rightarrow> setErrorCondition t2 st1 e1 (err_msg e) | None \<Rightarrow> clearErrorCondition t2 st1), R')"
proof -
  have set: "\<exists>M' R'. mem_setCondition grow now (q, 0) t s r m N = Some M' \<and> writes_only {L..} N M' \<and> mem_ok M' \<and>
      L \<le> mem_next M' \<and> status_at (q, 0) M' = Some (Some (setCondition now w t s r m), R') \<and> R' \<subseteq> {L..}"
    if "mem_ok N" "status_at (q, 0) N = Some (Some w, S)" "S \<subseteq> {L..}" "L \<le> mem_next N" for N w S now t s r m
  proof -
    note N = that
    obtain M' R' where *: "mem_setCondition grow now (q, 0) t s r m N = Some M'" "writes_only S N M'"
        "status_at (q, 0) M' = Some (Some (setCondition now w t s r m), R')" "R' \<subseteq> S \<union> {mem_next N..<mem_next M'}"
      using mem_setCondition_refines [OF N(1,2)] by blast
    then have "writes_only {L..} N M'" "mem_ok M'" "L \<le> mem_next M'" "R' \<subseteq> {L..}"
      using N(3,4) by (auto simp: writes_only_def)
    then show ?thesis using * by blast
  qed
  let ?ctype = "case errs of Some e \<Rightarrow> ConditionUnknown | None \<Rightarrow> if agg then ConditionTrue else ConditionFalse"
  let ?reason = "case errs of Some e \<Rightarrow> u1 | None \<Rightarrow> if agg then r1 else n1"
  let ?message = "case errs of Some e \<Rightarrow> u2 | None \<Rightarrow> if agg then r2 else n2"
  let ?status = "case errs of Some e \<Rightarrow> ConditionTrue | None \<Rightarrow> ConditionFalse"
  let ?why = "case errs of Some e \<Rightarrow> e1 | None \<Rightarrow> ''NoError''"
  let ?text = "case errs of Some e \<Rightarrow> err_msg e | None \<Rightarrow> ''No error seen''"
  obtain M1 R1 where 1: "mem_setCondition grow t1 (q, 0) Ready ?ctype ?reason ?message M = Some M1" "writes_only {L..} M M1"
      "mem_ok M1" "L \<le> mem_next M1" "R1 \<subseteq> {L..}"
      "status_at (q, 0) M1 = Some (Some (setCondition t1 st Ready ?ctype ?reason ?message), R1)"
    using set [OF M st R] by blast
  obtain M2 R2 where 2: "mem_setCondition grow t2 (q, 0) Error ?status ?why ?text M1 = Some M2" "writes_only {L..} M1 M2"
      "R2 \<subseteq> {L..}"
      "status_at (q, 0) M2 =
         Some (Some (setCondition t2 (setCondition t1 st Ready ?ctype ?reason ?message) Error ?status ?why ?text), R2)"
    using set [OF 1(3,6,5,4)] by blast
  have "writes_only {L..} M M2" by (rule writes_only_trans [OF 1(2) 2(2)]) simp
  with 1 2 show ?thesis
    by (intro exI [of _ M1] exI [of _ M2] exI [of _ R2]; cases errs; cases agg)
      (simp_all add: mem_setReadyUnknownCondition_def mem_setReadyCondition_def mem_setNotReadyCondition_def
        mem_setErrorCondition_def mem_clearErrorCondition_def setReadyUnknownCondition_def setReadyCondition_def
        setNotReadyCondition_def setErrorCondition_def clearErrorCondition_def)
qed

text \<open>The status before its conditions are set.\<close>

definition prepared :: "ApplicationStatus \<Rightarrow> ObjectStatus list \<Rightarrow> ApplicationStatus" where
  "prepared st oss = st\<lparr>st_ComponentList := \<lparr>cl_Objects = oss\<rparr>,
     st_ComponentsReady := ratio_string (count_all_ready oss 0) (length oss)\<rparr>"

lemma status_prepared:
  fixes X :: "'x :: zero apimachinery"
  assumes X: "apimachinery_law X" and M: "mem_ok M"
    and app: "view_pointer applications (Application_view X) (Some p) M = Some (Some app, R)"
    and new: "new_objects grow oss M = (s, M1)"
  obtains q M2 x N y M4 R4 where
    "copy_from app_statuses (ApplicationStatus_DeepCopyInto X)
       (\<lambda>M. map_option mapp_Status (deref applications (fst p) (snd p) M)) M1 = Some (Some (q, 0), M2)"
    "deref app_statuses q 0 M2 = Some x"
    "assign app_statuses q 0 (x\<lparr>mst_ComponentList := \<lparr>mcl_Objects = s\<rparr>\<rparr>) M2 = Some N"
    "deref app_statuses q 0 N = Some y"
    "assign app_statuses q 0 (y\<lparr>mst_ComponentsReady := ratio_string (count_all_ready oss 0) (length oss)\<rparr>) N = Some M4"
    "writes_only {mem_next M..} M M4" "R4 \<subseteq> {mem_next M..}"
    "status_at (q, 0) M4 = Some (Some (prepared (app_Status app) oss), R4)"
proof -
  note dc = deep_copier_new [OF cell_kind_applications deep_copier_Application [OF X]]
  obtain B where B: "ComponentList_view \<lparr>mcl_Objects = s\<rparr> M1 = Some (\<lparr>cl_Objects = oss\<rparr>, B)" "B \<subseteq> {mem_next M..}"
    using new_objects_ok [OF M new] by blast
  note M1 = new_objects_ok(1,2) [OF M new]
  obtain q M2 R2 where copy: "copy_from app_statuses (ApplicationStatus_DeepCopyInto X)
        (\<lambda>M. map_option mapp_Status (deref applications (fst p) (snd p) M)) M1 = Some (Some (q, 0), M2)"
      "mem_ok M2" "extends M1 M2" "status_at (q, 0) M2 = Some (Some (app_Status app), R2)"
      "R2 \<subseteq> {mem_next M1..<mem_next M2}"
    using status_copy [OF X M1(1) deep_copier.view_extends [OF dc M app M1(2)]] by blast
  have "q \<in> R2" using copy(4) by (auto simp: status_at_Some)
  then have "q \<notin> B" using copy(5) component_list.view_below [OF M1(1) B(1)] by fastforce
  from status_assign [OF copy(2,4) component_list.view_extends [OF M1(1) B(1) copy(3)] this,
      of "ratio_string (count_all_ready oss 0) (length oss)"]
  obtain x N y M4 R4 where step: "deref app_statuses q 0 M2 = Some x"
      "assign app_statuses q 0 (x\<lparr>mst_ComponentList := \<lparr>mcl_Objects = s\<rparr>\<rparr>) M2 = Some N"
      "deref app_statuses q 0 N = Some y"
      "assign app_statuses q 0 (y\<lparr>mst_ComponentsReady := ratio_string (count_all_ready oss 0) (length oss)\<rparr>) N = Some M4"
      "writes_only R2 M2 M4" "R4 \<subseteq> R2 \<union> B"
      "status_at (q, 0) M4 = Some (Some (prepared (app_Status app) oss), R4)"
    unfolding prepared_def by blast
  have next_le: "mem_next M \<le> mem_next M1" using M1(2) by (simp add: extends_def)
  then have "R4 \<subseteq> {mem_next M..}" using step(6) copy(5) B(2) by fastforce
  moreover have "writes_only {mem_next M..} M M2"
    by (rule writes_only_extends [OF copy(2) extends_trans [OF M1(2) copy(3)]])
  then have "writes_only {mem_next M..} M M4"
    by (rule writes_only_trans [OF _ step(5)]) (use copy(5) next_le in auto)
  ultimately show thesis using that copy(1) step by blast
qed

text \<open>
  C3: getNewApplicationStatus on memory.  For every Application in a well-formed memory (with the
  copies of k8s.io/apimachinery deep copies as documented) the code runs without touching an
  address that it was not given: the pointer it returns denotes the status that the value-level
  function computes, built in fresh cells only; nothing that existed before has changed, and so
  the Application still denotes its old status, the one that Reconcile compares with the new one.
\<close>

theorem getNewApplicationStatus_on_memory:
  fixes X :: "'x :: zero apimachinery"
  assumes X: "apimachinery_law X" and M: "mem_ok M"
    and app: "view_pointer applications (Application_view X) (Some p) M = Some (Some app, R)"
  shows "\<exists>q M' R'.
    mem_getNewApplicationStatus X E grow t1 t2 p resources errList M =
      Some ((q, 0), snd (getNewApplicationStatus E t1 t2 app resources errList), M') \<and>
    view_pointer app_statuses ApplicationStatus_view (Some (q, 0)) M' =
      Some (Some (fst (getNewApplicationStatus E t1 t2 app resources errList)), R') \<and>
    R \<inter> R' = {} \<and> extends M M' \<and> view_pointer applications (Application_view X) (Some p) M' = Some (Some app, R)"
proof -
  note dc = deep_copier_new [OF cell_kind_applications deep_copier_Application [OF X]]
  obtain oss errs where os: "objectStatuses E resources errList = (oss, errs)" by fastforce
  obtain agg cw tw where agg: "aggregateReady oss = (agg, cw, tw)" by (cases "aggregateReady oss") auto
  obtain s M1 where new: "new_objects grow oss M = (s, M1)" by fastforce
  obtain q M2 x N y M4 R4 where step:
    "copy_from app_statuses (ApplicationStatus_DeepCopyInto X)
       (\<lambda>M. map_option mapp_Status (deref applications (fst p) (snd p) M)) M1 = Some (Some (q, 0), M2)"
    "deref app_statuses q 0 M2 = Some x"
    "assign app_statuses q 0 (x\<lparr>mst_ComponentList := \<lparr>mcl_Objects = s\<rparr>\<rparr>) M2 = Some N"
    "deref app_statuses q 0 N = Some y"
    "assign app_statuses q 0 (y\<lparr>mst_ComponentsReady := ratio_string (count_all_ready oss 0) (length oss)\<rparr>) N = Some M4"
    "writes_only {mem_next M..} M M4" "R4 \<subseteq> {mem_next M..}"
    "status_at (q, 0) M4 = Some (Some (prepared (app_Status app) oss), R4)"
    by (rule status_prepared [OF X M app new])
  have M4: "mem_ok M4" "mem_next M \<le> mem_next M4" using step(6) by (simp_all add: writes_only_def)
  have fst_new: "fst (getNewApplicationStatus E t1 t2 app resources errList) =
     (let st1 = (case lib_NewAggregate E errs of
          Some e \<Rightarrow> setReadyUnknownCondition t1 (prepared (app_Status app) oss) ''ComponentsReadyUnknown''
            ''failed to aggregate all components' statuses, check the Error condition for details''
        | None \<Rightarrow> if agg
            then setReadyCondition t1 (prepared (app_Status app) oss) ''ComponentsReady'' ''all components ready''
            else setNotReadyCondition t1 (prepared (app_Status app) oss) ''ComponentsNotReady''
              (ratio_string cw tw @ '' workloads not ready''))
      in case lib_NewAggregate E errs of
           Some e \<Rightarrow> setErrorCondition t2 st1 ''ErrorSeen'' (err_msg e)
         | None \<Rightarrow> clearErrorCondition t2 st1)"
    by (cases "lib_NewAggregate E errs"; cases agg)
      (simp_all add: getNewApplicationStatus_def prepared_def os agg Let_def)
  obtain M5 M6 R6 where fin: "(case lib_NewAggregate E errs of
       Some e \<Rightarrow> mem_setReadyUnknownCondition grow t1 (q, 0) ''ComponentsReadyUnknown''
         ''failed to aggregate all components' statuses, check the Error condition for details'' M4
     | None \<Rightarrow> if agg then mem_setReadyCondition grow t1 (q, 0) ''ComponentsReady'' ''all components ready'' M4
         else mem_setNotReadyCondition grow t1 (q, 0) ''ComponentsNotReady''
           (ratio_string cw tw @ '' workloads not ready'') M4) = Some M5"
      "(case lib_NewAggregate E errs of
       Some e \<Rightarrow> mem_setErrorCondition grow t2 (q, 0) ''ErrorSeen'' (err_msg e) M5
     | None \<Rightarrow> mem_clearErrorCondition grow t2 (q, 0) M5) = Some M6"
      "writes_only {mem_next M..} M4 M6" "R6 \<subseteq> {mem_next M..}"
      "status_at (q, 0) M6 = Some (Some (fst (getNewApplicationStatus E t1 t2 app resources errList)), R6)"
    using verdict_conditions [OF M4(1) step(8,7) M4(2), where errs = "lib_NewAggregate E errs" and grow = grow and ?t1.0 = t1 and ?t2.0 = t2
        and ?u1.0 = "''ComponentsReadyUnknown''" and agg = agg
        and ?u2.0 = "''failed to aggregate all components' statuses, check the Error condition for details''"
        and ?r1.0 = "''ComponentsReady''" and ?r2.0 = "''all components ready''" and ?n1.0 = "''ComponentsNotReady''"
        and ?n2.0 = "ratio_string cw tw @ '' workloads not ready''" and ?e1.0 = "''ErrorSeen''"]
    unfolding fst_new by blast
  have "mem_getNewApplicationStatus X E grow t1 t2 p resources errList M =
      Some ((q, 0), snd (getNewApplicationStatus E t1 t2 app resources errList), M6)"
    using step(1-5) fin(1,2)
    by (simp add: mem_getNewApplicationStatus_def getNewApplicationStatus_def os agg new Let_def)
  moreover have "writes_only {mem_next M..} M M6"
    by (rule writes_only_trans [OF step(6) fin(3)]) simp
  then have "extends M M6" by (simp add: extends_def writes_only_def)
  moreover have "R \<inter> R6 = {}" using fin(4) deep_copier.view_below [OF dc M app] by fastforce
  ultimately show ?thesis using fin(5) deep_copier.view_extends [OF dc M app] by blast
qed

theorem getNewApplicationStatus_on_memory_witness:
  "\<exists>q M' R'.
     mem_getNewApplicationStatus example_apimachinery (example_golib example_lib) (\<lambda>n. 2 * n) 7 8 (0, 0)
       [example_object ''apps'' ''Deployment''] [] example_memory =
       Some ((q, 0), snd (getNewApplicationStatus (example_golib example_lib) 7 8 example_value
         [example_object ''apps'' ''Deployment''] []), M') \<and>
     {0, 1, 2, 3, 4, 5, 6} \<inter> R' = {} \<and>
     view_pointer applications (Application_view example_apimachinery) (Some (0, 0)) M' =
       Some (Some example_value, {0, 1, 2, 3, 4, 5, 6})"
  using getNewApplicationStatus_on_memory [OF example_law example_memory_ok example_view] by blast

end
