(* ===== verification/Go_Crypto.thy ===== *)
theory Go_Crypto
  imports Go_Strings
begin

text \<open>
  The parts of Go's standard library that the handshake signature uses (push/hmac.go):
  crypto/sha256 (FIPS 180-4), crypto/hmac (RFC 2104) and base64.StdEncoding (RFC 4648), on byte
  lists.  All of it is executable.  The lemmas give what the protocol relies on: a signature has
  44 characters of the base64 alphabet, and the text encoding loses nothing of the MAC.
\<close>

type_synonym byte = "8 word"
type_synonym uint32 = "32 word"

unbundle bit_operations_syntax

text \<open>The bytes of a Go string.\<close>

definition byte_of :: "char \<Rightarrow> byte" where
  "byte_of c = of_nat (of_char c)"

definition bytes_of :: "string \<Rightarrow> byte list" where
  "bytes_of s = map byte_of s"

lemma byte_of_inj: "byte_of c = byte_of d \<longleftrightarrow> c = d"
proof
  assume "byte_of c = byte_of d"
  then have "unat (byte_of c) = unat (byte_of d)" by simp
  moreover have "unat (byte_of x) = (of_char x :: nat)" for x
    by (simp add: byte_of_def unat_of_nat)
  ultimately show "c = d" by simp
qed simp

lemma bytes_of_inj: "bytes_of s = bytes_of t \<longleftrightarrow> s = t"
  unfolding bytes_of_def by (rule inj_map_eq_map) (rule injI, simp add: byte_of_inj)

section \<open>SHA-256\<close>

text \<open>
  The constants are the first 32 fractional bits of the cube roots (round constants) and of the
  square roots (initial state) of the first primes, computed here as integer roots: the root of
  \<open>p * 2 ^ 32k\<close> is that of \<open>p\<close> shifted by 32 bits, and the 32-bit word drops the integral part.
\<close>

definition int_root :: "nat \<Rightarrow> int \<Rightarrow> int" where
  "int_root k n = foldl (\<lambda>r b. if (r + 2 ^ b) ^ k \<le> n then r + 2 ^ b else r) 0 (rev [0..<40])"

definition first_primes :: "int list" where
  "first_primes = filter (\<lambda>p. list_all (\<lambda>d. p mod d \<noteq> 0) [2..p - 1]) [2..311]"

definition sha_K :: "uint32 list" where
  "sha_K = map (\<lambda>p. word_of_int (int_root 3 (p * 2 ^ 96))) first_primes"

type_synonym sha_state =
  "uint32 \<times> uint32 \<times> uint32 \<times> uint32 \<times> uint32 \<times> uint32 \<times> uint32 \<times> uint32"

definition sha_root :: "nat \<Rightarrow> uint32" where
  "sha_root i = word_of_int (int_root 2 (first_primes ! i * 2 ^ 64))"

definition sha_init :: sha_state where
  "sha_init = (sha_root 0, sha_root 1, sha_root 2, sha_root 3, sha_root 4, sha_root 5, sha_root 6, sha_root 7)"

text \<open>The bytes of an unsigned number, most significant first, and the number of four bytes.\<close>

definition be_bytes :: "nat \<Rightarrow> int \<Rightarrow> byte list" where
  "be_bytes k n = map (\<lambda>i. word_of_int (n div 256 ^ (k - Suc i))) [0..<k]"

definition be_word :: "byte list \<Rightarrow> uint32" where
  "be_word bs = foldl (\<lambda>acc b. acc * 256 + ucast b) 0 bs"

definition sha_pad :: "byte list \<Rightarrow> byte list" where
  "sha_pad m = m @ [0x80] @ replicate ((119 - length m mod 64) mod 64) 0 @ be_bytes 8 (8 * int (length m))"

definition sha_small0 :: "uint32 \<Rightarrow> uint32" where
  "sha_small0 x = word_rotr 7 x XOR word_rotr 18 x XOR drop_bit 3 x"

definition sha_small1 :: "uint32 \<Rightarrow> uint32" where
  "sha_small1 x = word_rotr 17 x XOR word_rotr 19 x XOR drop_bit 10 x"

definition sha_big0 :: "uint32 \<Rightarrow> uint32" where
  "sha_big0 x = word_rotr 2 x XOR word_rotr 13 x XOR word_rotr 22 x"

definition sha_big1 :: "uint32 \<Rightarrow> uint32" where
  "sha_big1 x = word_rotr 6 x XOR word_rotr 11 x XOR word_rotr 25 x"

definition sha_ch :: "uint32 \<Rightarrow> uint32 \<Rightarrow> uint32 \<Rightarrow> uint32" where
  "sha_ch x y z = (x AND y) XOR (NOT x AND z)"

definition sha_maj :: "uint32 \<Rightarrow> uint32 \<Rightarrow> uint32 \<Rightarrow> uint32" where
  "sha_maj x y z = (x AND y) XOR (x AND z) XOR (y AND z)"

text \<open>The message schedule: 16 words of the block, extended to 64.\<close>

fun sha_schedule :: "nat \<Rightarrow> uint32 list \<Rightarrow> uint32 list" where
  "sha_schedule 0 w = w"
| "sha_schedule (Suc n) w =
     (let t = length w in
      sha_schedule n (w @ [sha_small1 (w ! (t - 2)) + w ! (t - 7) + sha_small0 (w ! (t - 15)) + w ! (t - 16)]))"

fun sha_round :: "sha_state \<Rightarrow> uint32 \<times> uint32 \<Rightarrow> sha_state" where
  "sha_round (a, b, c, d, e, f, g, h) (k, w) =
     (let t1 = h + sha_big1 e + sha_ch e f g + k + w; t2 = sha_big0 a + sha_maj a b c
      in (t1 + t2, a, b, c, d + t1, e, f, g))"

fun sha_add :: "sha_state \<Rightarrow> sha_state \<Rightarrow> sha_state" where
  "sha_add (a, b, c, d, e, f, g, h) (a', b', c', d', e', f', g', h') =
     (a + a', b + b', c + c', d + d', e + e', f + f', g + g', h + h')"

definition sha_block :: "sha_state \<Rightarrow> byte list \<Rightarrow> sha_state" where
  "sha_block st block =
     (let w = sha_schedule 48 (map be_word (chunks 4 block))
      in sha_add st (foldl sha_round st (zip sha_K w)))"

fun sha_bytes :: "sha_state \<Rightarrow> byte list" where
  "sha_bytes (a, b, c, d, e, f, g, h) =
     concat (map (\<lambda>x. be_bytes 4 (uint x)) [a, b, c, d, e, f, g, h])"

definition sha256 :: "byte list \<Rightarrow> byte list" where
  "sha256 m = sha_bytes (foldl sha_block sha_init (chunks 64 (sha_pad m)))"

lemma length_be_bytes [simp]: "length (be_bytes k n) = k"
  by (simp add: be_bytes_def)

lemma length_sha_bytes [simp]: "length (sha_bytes st) = 32"
  by (cases st rule: sha_bytes.cases) simp

lemma length_sha256 [simp]: "length (sha256 m) = 32"
  by (simp add: sha256_def)

text \<open>The padding fills whole blocks.\<close>

lemma sha_pad_blocks: "length (sha_pad m) mod 64 = 0"
proof -
  have "(119 - r) mod 64 + r + 9 = 64 \<or> (119 - r) mod 64 + r + 9 = 128" if "r < 64" for r :: nat
  proof (cases "r < 56")
    case True
    then have "119 - r = (55 - r) + 64" by simp
    then have "(119 - r) mod 64 = 55 - r" using True by (simp only: mod_add_self2) simp
    then show ?thesis using True by simp
  qed (use that in simp)
  from this [of "length m mod 64"]
  have "(length m mod 64 + (9 + (119 - length m mod 64) mod 64)) mod 64 = 0" by (auto simp: add.commute add.left_commute)
  then have "(length m + (9 + (119 - length m mod 64) mod 64)) mod 64 = 0" by (simp only: mod_add_left_eq)
  then show ?thesis by (simp add: sha_pad_def add.commute add.left_commute)
qed

section \<open>HMAC\<close>

definition byte_xor :: "byte \<Rightarrow> byte \<Rightarrow> byte" where
  "byte_xor a b = a XOR b"

text \<open>A key longer than the block of 64 bytes is hashed first; a shorter one is filled with zeros.\<close>

definition hmac_block_key :: "byte list \<Rightarrow> byte list" where
  "hmac_block_key key =
     (let k = (if 64 < length key then sha256 key else key) in k @ replicate (64 - length k) 0)"

definition hmac_sha256 :: "byte list \<Rightarrow> byte list \<Rightarrow> byte list" where
  "hmac_sha256 key msg =
     (let k = hmac_block_key key
      in sha256 (map (byte_xor 0x5c) k @ sha256 (map (byte_xor 0x36) k @ msg)))"

lemma length_hmac_block_key: "length (hmac_block_key key) = 64"
  by (simp add: hmac_block_key_def Let_def)

lemma length_hmac [simp]: "length (hmac_sha256 key msg) = 32"
  by (simp add: hmac_sha256_def Let_def)

section \<open>base64.StdEncoding\<close>

definition base64_alphabet :: string where
  "base64_alphabet = ''ABCDEFGHIJKLMNOPQRSTUVWXYZabcdefghijklmnopqrstuvwxyz0123456789+/''"

definition sextet :: "nat \<Rightarrow> char" where
  "sextet n = base64_alphabet ! n"

fun base64 :: "byte list \<Rightarrow> string" where
  "base64 [] = []"
| "base64 [a] = [sextet (unat a div 4), sextet (unat a mod 4 * 16), CHR ''='', CHR ''='']"
| "base64 [a, b] =
     [sextet (unat a div 4), sextet (unat a mod 4 * 16 + unat b div 16), sextet (unat b mod 16 * 4), CHR ''='']"
| "base64 (a # b # c # bs) =
     sextet (unat a div 4) # sextet (unat a mod 4 * 16 + unat b div 16) #
     sextet (unat b mod 16 * 4 + unat c div 64) # sextet (unat c mod 64) # base64 bs"

lemma length_base64: "length (base64 bs) = 4 * ((length bs + 2) div 3)"
proof (induction bs rule: base64.induct)
  case (4 a b c bs)
  have "length (a # b # c # bs) + 2 = (length bs + 2) + 3" by simp
  then show ?case using 4 by (simp only: div_add_self2) simp
qed simp_all

lemma alphabet_distinct: "distinct (base64_alphabet @ [CHR ''=''])"
  by (simp add: base64_alphabet_def)

lemma length_alphabet: "length base64_alphabet = 64"
  by (simp add: base64_alphabet_def)

lemma sextet_inj: "m < 64 \<Longrightarrow> n < 64 \<Longrightarrow> sextet m = sextet n \<longleftrightarrow> m = n"
  using alphabet_distinct by (simp add: sextet_def nth_eq_iff_index_eq length_alphabet)

lemma sextet_not_pad: "m < 64 \<Longrightarrow> sextet m \<noteq> CHR ''=''" "m < 64 \<Longrightarrow> CHR ''='' \<noteq> sextet m"
  using alphabet_distinct nth_mem [of m base64_alphabet] unfolding sextet_def length_alphabet
  by (metis disjoint_iff distinct_append list.set_intros(1))+

lemma byte_bound: "unat (a :: byte) < 256"
  using unsigned_less [of a, where ?'a = nat] by simp

lemma sextet_bounds:
  "unat (a :: byte) div 4 < 64" "unat a mod 4 * 16 + unat (b :: byte) div 16 < 64"
  "unat b mod 16 * 4 + unat (c :: byte) div 64 < 64" "unat c mod 64 < 64"
  "unat a mod 4 * 16 < 64" "unat b mod 16 * 4 < 64"
  using byte_bound [of a] byte_bound [of b] byte_bound [of c] by auto

lemma sextet_in: "m < 64 \<Longrightarrow> sextet m \<in> set base64_alphabet"
  by (simp add: sextet_def length_alphabet)

lemma base64_chars: "set (base64 bs) \<subseteq> insert (CHR ''='') (set base64_alphabet)"
  by (induction bs rule: base64.induct) (simp_all add: sextet_in sextet_bounds)

text \<open>The parts of two numbers that a mixed digit determines.\<close>

lemma mixed_digit: "m * k + i = n * k + j \<Longrightarrow> i < k \<Longrightarrow> j < k \<Longrightarrow> m = n \<and> i = (j :: nat)"
  by (metis add.commute add_diff_cancel_right' div_mult_self3 div_less mult.commute not_less_zero plus_nat.add_0)

lemma div_mod_unat: "unat (a :: byte) div k = unat b div k \<Longrightarrow> unat a mod k = unat b mod k \<Longrightarrow> a = b"
  by (metis div_mod_decomp word_unat_eq_iff)

lemma base64_inj: "base64 xs = base64 ys \<Longrightarrow> xs = ys"
proof (induction xs arbitrary: ys rule: base64.induct)
  case 1
  then show ?case by (cases ys rule: base64.cases) simp_all
next
  case (2 a)
  then show ?case
    by (cases ys rule: base64.cases)
       (auto simp: sextet_inj sextet_bounds sextet_not_pad intro: div_mod_unat [of _ 4])
next
  case (3 a b)
  show ?case
  proof (cases ys rule: base64.cases)
    case (3 a' b')
    have "unat a div 4 = unat a' div 4"
      "unat a mod 4 * 16 + unat b div 16 = unat a' mod 4 * 16 + unat b' div 16"
      "unat b mod 16 = unat b' mod 16"
      using \<open>base64 [a, b] = base64 ys\<close> by (simp_all add: 3 sextet_inj sextet_bounds)
    moreover have "unat b div 16 < 16" "unat b' div 16 < 16" using byte_bound [of b] byte_bound [of b'] by auto
    ultimately show ?thesis by (metis 3 div_mod_unat mixed_digit)
  qed (use 3 in \<open>simp_all add: sextet_not_pad sextet_bounds\<close>)
next
  case (4 a b c bs)
  show ?case
  proof (cases ys rule: base64.cases)
    case (4 a' b' c' bs')
    have e: "unat a div 4 = unat a' div 4"
      "unat a mod 4 * 16 + unat b div 16 = unat a' mod 4 * 16 + unat b' div 16"
      "unat b mod 16 * 4 + unat c div 64 = unat b' mod 16 * 4 + unat c' div 64"
      "unat c mod 64 = unat c' mod 64" "base64 bs = base64 bs'"
      using \<open>base64 (a # b # c # bs) = base64 ys\<close> by (simp_all add: 4 sextet_inj sextet_bounds)
    have "unat b div 16 < 16" "unat b' div 16 < 16" "unat c div 64 < 4" "unat c' div 64 < 4"
      using byte_bound [of b] byte_bound [of b'] byte_bound [of c] byte_bound [of c'] by auto
    then have "a = a'" "b = b'" "c = c'" using e by (metis div_mod_unat mixed_digit)+
    then show ?thesis using e(5) "4.IH" 4 by simp
  qed (use 4 in \<open>simp_all add: sextet_not_pad sextet_bounds\<close>)
qed

end
