(* ===== verification/Push_Protocol.thy ===== *)
theory Push_Protocol
  imports Go_Crypto Api_Types
begin

text \<open>
  The push protocol (push/protocol.go, push/hmac.go): the frames on the wire, their constructors,
  the chunking of log metrics, and the handshake signature.  The JSON codec that encode and decode
  call is a parameter of the pusher.
\<close>

definition ProtocolVersion :: int where "ProtocolVersion = 1"

definition KindHello :: string where "KindHello = ''hello''"
definition KindSnapshot :: string where "KindSnapshot = ''snapshot''"
definition KindSnapshotEnd :: string where "KindSnapshotEnd = ''snapshot_end''"
definition KindAppDelta :: string where "KindAppDelta = ''app_delta''"
definition KindK8sEvent :: string where "KindK8sEvent = ''k8s_event''"
definition KindLogMetrics :: string where "KindLogMetrics = ''log_metrics''"
definition KindHeartbeat :: string where "KindHeartbeat = ''heartbeat''"
definition KindPong :: string where "KindPong = ''pong''"

lemmas frame_kinds = KindHello_def KindSnapshot_def KindSnapshotEnd_def KindAppDelta_def
  KindK8sEvent_def KindLogMetrics_def KindHeartbeat_def KindPong_def

definition MaxLogMetricsServices :: nat where "MaxLogMetricsServices = 100"
definition MaxLogMetricsSampleLen :: nat where "MaxLogMetricsSampleLen = 256"

definition OpAdd :: string where "OpAdd = ''add''"
definition OpUpdate :: string where "OpUpdate = ''update''"
definition OpDelete :: string where "OpDelete = ''delete''"

text \<open>A core/v1 Event: the fields that the pusher reads, and the rest, which it carries along.\<close>

record Event =
  ev_Namespace :: string
  ev_Type :: string
  ev_Rest :: string

record HelloPayload =
  hello_AgentVersion :: string
  hello_ClusterName :: string
  hello_Tenant :: string
  hello_Timestamp :: int64
  hello_Signature :: string
  hello_Namespaces :: "string list"
  hello_Capabilities :: "string list"

record SnapshotPayload =
  snap_Apps :: "Application list"

record AppDeltaPayload =
  delta_Op :: string
  delta_App :: Application

record K8sEventPayload =
  kev_Event :: Event

record ServiceLogMetrics =
  sm_Namespace :: string
  sm_Service :: string
  sm_ErrorCount :: int64
  sm_WarnCount :: int64
  sm_TotalCount :: int64
  sm_Sample :: string

record LogMetricsPayload =
  lm_WindowStart :: int64
  lm_WindowSec :: int
  lm_Services :: "ServiceLogMetrics list"

record Frame =
  f_V :: int
  f_Kind :: string
  f_Cluster :: string
  f_Hello :: "HelloPayload option"
  f_Snapshot :: "SnapshotPayload option"
  f_AppDelta :: "AppDeltaPayload option"
  f_K8sEvent :: "K8sEventPayload option"
  f_LogMetrics :: "LogMetricsPayload option"

text \<open>The envelope with every payload unset, as Go's composite literals leave it.\<close>

definition envelope :: "string \<Rightarrow> string \<Rightarrow> Frame" where
  "envelope kind cluster =
     \<lparr>f_V = ProtocolVersion, f_Kind = kind, f_Cluster = cluster, f_Hello = None, f_Snapshot = None,
      f_AppDelta = None, f_K8sEvent = None, f_LogMetrics = None\<rparr>"

section \<open>The handshake\<close>

definition handshakeCanonical :: "string \<Rightarrow> string \<Rightarrow> int64 \<Rightarrow> string" where
  "handshakeCanonical tenant cluster ts =
     tenant @ [CHR 0x0A] @ cluster @ [CHR 0x0A] @ format_int (sint ts)"

definition signHandshake :: "string \<Rightarrow> string \<Rightarrow> string \<Rightarrow> int64 \<Rightarrow> string" where
  "signHandshake key tenant cluster ts =
     base64 (hmac_sha256 (bytes_of key) (bytes_of (handshakeCanonical tenant cluster ts)))"

section \<open>The frames\<close>

definition newHello ::
  "string \<Rightarrow> string \<Rightarrow> string \<Rightarrow> string \<Rightarrow> int64 \<Rightarrow> string list \<Rightarrow> string list \<Rightarrow> Frame" where
  "newHello cluster tenant agentVersion key ts namespaces extraCapabilities =
     (envelope KindHello cluster)\<lparr>f_Hello := Some
       \<lparr>hello_AgentVersion = agentVersion, hello_ClusterName = cluster, hello_Tenant = tenant,
        hello_Timestamp = ts, hello_Signature = signHandshake key tenant cluster ts,
        hello_Namespaces = namespaces,
        hello_Capabilities = [''applications'', ''k8s_events''] @ extraCapabilities\<rparr>\<rparr>"

definition newSnapshot :: "string \<Rightarrow> Application list \<Rightarrow> Frame" where
  "newSnapshot cluster apps = (envelope KindSnapshot cluster)\<lparr>f_Snapshot := Some \<lparr>snap_Apps = apps\<rparr>\<rparr>"

definition newSnapshotEnd :: "string \<Rightarrow> Frame" where
  "newSnapshotEnd cluster = envelope KindSnapshotEnd cluster"

definition newAppDelta :: "string \<Rightarrow> string \<Rightarrow> Application \<Rightarrow> Frame" where
  "newAppDelta cluster op app =
     (envelope KindAppDelta cluster)\<lparr>f_AppDelta := Some \<lparr>delta_Op = op, delta_App = app\<rparr>\<rparr>"

definition newK8sEvent :: "string \<Rightarrow> Event \<Rightarrow> Frame" where
  "newK8sEvent cluster e = (envelope KindK8sEvent cluster)\<lparr>f_K8sEvent := Some \<lparr>kev_Event = e\<rparr>\<rparr>"

definition TruncateSample :: "string \<Rightarrow> string" where
  "TruncateSample s = (if length s \<le> MaxLogMetricsSampleLen then s else take MaxLogMetricsSampleLen s)"

text \<open>
  The Go function truncates the samples in place, in the caller's array; the pusher does not read
  that array afterwards.
\<close>

definition newLogMetrics :: "string \<Rightarrow> int64 \<Rightarrow> int \<Rightarrow> ServiceLogMetrics list \<Rightarrow> Frame" where
  "newLogMetrics cluster windowStart windowSec services =
     (envelope KindLogMetrics cluster)\<lparr>f_LogMetrics := Some
       \<lparr>lm_WindowStart = windowStart, lm_WindowSec = windowSec,
        lm_Services = map (\<lambda>s. s\<lparr>sm_Sample := TruncateSample (sm_Sample s)\<rparr>) services\<rparr>\<rparr>"

definition newHeartbeat :: "string \<Rightarrow> Frame" where
  "newHeartbeat cluster = envelope KindHeartbeat cluster"

section \<open>Chunking of log metrics\<close>

text \<open>The slice expression services[i:end].\<close>

definition slice :: "nat \<Rightarrow> nat \<Rightarrow> 'a list \<Rightarrow> 'a list" where
  "slice i j xs = take (j - i) (drop i xs)"

function chunk_loop :: "'a list \<Rightarrow> nat \<Rightarrow> 'a list list \<Rightarrow> 'a list list" where
  "chunk_loop services i out =
     (if i < length services then
        (let e = (if i + MaxLogMetricsServices > length services then length services else i + MaxLogMetricsServices)
         in chunk_loop services (i + MaxLogMetricsServices) (out @ [slice i e services]))
      else out)"
  by pat_completeness auto
termination
  by (relation "measure (\<lambda>(services, i, out). length services - i)") (auto simp: MaxLogMetricsServices_def)

declare chunk_loop.simps [simp del]

definition chunkServices :: "'a list \<Rightarrow> 'a list list" where
  "chunkServices services = (if length services = 0 then [] else chunk_loop services 0 [])"

lemma slice_chunk:
  "slice i (if i + n > length xs then length xs else i + n) xs = take n (drop i xs)"
  by (simp add: slice_def)

lemma chunk_loop_eq: "chunk_loop services i out = out @ chunks MaxLogMetricsServices (drop i services)"
proof (induction services i out rule: chunk_loop.induct)
  case (1 services i out)
  show ?case
  proof (cases "i < length services")
    case True
    then have "chunks MaxLogMetricsServices (drop i services)
        = take MaxLogMetricsServices (drop i services) # chunks MaxLogMetricsServices (drop (i + MaxLogMetricsServices) services)"
      by (subst chunks_step) (simp_all add: MaxLogMetricsServices_def add.commute)
    then show ?thesis using True "1.IH" [OF True refl] by (subst chunk_loop.simps) (simp add: slice_chunk Let_def)
  qed (simp add: chunk_loop.simps)
qed

lemma chunkServices_eq: "chunkServices services = chunks MaxLogMetricsServices services"
  by (simp add: chunkServices_def chunk_loop_eq)

interpretation log_chunks: chunking chunkServices MaxLogMetricsServices
  by unfold_locales (auto simp: chunkServices_eq concat_chunks MaxLogMetricsServices_def dest: chunks_size)

section \<open>What the handshake promises\<close>

lemma canonical_plain_ts: "CHR 0x0A \<notin> set (format_int i)"
  by (rule format_int_free) simp_all

text \<open>
  C30: the signed string is unambiguous as long as no tenant contains a newline: two handshakes have the
  same canonical string only if tenant, cluster name and timestamp all agree (a newline in a
  cluster name does no harm).  The restriction is needed: with a newline in a tenant, two different
  handshakes share one canonical string, and so one signature.
\<close>

theorem handshake_unambiguous:
  assumes "CHR 0x0A \<notin> set tenant" and "CHR 0x0A \<notin> set tenant'"
  shows "(handshakeCanonical tenant cluster ts = handshakeCanonical tenant' cluster' ts' \<longleftrightarrow>
      tenant = tenant' \<and> cluster = cluster' \<and> ts = ts') \<and>
    handshakeCanonical (tenant @ [CHR 0x0A] @ rest) cluster ts = handshakeCanonical tenant (rest @ [CHR 0x0A] @ cluster) ts"
proof -
  let ?nl = "\<lambda>c. c \<noteq> CHR 0x0A"
  let ?tail = "\<lambda>c (i::int64). c @ [CHR 0x0A] @ format_int (sint i)"
  have first: "takeWhile ?nl (handshakeCanonical t c i) = t" if "CHR 0x0A \<notin> set t" for t c i
    using that by (auto simp: handshakeCanonical_def takeWhile_append)
  have last: "takeWhile ?nl (rev (?tail c i)) = rev (format_int (sint i))"
    "tl (dropWhile ?nl (rev (?tail c i))) = rev c" for c i
    using canonical_plain_ts [of "sint i"] by (auto simp: takeWhile_append dropWhile_append)
  have "tenant = tenant' \<and> cluster = cluster' \<and> ts = ts'"
    if eq: "handshakeCanonical tenant cluster ts = handshakeCanonical tenant' cluster' ts'"
  proof -
    have t: "tenant = tenant'"
      using arg_cong [OF eq, of "takeWhile ?nl"] by (simp only: first assms not_False_eq_True)
    have tails: "rev (?tail cluster ts) = rev (?tail cluster' ts')" using eq by (simp add: handshakeCanonical_def t)
    have c: "rev cluster = rev cluster'"
      using arg_cong [OF tails, of "\<lambda>s. tl (dropWhile ?nl s)"] by (simp only: last)
    have "rev (format_int (sint ts)) = rev (format_int (sint ts'))"
      using arg_cong [OF tails, of "takeWhile ?nl"] by (simp only: last)
    then have "sint ts = sint ts'" by (simp add: format_int_inj)
    then show ?thesis using t c by (simp add: sint_int64_inj)
  qed
  then show ?thesis by (auto simp: handshakeCanonical_def)
qed

theorem handshake_unambiguous_witness:
  "handshakeCanonical ''acme'' ''prod'' 1 \<noteq> handshakeCanonical ''acme'' ''dev'' 1"
  using handshake_unambiguous [of "''acme''" "''acme''" "''prod''" 1 "''dev''" 1 "[]"] by simp

text \<open>
  C31: the signature is always 44 characters of the base64 alphabet and its padding character, so
  it can stand in a header and in JSON as it is, and it carries the whole MAC: two signatures agree exactly when the two MACs of the canonical
  strings agree.
\<close>

theorem signature_form:
  "length (signHandshake key tenant cluster ts) = 44 \<and>
   set (signHandshake key tenant cluster ts) \<subseteq> insert (CHR ''='') (set base64_alphabet) \<and>
   (signHandshake key tenant cluster ts = signHandshake key' tenant' cluster' ts' \<longleftrightarrow>
      hmac_sha256 (bytes_of key) (bytes_of (handshakeCanonical tenant cluster ts)) =
      hmac_sha256 (bytes_of key') (bytes_of (handshakeCanonical tenant' cluster' ts')))"
  using base64_chars by (auto simp: signHandshake_def length_base64 dest: base64_inj)

section \<open>What the frames promise\<close>

text \<open>At most one payload is set, and it is the one that the kind announces.\<close>

definition payload_matches :: "Frame \<Rightarrow> bool" where
  "payload_matches f \<longleftrightarrow>
     (f_Hello f \<noteq> None \<longleftrightarrow> f_Kind f = KindHello) \<and>
     (f_Snapshot f \<noteq> None \<longleftrightarrow> f_Kind f = KindSnapshot) \<and>
     (f_AppDelta f \<noteq> None \<longleftrightarrow> f_Kind f = KindAppDelta) \<and>
     (f_K8sEvent f \<noteq> None \<longleftrightarrow> f_Kind f = KindK8sEvent) \<and>
     (f_LogMetrics f \<noteq> None \<longleftrightarrow> f_Kind f = KindLogMetrics)"

lemma frames_match [simp]:
  "payload_matches (newHello c t v k ts nss caps)" "payload_matches (newSnapshot c apps)"
  "payload_matches (newSnapshotEnd c)" "payload_matches (newAppDelta c op app)"
  "payload_matches (newK8sEvent c e)" "payload_matches (newLogMetrics c ws wsec svcs)"
  "payload_matches (newHeartbeat c)"
  by (simp_all add: payload_matches_def newHello_def newSnapshot_def newSnapshotEnd_def newAppDelta_def
      newK8sEvent_def newLogMetrics_def newHeartbeat_def envelope_def frame_kinds)

lemma TruncateSample_bound: "length (TruncateSample s) \<le> 256"
  by (simp add: TruncateSample_def MaxLogMetricsSampleLen_def)

lemma TruncateSample_prefix: "TruncateSample s = take 256 s"
  by (simp add: TruncateSample_def MaxLogMetricsSampleLen_def)

text \<open>The limit counts bytes: the two bytes of an e with acute accent, CHR 0xC3 and CHR 0xA9, are parted by it.\<close>

lemma TruncateSample_parts_rune:
  "TruncateSample (replicate 255 CHR ''a'' @ [CHR 0xC3, CHR 0xA9]) = replicate 255 CHR ''a'' @ [CHR 0xC3]"
  by (simp add: TruncateSample_prefix)

lemma TruncateSample_idem [simp]: "TruncateSample (TruncateSample s) = TruncateSample s"
  by (simp add: TruncateSample_prefix)

lemma frame_kind_simps [simp]:
  "f_Kind (newHello c t v k ts nss caps) = KindHello" "f_Kind (newSnapshot c apps) = KindSnapshot"
  "f_Kind (newSnapshotEnd c) = KindSnapshotEnd" "f_Kind (newAppDelta c op app) = KindAppDelta"
  "f_Kind (newK8sEvent c e) = KindK8sEvent" "f_Kind (newLogMetrics c ws wsec svcs) = KindLogMetrics"
  "f_Kind (newHeartbeat c) = KindHeartbeat"
  by (simp_all add: newHello_def newSnapshot_def newSnapshotEnd_def newAppDelta_def
      newK8sEvent_def newLogMetrics_def newHeartbeat_def envelope_def)

end
