(* ===== verification/Pusher.thy ===== *)
theory Pusher
  imports Push_Protocol
begin

text \<open>
  The push client (push/pusher.go): endpoint and namespace parsing, the options, the bounded send
  queue with its informer handlers, the snapshot, one connection, and the reconnect loop.

  The outside world is the record \<open>push_env\<close>: reading the token file, the clock, the dialer, the
  JSON encoder, the cache and the informers.  A connection carries its wire (what has been written)
  and its fate (the results of the writes to come), so that every behaviour of the network is a
  value of the fate.
\<close>

section \<open>Flags\<close>

text \<open>
  The scheme of url.Parse; \<open>rest\<close> gives its other errors (control characters, host, port, escapes)
  and \<open>quote\<close> is the verb %q.
\<close>

definition parse_scheme :: "(string \<Rightarrow> string) \<Rightarrow> (string \<Rightarrow> go_error option) \<Rightarrow> string \<Rightarrow> go_error + string" where
  "parse_scheme quote rest raw =
     (case rest raw of
        Some e \<Rightarrow> Inl e
      | None \<Rightarrow>
          (case url_scheme raw of
             Inl e \<Rightarrow> Inl (ErrOther (''parse '' @ quote (takeWhile (\<lambda>c. c \<noteq> CHR ''#'') raw) @ '': '' @ err_msg e))
           | Inr s \<Rightarrow> Inr s))"

definition ValidateEndpoint ::
  "(string \<Rightarrow> string) \<Rightarrow> (string \<Rightarrow> go_error option) \<Rightarrow> string \<Rightarrow> bool \<Rightarrow> go_error option" where
  "ValidateEndpoint quote rest endpoint allowPlaintext =
     (case parse_scheme quote rest endpoint of
        Inl e \<Rightarrow> Some (ErrOther (''invalid --push-endpoint '' @ quote endpoint @ '': '' @ err_msg e))
      | Inr scheme \<Rightarrow>
          if scheme = ''wss'' then None
          else if scheme = ''ws'' then
            (if allowPlaintext then None
             else Some (ErrOther (''--push-endpoint uses plaintext ws:// which sends the bearer token in the clear; '' @
               ''use wss:// or set --push-allow-plaintext to allow it'')))
          else Some (ErrOther (''--push-endpoint must be a ws:// or wss:// URL, got scheme '' @ quote scheme)))"

fun parse_loop :: "string list \<Rightarrow> string list \<Rightarrow> string list" where
  "parse_loop [] out = out"
| "parse_loop (part # parts) out =
     (let ns = TrimSpace part in if ns \<noteq> [] then parse_loop parts (out @ [ns]) else parse_loop parts out)"

definition ParseNamespaces :: "string \<Rightarrow> string list" where
  "ParseNamespaces s = parse_loop (split_on (CHR '','') s) []"

section \<open>State\<close>

record PushOptions =
  po_Endpoint :: string
  po_ClusterName :: string
  po_Tenant :: string
  po_Token :: string
  po_TokenFile :: string
  po_Namespaces :: "string list"
  po_AgentVersion :: string
  po_Heartbeat :: int64
  po_InsecureTLS :: bool
  po_SnapshotChunk :: int
  po_LogMetrics :: bool

text \<open>
  \<open>ps_sendC\<close> is the channel: None for nil, else its buffered frames, oldest first.  \<open>ps_dropLog\<close>
  holds the counts of the log lines about dropped frames.  \<open>ps_handlers\<close> are the active informer
  registrations, which the informers keep.
\<close>

datatype informer = AppInformer | EventInformer

record Pusher =
  ps_opts :: PushOptions
  ps_sendC :: "Frame list option"
  ps_droppedFrames :: uint64
  ps_dropLog :: "uint64 list"
  ps_rejected :: bool
  ps_handlers :: "informer list"

definition Seconds :: "int \<Rightarrow> int64" where
  "Seconds n = word_of_int (n * 1000000000)"

definition push_New :: "PushOptions \<Rightarrow> Pusher option" where
  "push_New opts =
     (if po_Endpoint opts = [] then None
      else
        (let o1 = (if sint (po_Heartbeat opts) \<le> 0 then opts\<lparr>po_Heartbeat := Seconds 20\<rparr> else opts);
             o2 = (if po_SnapshotChunk o1 \<le> 0 then o1\<lparr>po_SnapshotChunk := 50\<rparr> else o1)
         in Some \<lparr>ps_opts = o2, ps_sendC = None, ps_droppedFrames = 0, ps_dropLog = [], ps_rejected = False,
              ps_handlers = []\<rparr>))"

section \<open>The send queue and its producers\<close>

definition queue_cap :: nat where "queue_cap = 4096"

definition enqueue :: "Frame \<Rightarrow> Pusher \<Rightarrow> Pusher" where
  "enqueue f p =
     (case ps_sendC p of
        None \<Rightarrow> p
      | Some q \<Rightarrow>
          if length q < queue_cap then p\<lparr>ps_sendC := Some (q @ [f])\<rparr>
          else
            (let n = ps_droppedFrames p + 1; p' = p\<lparr>ps_droppedFrames := n\<rparr>
             in if n = 1 \<or> n mod 1000 = 0 then p'\<lparr>ps_dropLog := ps_dropLog p @ [n]\<rparr> else p'))"

fun scope_loop :: "string list \<Rightarrow> string \<Rightarrow> bool" where
  "scope_loop [] ns = False"
| "scope_loop (want # wants) ns = (if want = ns then True else scope_loop wants ns)"

definition inScope :: "Pusher \<Rightarrow> string \<Rightarrow> bool" where
  "inScope p ns =
     (if length (po_Namespaces (ps_opts p)) = 0 then True else scope_loop (po_Namespaces (ps_opts p)) ns)"

text \<open>
  What an informer hands to its handler, typed any: an Application, an Event, or something else (for a
  deletion that the watch missed, a cache.DeletedFinalStateUnknown).
\<close>

datatype informer_obj = AnApplication Application | AnEvent Event | AnotherObject string

definition onApp :: "string \<Rightarrow> informer_obj \<Rightarrow> Pusher \<Rightarrow> Pusher" where
  "onApp op obj p =
     (case obj of
        AnApplication app \<Rightarrow>
          if \<not> inScope p (om_Namespace (app_Meta app)) then p
          else enqueue (newAppDelta (po_ClusterName (ps_opts p)) op app) p
      | _ \<Rightarrow> p)"

definition onEvent :: "informer_obj \<Rightarrow> Pusher \<Rightarrow> Pusher" where
  "onEvent obj p =
     (case obj of
        AnEvent e \<Rightarrow>
          if ev_Type e \<noteq> ''Warning'' then p
          else if \<not> inScope p (ev_Namespace e) then p
          else enqueue (newK8sEvent (po_ClusterName (ps_opts p)) e) p
      | _ \<Rightarrow> p)"

fun send_chunks :: "int64 \<Rightarrow> int \<Rightarrow> ServiceLogMetrics list list \<Rightarrow> Pusher \<Rightarrow> Pusher" where
  "send_chunks windowStart windowSec [] p = p"
| "send_chunks windowStart windowSec (chunk # rest) p =
     send_chunks windowStart windowSec rest
       (enqueue (newLogMetrics (po_ClusterName (ps_opts p)) windowStart windowSec chunk) p)"

text \<open>The receiver may be nil: push mode disabled.\<close>

definition SendLogMetrics ::
  "int64 \<Rightarrow> int \<Rightarrow> ServiceLogMetrics list \<Rightarrow> Pusher option \<Rightarrow> Pusher option" where
  "SendLogMetrics windowStart windowSec services p =
     (case p of
        None \<Rightarrow> None
      | Some p \<Rightarrow>
          if length services = 0 then Some p
          else if ps_sendC p = None then Some p
          else Some (send_chunks windowStart windowSec (chunkServices services) p))"

section \<open>The environment and the connection\<close>

record dial_header =
  h_Authorization :: string
  h_Tenant :: string
  h_Cluster :: string
  h_Ts :: string

record push_env =
  e_ReadFile :: "string \<Rightarrow> go_error + string"
  e_now :: int64
  e_Dial :: "bool \<Rightarrow> string \<Rightarrow> dial_header \<Rightarrow> go_error option"
  e_Marshal :: "Frame \<Rightarrow> go_error + string"
  e_List :: "string option \<Rightarrow> go_error + Application list"
  e_GetInformer :: "informer \<Rightarrow> go_error option"
  e_AddEventHandler :: "informer \<Rightarrow> go_error option"

text \<open>A text message is shown as the frame whose encoding it carries.\<close>

datatype message = Text Frame | Ping

record conn =
  c_wire :: "message list"
  c_fate :: "go_error option list"

fun conn_write :: "message \<Rightarrow> conn \<Rightarrow> go_error option \<times> conn" where
  "conn_write m c =
     (case c_fate c of
        [] \<Rightarrow> (None, c\<lparr>c_wire := c_wire c @ [m]\<rparr>)
      | None # fate \<Rightarrow> (None, c\<lparr>c_wire := c_wire c @ [m], c_fate := fate\<rparr>)
      | Some e # fate \<Rightarrow> (Some e, c\<lparr>c_fate := fate\<rparr>))"

definition encode :: "push_env \<Rightarrow> Frame \<Rightarrow> go_error + string" where
  "encode E f = e_Marshal E f"

definition writeFrame :: "push_env \<Rightarrow> Frame \<Rightarrow> conn \<Rightarrow> go_error option \<times> conn" where
  "writeFrame E f c =
     (case encode E f of
        Inl e \<Rightarrow> (Some e, c)
      | Inr data \<Rightarrow> conn_write (Text f) c)"

definition writePing :: "conn \<Rightarrow> go_error option \<times> conn" where
  "writePing c = conn_write Ping c"

section \<open>Token, snapshot, handlers\<close>

definition resolveToken :: "push_env \<Rightarrow> PushOptions \<Rightarrow> go_error + string" where
  "resolveToken E opts =
     (if po_TokenFile opts \<noteq> [] then
        (case e_ReadFile E (po_TokenFile opts) of
           Inl e \<Rightarrow> Inl e
         | Inr b \<Rightarrow> Inr (TrimSpace b))
      else Inr (po_Token opts))"

fun list_loop :: "push_env \<Rightarrow> string list \<Rightarrow> Application list \<Rightarrow> go_error + Application list" where
  "list_loop E [] out = Inr out"
| "list_loop E (ns # nss) out =
     (case e_List E (if ns \<noteq> [] then Some ns else None) of
        Inl e \<Rightarrow> Inl e
      | Inr items \<Rightarrow> list_loop E nss (out @ items))"

definition listApps :: "push_env \<Rightarrow> PushOptions \<Rightarrow> go_error + Application list" where
  "listApps E opts =
     list_loop E (if length (po_Namespaces opts) = 0 then [''''] else po_Namespaces opts) []"

text \<open>
  The loop of sendSnapshot.  With a chunk size that is not positive the Go loop never ends:
  the model then has the value None.
\<close>

partial_function (option) snapshot_loop ::
  "push_env \<Rightarrow> string \<Rightarrow> int \<Rightarrow> Application list \<Rightarrow> int \<Rightarrow> conn \<Rightarrow> (go_error option \<times> conn) option" where
  "snapshot_loop E cluster chunk apps i c =
     (if i < int (length apps) then
        (let e = (if i + chunk > int (length apps) then int (length apps) else i + chunk) in
         case writeFrame E (newSnapshot cluster (slice (nat i) (nat e) apps)) c of
           (Some err, c') \<Rightarrow> Some (Some err, c')
         | (None, c') \<Rightarrow> snapshot_loop E cluster chunk apps (i + chunk) c')
      else Some (writeFrame E (newSnapshotEnd cluster) c))"

definition sendSnapshot :: "push_env \<Rightarrow> PushOptions \<Rightarrow> conn \<Rightarrow> (go_error option \<times> conn) option" where
  "sendSnapshot E opts c =
     (case listApps E opts of
        Inl e \<Rightarrow> Some (Some e, c)
      | Inr apps \<Rightarrow> snapshot_loop E (po_ClusterName opts) (po_SnapshotChunk opts) apps 0 c)"

fun removeHandlers :: "informer list \<Rightarrow> Pusher \<Rightarrow> Pusher" where
  "removeHandlers [] p = p"
| "removeHandlers (r # regs) p = removeHandlers regs (p\<lparr>ps_handlers := remove1 r (ps_handlers p)\<rparr>)"

definition add_handler :: "informer \<Rightarrow> Pusher \<Rightarrow> Pusher" where
  "add_handler i p = p\<lparr>ps_handlers := ps_handlers p @ [i]\<rparr>"

definition registerHandlers :: "push_env \<Rightarrow> Pusher \<Rightarrow> (go_error + informer list) \<times> Pusher" where
  "registerHandlers E p =
     (case e_GetInformer E AppInformer of
        Some e \<Rightarrow> (Inl e, p)
      | None \<Rightarrow>
          (case e_AddEventHandler E AppInformer of
             Some e \<Rightarrow> (Inl e, p)
           | None \<Rightarrow>
               (let p1 = add_handler AppInformer p; regs = [AppInformer] in
                case e_GetInformer E EventInformer of
                  Some e \<Rightarrow> (Inl e, removeHandlers regs p1)
                | None \<Rightarrow>
                    (case e_AddEventHandler E EventInformer of
                       Some e \<Rightarrow> (Inl e, removeHandlers regs p1)
                     | None \<Rightarrow> (Inr (regs @ [EventInformer]), add_handler EventInformer p1)))))"

section \<open>One connection\<close>

text \<open>The headers of the upgrade request: a signature over the same timestamp as the hello.\<close>

definition auth_header :: "PushOptions \<Rightarrow> string \<Rightarrow> int64 \<Rightarrow> dial_header" where
  "auth_header opts token ts =
     \<lparr>h_Authorization = ''Bearer '' @ signHandshake token (po_Tenant opts) (po_ClusterName opts) ts,
      h_Tenant = po_Tenant opts, h_Cluster = po_ClusterName opts, h_Ts = format_int (sint ts)\<rparr>"

definition hello_frame :: "PushOptions \<Rightarrow> string \<Rightarrow> int64 \<Rightarrow> Frame" where
  "hello_frame opts token ts =
     newHello (po_ClusterName opts) (po_Tenant opts) (po_AgentVersion opts) token ts (po_Namespaces opts)
       (if po_LogMetrics opts then [''log_metrics''] else [])"

text \<open>
  The life of a connection after the dial.  In \<open>Greeting\<close> the hello is to be written, in \<open>Listing\<close> the
  snapshot, \<open>Streaming\<close> is the select of writeLoop; \<open>Waiting\<close> is wg.Wait with the result of the write
  side, and \<open>Ended\<close> the return, with the deferred calls done.  \<open>Stuck\<close> is a snapshot loop that does not
  end.  \<open>se_reading\<close>: the goroutine of readLoop runs.  \<open>se_cancelled\<close>: connCtx is cancelled.
  \<open>se_drained\<close> is a ghost: the frames received from the channel.
\<close>

datatype phase = Greeting | Listing | Streaming | Stuck | Waiting "go_error option" | Ended "go_error option"

record session =
  se_pusher :: Pusher
  se_conn :: conn
  se_phase :: phase
  se_token :: string
  se_ts :: int64
  se_regs :: "informer list"
  se_reading :: bool
  se_cancelled :: bool
  se_drained :: "Frame list"

text \<open>
  runOnce up to the start of readLoop: an early return, or a session.  It is one step: a frame that
  a handler or the collector enqueues while the handlers are being registered goes to the new
  channel, which nobody reads before the hello and the snapshot are written, so it is the same as a
  frame enqueued right after this step.  Two things are not covered: what such frames leave in the
  channel when the registration fails, and drops between the store of the channel and the reset of
  the counter (more than 4096 frames between two statements).
\<close>

datatype opened = OpenFailed bool go_error Pusher | Opened session

definition open_connection :: "push_env \<Rightarrow> go_error option list \<Rightarrow> Pusher \<Rightarrow> opened" where
  "open_connection E fate p =
     (let opts = ps_opts p in
      case resolveToken E opts of
        Inl e \<Rightarrow> OpenFailed False e p
      | Inr token \<Rightarrow>
          (let ts = e_now E in
           case e_Dial E (po_InsecureTLS opts) (po_Endpoint opts) (auth_header opts token ts) of
             Some e \<Rightarrow> OpenFailed False e p
           | None \<Rightarrow>
               (let p1 = p\<lparr>ps_sendC := Some [], ps_droppedFrames := 0\<rparr> in
                case registerHandlers E p1 of
                  (Inl e, p2) \<Rightarrow> OpenFailed True e p2
                | (Inr regs, p2) \<Rightarrow>
                    Opened \<lparr>se_pusher = p2, se_conn = \<lparr>c_wire = [], c_fate = fate\<rparr>, se_phase = Greeting,
                      se_token = token, se_ts = ts, se_regs = regs, se_reading = True, se_cancelled = False,
                      se_drained = []\<rparr>)))"

datatype event =
    AppChanged string informer_obj
  | EventSeen informer_obj
  | MetricsSent int64 int "ServiceLogMetrics list"
  | Advance
  | Drain
  | Tick
  | CtxDone
  | Stop
  | ReadError bool
  | Return

text \<open>The writes of a heartbeat: the ping, then the text frame.\<close>

definition heartbeat :: "push_env \<Rightarrow> string \<Rightarrow> conn \<Rightarrow> go_error option \<times> conn" where
  "heartbeat E cluster c =
     (case writePing c of
        (Some e, c') \<Rightarrow> (Some e, c')
      | (None, c') \<Rightarrow> writeFrame E (newHeartbeat cluster) c')"

text \<open>The next phase after a write: the given one, or the end of the write side with its error.\<close>

definition after_write :: "phase \<Rightarrow> go_error option \<times> conn \<Rightarrow> session \<Rightarrow> session" where
  "after_write next r s =
     (case r of
        (None, c) \<Rightarrow> s\<lparr>se_conn := c, se_phase := next\<rparr>
      | (Some e, c) \<Rightarrow> s\<lparr>se_conn := c, se_phase := Waiting (Some e), se_cancelled := True\<rparr>)"

fun writer_step :: "push_env \<Rightarrow> event \<Rightarrow> session \<Rightarrow> session" where
  "writer_step E Advance s =
     (let opts = ps_opts (se_pusher s) in
      case se_phase s of
        Greeting \<Rightarrow> after_write Listing (writeFrame E (hello_frame opts (se_token s) (se_ts s)) (se_conn s)) s
      | Listing \<Rightarrow>
          (case sendSnapshot E opts (se_conn s) of
             None \<Rightarrow> s\<lparr>se_phase := Stuck\<rparr>
           | Some r \<Rightarrow> after_write Streaming r s)
      | _ \<Rightarrow> s)"
| "writer_step E Drain s =
     (case (se_phase s, ps_sendC (se_pusher s)) of
        (Streaming, Some (f # q)) \<Rightarrow>
          after_write Streaming (writeFrame E f (se_conn s))
            (s\<lparr>se_pusher := (se_pusher s)\<lparr>ps_sendC := Some q\<rparr>, se_drained := se_drained s @ [f]\<rparr>)
      | _ \<Rightarrow> s)"
| "writer_step E Tick s =
     (if se_phase s = Streaming
      then after_write Streaming (heartbeat E (po_ClusterName (ps_opts (se_pusher s))) (se_conn s)) s
      else s)"
| "writer_step E Stop s =
     (if se_phase s = Streaming \<and> se_cancelled s then s\<lparr>se_phase := Waiting None\<rparr> else s)"
| "writer_step E Return s =
     (case se_phase s of
        Waiting r \<Rightarrow>
          if se_reading s then s
          else s\<lparr>se_phase := Ended r, se_pusher := removeHandlers (se_regs s) (se_pusher s)\<rparr>
      | _ \<Rightarrow> s)"
| "writer_step E _ s = s"

fun session_step :: "push_env \<Rightarrow> event \<Rightarrow> session \<Rightarrow> session" where
  "session_step E (AppChanged op obj) s =
     (if AppInformer \<in> set (ps_handlers (se_pusher s)) then s\<lparr>se_pusher := onApp op obj (se_pusher s)\<rparr> else s)"
| "session_step E (EventSeen obj) s =
     (if EventInformer \<in> set (ps_handlers (se_pusher s)) then s\<lparr>se_pusher := onEvent obj (se_pusher s)\<rparr> else s)"
| "session_step E (MetricsSent ws wsec services) s =
     s\<lparr>se_pusher := the (SendLogMetrics ws wsec services (Some (se_pusher s)))\<rparr>"
| "session_step E CtxDone s = s\<lparr>se_cancelled := True\<rparr>"
| "session_step E (ReadError policy) s =
     (if se_reading s
      then s\<lparr>se_reading := False, se_cancelled := True,
             se_pusher := (if policy then (se_pusher s)\<lparr>ps_rejected := True\<rparr> else se_pusher s)\<rparr>
      else s)"
| "session_step E ev s = writer_step E ev s"

definition run_session :: "push_env \<Rightarrow> event list \<Rightarrow> session \<Rightarrow> session" where
  "run_session E evs s = foldl (\<lambda>s ev. session_step E ev s) s evs"

section \<open>Reconnecting\<close>

definition maxBackoff :: int64 where "maxBackoff = Seconds 30"

text \<open>
  One pass of the loop of Start after runOnce: the time to wait, and the backoff that is left for the
  next pass.
\<close>

definition backoff_step :: "int64 \<Rightarrow> bool \<Rightarrow> bool \<Rightarrow> int64 \<times> int64" where
  "backoff_step backoff connected rejected =
     (let b1 = (if connected then Seconds 1 else backoff);
          b2 = (if rejected then maxBackoff else b1);
          b3 = b2 * 2
      in (b2, if sint maxBackoff < sint b3 then maxBackoff else b3))"

text \<open>
  A pass of the loop as the environment drives it: whether the context was cancelled before the
  connection, what the connection did (established, rejected), whether the context was cancelled
  after it, and whether it was cancelled during the wait.
\<close>

record pass =
  pass_done_before :: bool
  pass_connected :: bool
  pass_rejected :: bool
  pass_done_after :: bool
  pass_done_waiting :: bool

text \<open>The waits that Start makes, and whether it has returned.\<close>

fun start_loop :: "int64 \<Rightarrow> pass list \<Rightarrow> int64 list \<times> bool" where
  "start_loop backoff [] = ([], False)"
| "start_loop backoff (x # xs) =
     (if pass_done_before x \<or> pass_done_after x then ([], True)
      else case backoff_step backoff (pass_connected x) (pass_rejected x) of
        (wait, backoff') \<Rightarrow>
          if pass_done_waiting x then ([wait], True)
          else case start_loop backoff' xs of (waits, returned) \<Rightarrow> (wait # waits, returned))"

definition Start :: "bool \<Rightarrow> pass list \<Rightarrow> int64 list \<times> bool" where
  "Start synced xs = (if \<not> synced then ([], True) else start_loop (Seconds 1) xs)"

end
