(* ===== verification/Pusher_Facts.thy ===== *)
theory Pusher_Facts
  imports Pusher
begin

text \<open>
  What the push client guarantees: which endpoints are accepted, how a list of namespaces is read,
  that the send queue keeps order and counts every drop, that only frames in scope are offered, that
  the wire follows the protocol whatever the network does, that handlers are removed on every path,
  that the key leaves the process only inside signatures, and how long the reconnect loop waits.
\<close>

section \<open>Endpoint and namespaces\<close>

lemma scan_scheme_letters:
  "\<forall>c \<in> set s. is_letter c \<Longrightarrow> acc @ s \<noteq> [] \<Longrightarrow> scan_scheme acc (s @ CHR '':'' # rest) = Inr (Some (acc @ s))"
  by (induction s arbitrary: acc) (auto simp: is_letter_def)

lemma url_scheme_letters:
  assumes "s \<noteq> []" and "\<forall>c \<in> set s. is_letter c"
  shows "url_scheme (s @ CHR '':'' # rest) = Inr (map lower_ascii s)"
proof -
  have "takeWhile (\<lambda>c. c \<noteq> CHR ''#'') (s @ CHR '':'' # rest) = s @ CHR '':'' # takeWhile (\<lambda>c. c \<noteq> CHR ''#'') rest"
  proof -
    have "\<forall>c \<in> set s. c \<noteq> CHR ''#''" using assms(2) by (auto simp: is_letter_def)
    then show ?thesis by (induction s) auto
  qed
  then show ?thesis
    using scan_scheme_letters [OF assms(2), of "[]"] assms(1) by (simp add: url_scheme_def)
qed

text \<open>
  A well-formed endpoint is accepted exactly if its scheme is wss, in any case of letters, or is
  ws and plaintext was allowed; with any other scheme, and for anything that url.Parse refuses, the
  result is an error.  In particular plaintext is never accepted without the opt-in.
\<close>

lemma endpoint_accepted_iff:
  assumes "scheme \<noteq> []" and "\<forall>c \<in> set scheme. is_letter c"
  shows "ValidateEndpoint quote rest (scheme @ CHR '':'' # tail) allow = None \<longleftrightarrow>
    rest (scheme @ CHR '':'' # tail) = None \<and>
    (map lower_ascii scheme = ''wss'' \<or> map lower_ascii scheme = ''ws'' \<and> allow)"
  using url_scheme_letters [OF assms]
  by (auto simp: ValidateEndpoint_def parse_scheme_def split: option.splits if_splits)

lemma endpoint_accepted_iff_example:
  "ValidateEndpoint (\<lambda>s. s) (\<lambda>s. None) ''WSS://hub/events'' False = None \<and>
   ValidateEndpoint (\<lambda>s. s) (\<lambda>s. None) ''ws://hub/events'' False \<noteq> None"
proof -
  have lower: "map lower_ascii ''WSS'' = ''wss''" "map lower_ascii ''ws'' = ''ws''" by code_simp+
  show ?thesis
  using endpoint_accepted_iff [of "''WSS''" "\<lambda>s. s" "\<lambda>s. None" "''//hub/events''" False]
    endpoint_accepted_iff [of "''ws''" "\<lambda>s. s" "\<lambda>s. None" "''//hub/events''" False]
  by (simp only: lower) (simp add: is_letter_def)
qed

lemma parse_loop_eq: "parse_loop parts out = out @ filter (\<lambda>ns. ns \<noteq> []) (map TrimSpace parts)"
  by (induction parts arbitrary: out) (simp_all add: Let_def)

lemma ParseNamespaces_join:
  assumes "\<forall>part \<in> set parts. CHR '','' \<notin> set part"
  shows "ParseNamespaces (join_with (CHR '','') parts) = filter (\<lambda>ns. ns \<noteq> []) (map TrimSpace parts)"
proof (cases "parts = []")
  case True
  then show ?thesis by (simp add: ParseNamespaces_def parse_loop_eq)
next
  case False
  then show ?thesis using assms by (simp add: ParseNamespaces_def parse_loop_eq split_join)
qed

text \<open>
  C40: parsing a list of namespaces.  Whatever stands between the commas is taken, in order, without the
  white space around it, and dropped only if nothing else is left of it; so a list of clean names (not
  empty, no white space around them, no comma) joined by commas is read back as it was, and every
  name that is read is clean.
\<close>

theorem ParseNamespaces_roundtrip:
  "((\<forall>part \<in> set parts. CHR '','' \<notin> set part) \<longrightarrow>
      ParseNamespaces (join_with (CHR '','') parts) = filter (\<lambda>ns. ns \<noteq> []) (map TrimSpace parts)) \<and>
   ((\<forall>ns \<in> set nss. ns \<noteq> [] \<and> trimmed ns \<and> CHR '','' \<notin> set ns) \<longrightarrow>
      ParseNamespaces (join_with (CHR '','') nss) = nss) \<and>
   (\<forall>ns \<in> set (ParseNamespaces s). ns \<noteq> [] \<and> trimmed ns \<and> CHR '','' \<notin> set ns)"
proof (intro conjI impI)
  assume "\<forall>part \<in> set parts. CHR '','' \<notin> set part"
  then show "ParseNamespaces (join_with (CHR '','') parts) = filter (\<lambda>ns. ns \<noteq> []) (map TrimSpace parts)"
    by (rule ParseNamespaces_join)
next
  assume clean: "\<forall>ns \<in> set nss. ns \<noteq> [] \<and> trimmed ns \<and> CHR '','' \<notin> set ns"
  then have "map TrimSpace nss = nss" by (intro map_idI) (simp add: TrimSpace_id)
  moreover have "filter (\<lambda>ns. ns \<noteq> []) nss = nss" using clean by (intro filter_True) simp
  ultimately show "ParseNamespaces (join_with (CHR '','') nss) = nss" using clean by (simp add: ParseNamespaces_join)
next
  show "\<forall>ns \<in> set (ParseNamespaces s). ns \<noteq> [] \<and> trimmed ns \<and> CHR '','' \<notin> set ns"
    using TrimSpace_set split_on_no_sep by (fastforce simp: ParseNamespaces_def parse_loop_eq TrimSpace_trimmed)
qed

theorem ParseNamespaces_roundtrip_witness:
  "ParseNamespaces ''ops, ,dev'' = [''ops'', ''dev''] \<and> ParseNamespaces ''ops,dev'' = [''ops'', ''dev'']"
proof -
  have "trimmed ''ops''" "trimmed ''dev''" by (simp_all add: trimmed_def space_runes_def suffix_def prefix_def)
  moreover from this have "TrimSpace ''ops'' = ''ops''" "TrimSpace ''dev'' = ''dev''" by (simp_all add: TrimSpace_id)
  moreover have "TrimSpace '' '' = []" by code_simp
  ultimately show ?thesis
    using ParseNamespaces_roundtrip [of "[''ops'', '' '', ''dev'']" "[''ops'', ''dev'']" "''ops''"] by simp
qed

section \<open>The send queue\<close>

definition enqueue_all :: "Frame list \<Rightarrow> Pusher \<Rightarrow> Pusher" where
  "enqueue_all fs p = foldl (\<lambda>p f. enqueue f p) p fs"

lemma enqueue_opts [simp]: "ps_opts (enqueue f p) = ps_opts p"
  by (simp add: enqueue_def Let_def split: option.split)

lemma enqueue_all_simps [simp]:
  "enqueue_all [] p = p" "enqueue_all (f # fs) p = enqueue_all fs (enqueue f p)"
  by (simp_all add: enqueue_all_def)

lemma enqueue_all_opts [simp]: "ps_opts (enqueue_all fs p) = ps_opts p"
  by (induction fs arbitrary: p) simp_all

text \<open>The counts between two states of the drop counter, in order.\<close>

definition drop_counts :: "uint64 \<Rightarrow> nat \<Rightarrow> uint64 list" where
  "drop_counts n k = map (\<lambda>i. n + of_nat (Suc i)) [0..<k]"

lemma drop_counts_Suc: "drop_counts n (Suc k) = (n + 1) # drop_counts (n + 1) k"
  by (simp add: drop_counts_def upt_conv_Cons map_Suc_upt [symmetric] comp_def add.assoc del: upt_Suc)

lemma queue_keeps_order_and_counts_aux:
  assumes "ps_sendC p = Some q" and "length q \<le> 4096"
  shows "ps_sendC (enqueue_all fs p) = Some (take 4096 (q @ fs)) \<and>
    ps_droppedFrames (enqueue_all fs p) = ps_droppedFrames p + of_nat (length (q @ fs) - 4096) \<and>
    ps_dropLog (enqueue_all fs p) = ps_dropLog p @
      filter (\<lambda>n. n = 1 \<or> n mod 1000 = 0) (drop_counts (ps_droppedFrames p) (length (q @ fs) - 4096))"
  using assms
proof (induction fs arbitrary: p q)
  case Nil
  then show ?case by (simp add: drop_counts_def)
next
  case (Cons f fs)
  show ?case
  proof (cases "length q < 4096")
    case True
    then have "enqueue f p = p\<lparr>ps_sendC := Some (q @ [f])\<rparr>" using Cons.prems by (simp add: enqueue_def queue_cap_def)
    then show ?thesis using Cons.IH [of "enqueue f p" "q @ [f]"] True by simp
  next
    case False
    then have full: "length q = 4096" using Cons.prems by simp
    have "ps_sendC (enqueue f p) = Some q" "ps_droppedFrames (enqueue f p) = ps_droppedFrames p + 1"
      "ps_dropLog (enqueue f p) = ps_dropLog p @ filter (\<lambda>n. n = 1 \<or> n mod 1000 = 0) [ps_droppedFrames p + 1]"
      using Cons.prems full by (simp_all add: enqueue_def queue_cap_def Let_def)
    then show ?thesis
      using Cons.IH [of "enqueue f p" q] Cons.prems full by (simp add: drop_counts_Suc Suc_diff_le)
  qed
qed

text \<open>
  C35: however many frames are offered while a connection is up, the queue holds the oldest of them up to its
  capacity of 4096, in order; every other one is counted as dropped, exactly, and the
  log gets the first count and every thousandth after it.  Without a connection nothing changes.
\<close>

theorem queue_keeps_order_and_counts:
  assumes "ps_sendC p = Some q" and "length q \<le> 4096"
  shows "ps_sendC (enqueue_all fs p) = Some (take 4096 (q @ fs)) \<and>
    ps_droppedFrames (enqueue_all fs p) = ps_droppedFrames p + of_nat (length (q @ fs) - 4096) \<and>
    ps_dropLog (enqueue_all fs p) = ps_dropLog p @
      filter (\<lambda>n. n = 1 \<or> n mod 1000 = 0) (drop_counts (ps_droppedFrames p) (length (q @ fs) - 4096))"
  by (rule queue_keeps_order_and_counts_aux [OF assms])

definition example_options :: PushOptions where
  "example_options =
     \<lparr>po_Endpoint = ''wss://hub/events'', po_ClusterName = ''prod'', po_Tenant = ''acme'', po_Token = ''secret'',
      po_TokenFile = '''', po_Namespaces = [''ops''], po_AgentVersion = ''1'', po_Heartbeat = Seconds 20,
      po_InsecureTLS = False, po_SnapshotChunk = 2, po_LogMetrics = True\<rparr>"

definition example_pusher :: "Frame list option \<Rightarrow> Pusher" where
  "example_pusher q =
     \<lparr>ps_opts = example_options, ps_sendC = q, ps_droppedFrames = 0, ps_dropLog = [], ps_rejected = False,
      ps_handlers = []\<rparr>"

theorem queue_keeps_order_and_counts_witness:
  "ps_sendC (enqueue_all (replicate 5000 (newHeartbeat ''prod'')) (example_pusher (Some [])))
     = Some (replicate 4096 (newHeartbeat ''prod'')) \<and>
   ps_droppedFrames (enqueue_all (replicate 5000 (newHeartbeat ''prod'')) (example_pusher (Some []))) = 904"
  using queue_keeps_order_and_counts [of "example_pusher (Some [])" "[]" "replicate 5000 (newHeartbeat ''prod'')"]
  by (simp add: example_pusher_def min_def)

section \<open>What is offered to the queue\<close>

text \<open>The frames that an event of the informers or of the collector offers.\<close>

fun offered :: "Pusher \<Rightarrow> event \<Rightarrow> Frame list" where
  "offered p (AppChanged op (AnApplication app)) =
     (if AppInformer \<in> set (ps_handlers p) \<and> inScope p (om_Namespace (app_Meta app))
      then [newAppDelta (po_ClusterName (ps_opts p)) op app] else [])"
| "offered p (EventSeen (AnEvent e)) =
     (if EventInformer \<in> set (ps_handlers p) \<and> ev_Type e = ''Warning'' \<and> inScope p (ev_Namespace e)
      then [newK8sEvent (po_ClusterName (ps_opts p)) e] else [])"
| "offered p (MetricsSent ws wsec services) =
     map (newLogMetrics (po_ClusterName (ps_opts p)) ws wsec) (chunkServices services)"
| "offered p ev = []"

lemma scope_loop_eq: "scope_loop wants ns \<longleftrightarrow> ns \<in> set wants"
  by (induction wants) auto

lemma inScope_eq: "inScope p ns \<longleftrightarrow> po_Namespaces (ps_opts p) = [] \<or> ns \<in> set (po_Namespaces (ps_opts p))"
  by (simp add: inScope_def scope_loop_eq)

lemma send_chunks_eq:
  "send_chunks ws wsec cs p = enqueue_all (map (newLogMetrics (po_ClusterName (ps_opts p)) ws wsec) cs) p"
  by (induction cs arbitrary: p) simp_all

lemma SendLogMetrics_eq:
  "ps_sendC p \<noteq> None \<Longrightarrow> SendLogMetrics ws wsec services (Some p)
     = Some (enqueue_all (map (newLogMetrics (po_ClusterName (ps_opts p)) ws wsec) (chunkServices services)) p)"
  by (auto simp: SendLogMetrics_def send_chunks_eq log_chunks.split_empty)

text \<open>The events that feed the queue.\<close>

fun feeding :: "event \<Rightarrow> bool" where
  "feeding (AppChanged op obj) = True"
| "feeding (EventSeen obj) = True"
| "feeding (MetricsSent ws wsec services) = True"
| "feeding ev = False"

lemma feeding_step:
  assumes "feeding ev" and "ps_sendC (se_pusher s) \<noteq> None"
  shows "session_step E ev s = s\<lparr>se_pusher := enqueue_all (offered (se_pusher s) ev) (se_pusher s)\<rparr>"
proof (cases ev)
  case (AppChanged op obj)
  then show ?thesis by (cases obj) (simp_all add: onApp_def)
next
  case (EventSeen obj)
  then show ?thesis by (cases obj) (simp_all add: onEvent_def)
next
  case (MetricsSent ws wsec services)
  then show ?thesis using assms by (simp add: SendLogMetrics_eq del: option.sel) simp
qed (use assms in simp_all)

text \<open>
  The log metrics of one window.  While connected, all services of the window are offered, in order, cut into frames
  of one to a hundred services each, all with the same window and with samples of at most
  256 bytes; with a nil pusher, without services, or before the first connection, nothing happens.
\<close>

lemma log_metrics_frames:
  "SendLogMetrics ws wsec services None = None \<and>
   (services = [] \<or> ps_sendC p = None \<longrightarrow> SendLogMetrics ws wsec services (Some p) = Some p) \<and>
   (ps_sendC p \<noteq> None \<longrightarrow>
      (\<exists>payloads. SendLogMetrics ws wsec services (Some p) =
          Some (enqueue_all (map (\<lambda>l. (envelope KindLogMetrics (po_ClusterName (ps_opts p)))\<lparr>f_LogMetrics := Some l\<rparr>) payloads) p) \<and>
        concat (map lm_Services payloads) = map (\<lambda>s. s\<lparr>sm_Sample := take 256 (sm_Sample s)\<rparr>) services \<and>
        (\<forall>l \<in> set payloads. lm_Services l \<noteq> [] \<and> length (lm_Services l) \<le> 100 \<and>
           lm_WindowStart l = ws \<and> lm_WindowSec l = wsec \<and> (\<forall>s \<in> set (lm_Services l). length (sm_Sample s) \<le> 256))))"
proof -
  let ?cut = "\<lambda>s :: ServiceLogMetrics. s\<lparr>sm_Sample := take 256 (sm_Sample s)\<rparr>"
  let ?payload = "\<lambda>c. \<lparr>lm_WindowStart = ws, lm_WindowSec = wsec, lm_Services = map ?cut c\<rparr>"
  let ?payloads = "map ?payload (chunkServices services)"
  have frames: "map (newLogMetrics (po_ClusterName (ps_opts p)) ws wsec) (chunkServices services)
      = map (\<lambda>l. (envelope KindLogMetrics (po_ClusterName (ps_opts p)))\<lparr>f_LogMetrics := Some l\<rparr>) ?payloads"
    by (simp add: newLogMetrics_def TruncateSample_prefix)
  have sends: "SendLogMetrics ws wsec services (Some p) =
      Some (enqueue_all (map (\<lambda>l. (envelope KindLogMetrics (po_ClusterName (ps_opts p)))\<lparr>f_LogMetrics := Some l\<rparr>) ?payloads) p)"
    if "ps_sendC p \<noteq> None"
    using SendLogMetrics_eq [OF that, of ws wsec services] by (simp only: frames)
  have all: "concat (map lm_Services ?payloads) = map ?cut services"
    using log_chunks.split_map [of ?cut services] by (simp add: comp_def)
  have each: "\<forall>l \<in> set ?payloads. lm_Services l \<noteq> [] \<and> length (lm_Services l) \<le> 100 \<and>
      lm_WindowStart l = ws \<and> lm_WindowSec l = wsec \<and> (\<forall>s \<in> set (lm_Services l). length (sm_Sample s) \<le> 256)"
    using log_chunks.sized [of _ services] by (auto simp: MaxLogMetricsServices_def)
  show ?thesis
  proof (intro conjI impI)
    assume "ps_sendC p \<noteq> None"
    from sends [OF this] all each show "\<exists>payloads. SendLogMetrics ws wsec services (Some p) =
          Some (enqueue_all (map (\<lambda>l. (envelope KindLogMetrics (po_ClusterName (ps_opts p)))\<lparr>f_LogMetrics := Some l\<rparr>) payloads) p) \<and>
        concat (map lm_Services payloads) = map ?cut services \<and>
        (\<forall>l \<in> set payloads. lm_Services l \<noteq> [] \<and> length (lm_Services l) \<le> 100 \<and>
           lm_WindowStart l = ws \<and> lm_WindowSec l = wsec \<and> (\<forall>s \<in> set (lm_Services l). length (sm_Sample s) \<le> 256))"
      by (intro exI [of _ ?payloads] conjI)
  qed (auto simp: SendLogMetrics_def)
qed

definition example_service :: ServiceLogMetrics where
  "example_service = \<lparr>sm_Namespace = ''ops'', sm_Service = ''api'', sm_ErrorCount = 3, sm_WarnCount = 0,
     sm_TotalCount = 9, sm_Sample = ''timeout''\<rparr>"

lemma log_metrics_frames_example:
  "\<exists>payloads. SendLogMetrics 60 30 (replicate 250 example_service) (Some (example_pusher (Some []))) =
      Some (enqueue_all (map (\<lambda>l. (envelope KindLogMetrics ''prod'')\<lparr>f_LogMetrics := Some l\<rparr>) payloads) (example_pusher (Some []))) \<and>
    concat (map lm_Services payloads) = replicate 250 example_service"
proof -
  have "ps_sendC (example_pusher (Some [])) \<noteq> None" "po_ClusterName (ps_opts (example_pusher (Some []))) = ''prod''"
    by (simp_all add: example_pusher_def example_options_def)
  then show ?thesis
    using log_metrics_frames [of 60 30 "replicate 250 example_service" "example_pusher (Some [])"]
    by (simp only: map_replicate) (auto simp: example_service_def)
qed

section \<open>What enters the queue\<close>

text \<open>A frame is in scope: it carries no Application and no Event of a namespace that is not watched.\<close>

definition frame_in_scope :: "Pusher \<Rightarrow> Frame \<Rightarrow> bool" where
  "frame_in_scope p f \<longleftrightarrow> payload_matches f \<and> f_Cluster f = po_ClusterName (ps_opts p) \<and> f_V f = ProtocolVersion \<and>
     (case f_AppDelta f of None \<Rightarrow> True | Some d \<Rightarrow> inScope p (om_Namespace (app_Meta (delta_App d)))) \<and>
     (case f_K8sEvent f of None \<Rightarrow> True
      | Some k \<Rightarrow> ev_Type (kev_Event k) = ''Warning'' \<and> inScope p (ev_Namespace (kev_Event k)))"

lemma frame_payloads [simp]:
  "f_AppDelta (newAppDelta c op app) = Some \<lparr>delta_Op = op, delta_App = app\<rparr>" "f_K8sEvent (newAppDelta c op app) = None"
  "f_K8sEvent (newK8sEvent c e) = Some \<lparr>kev_Event = e\<rparr>" "f_AppDelta (newK8sEvent c e) = None"
  "f_AppDelta (newLogMetrics c ws wsec svcs) = None" "f_K8sEvent (newLogMetrics c ws wsec svcs) = None"
  "f_Cluster (newAppDelta c op app) = c" "f_Cluster (newK8sEvent c e) = c" "f_Cluster (newLogMetrics c ws wsec svcs) = c"
  "f_V (newAppDelta c op app) = ProtocolVersion" "f_V (newK8sEvent c e) = ProtocolVersion"
  "f_V (newLogMetrics c ws wsec svcs) = ProtocolVersion"
  by (simp_all add: newAppDelta_def newK8sEvent_def newLogMetrics_def envelope_def)

lemma offered_in_scope: "f \<in> set (offered p ev) \<Longrightarrow> frame_in_scope p f"
  by (cases "(p, ev)" rule: offered.cases) (auto simp: frame_in_scope_def split: if_splits)

lemma frame_in_scope_opts:
  assumes "ps_opts p = ps_opts p'"
  shows "frame_in_scope p f \<longleftrightarrow> frame_in_scope p' f"
proof -
  have "inScope p = inScope p'" using assms by (simp add: inScope_eq fun_eq_iff)
  with assms show ?thesis by (simp add: frame_in_scope_def split: option.split)
qed

section \<open>A connection loses nothing silently\<close>

lemma removeHandlers_simps [simp]:
  "ps_sendC (removeHandlers regs p) = ps_sendC p" "ps_opts (removeHandlers regs p) = ps_opts p"
  "ps_droppedFrames (removeHandlers regs p) = ps_droppedFrames p" "ps_rejected (removeHandlers regs p) = ps_rejected p"
  by (induction regs arbitrary: p) simp_all

lemma after_write_simps [simp]:
  "se_pusher (after_write next r s) = se_pusher s" "se_drained (after_write next r s) = se_drained s"
  "se_token (after_write next r s) = se_token s" "se_ts (after_write next r s) = se_ts s"
  "se_regs (after_write next r s) = se_regs s" "se_reading (after_write next r s) = se_reading s"
  "se_conn (after_write next r s) = snd r"
  by (simp_all add: after_write_def split: prod.split option.split)

text \<open>The frames taken from the channel so far and those still in it.\<close>

definition accepted :: "session \<Rightarrow> Frame list" where
  "accepted s = se_drained s @ the (ps_sendC (se_pusher s))"

text \<open>The frames that a run offers.\<close>

fun offered_run :: "push_env \<Rightarrow> event list \<Rightarrow> session \<Rightarrow> Frame list" where
  "offered_run E [] s = []"
| "offered_run E (ev # evs) s = offered (se_pusher s) ev @ offered_run E evs (session_step E ev s)"

lemma run_session_simps [simp]:
  "run_session E [] s = s" "run_session E (ev # evs) s = run_session E evs (session_step E ev s)"
  by (simp_all add: run_session_def)

definition connected :: "session \<Rightarrow> bool" where
  "connected s \<longleftrightarrow> (\<exists>q. ps_sendC (se_pusher s) = Some q \<and> length q \<le> 4096)"

lemma feeding_conserves:
  assumes "feeding ev" and "connected s"
  shows "connected (session_step E ev s) \<and>
    subseq (accepted (session_step E ev s)) (accepted s @ offered (se_pusher s) ev) \<and>
    ps_droppedFrames (se_pusher (session_step E ev s)) + of_nat (length (accepted (session_step E ev s))) =
      ps_droppedFrames (se_pusher s) + of_nat (length (accepted s @ offered (se_pusher s) ev)) \<and>
    ps_opts (se_pusher (session_step E ev s)) = ps_opts (se_pusher s)"
proof -
  obtain q where q: "ps_sendC (se_pusher s) = Some q" "length q \<le> 4096" using assms(2) by (auto simp: connected_def)
  let ?fs = "offered (se_pusher s) ev"
  have step: "session_step E ev s = s\<lparr>se_pusher := enqueue_all ?fs (se_pusher s)\<rparr>"
    using feeding_step [OF assms(1)] q(1) by simp
  note queue = queue_keeps_order_and_counts_aux [OF q, of ?fs]
  define q' where "q' = take 4096 (q @ ?fs)"
  define k where "k = (of_nat (length (q @ ?fs) - 4096) :: uint64)"
  have sub: "subseq (se_drained s @ q') (se_drained s @ (q @ ?fs))"
    by (simp only: q'_def subseq_append' prefix_imp_subseq take_is_prefix)
  have "k + of_nat (length q') = of_nat (length (q @ ?fs))"
  proof -
    have "length (q @ ?fs) - 4096 + length q' = length (q @ ?fs)" by (simp add: q'_def)
    then show ?thesis by (simp only: k_def of_nat_add [symmetric])
  qed
  then have count: "d + k + of_nat (length (se_drained s @ q')) = d + of_nat (length ((se_drained s @ q) @ ?fs))" for d
    by (simp add: algebra_simps)
  have "length q' \<le> 4096" by (simp add: q'_def)
  then show ?thesis
    using queue [folded q'_def k_def] q sub count
    by (simp add: step accepted_def connected_def del: length_append of_nat_add)
qed

lemma writer_conserves:
  assumes "\<not> feeding ev" and "connected s"
  shows "ps_sendC (se_pusher (session_step E ev s)) \<noteq> None \<and> accepted (session_step E ev s) = accepted s \<and>
    connected (session_step E ev s) \<and>
    ps_droppedFrames (se_pusher (session_step E ev s)) = ps_droppedFrames (se_pusher s) \<and>
    ps_opts (se_pusher (session_step E ev s)) = ps_opts (se_pusher s)"
  using assms
  by (cases ev) (auto simp: accepted_def connected_def Let_def split: phase.splits option.splits list.splits)

lemma offered_not_feeding: "\<not> feeding ev \<Longrightarrow> offered p ev = []"
  by (cases ev) simp_all

lemma step_conserves:
  assumes "connected s"
  shows "connected (session_step E ev s) \<and>
    subseq (accepted (session_step E ev s)) (accepted s @ offered (se_pusher s) ev) \<and>
    ps_droppedFrames (se_pusher (session_step E ev s)) + of_nat (length (accepted (session_step E ev s))) =
      ps_droppedFrames (se_pusher s) + of_nat (length (accepted s @ offered (se_pusher s) ev)) \<and>
    ps_opts (se_pusher (session_step E ev s)) = ps_opts (se_pusher s)"
  using feeding_conserves [OF _ assms] writer_conserves [OF _ assms] offered_not_feeding
  by (cases "feeding ev") auto

lemma run_conserves:
  "connected s \<Longrightarrow>
   connected (run_session E evs s) \<and>
   subseq (accepted (run_session E evs s)) (accepted s @ offered_run E evs s) \<and>
   ps_droppedFrames (se_pusher (run_session E evs s)) + of_nat (length (accepted (run_session E evs s))) =
     ps_droppedFrames (se_pusher s) + of_nat (length (accepted s @ offered_run E evs s)) \<and>
   ps_opts (se_pusher (run_session E evs s)) = ps_opts (se_pusher s)"
proof (induction evs arbitrary: s)
  case (Cons ev evs)
  let ?s = "session_step E ev s"
  note one = step_conserves [OF Cons.prems, of E ev]
  note rest = Cons.IH [OF one [THEN conjunct1]]
  have "subseq (accepted ?s @ offered_run E evs ?s) ((accepted s @ offered (se_pusher s) ev) @ offered_run E evs ?s)"
    using one by (simp only: subseq_append)
  then have "subseq (accepted (run_session E evs ?s)) (accepted s @ offered_run E (ev # evs) s)"
    using rest by (auto intro: subseq_order.trans)
  moreover have "ps_droppedFrames (se_pusher (run_session E evs ?s)) + of_nat (length (accepted (run_session E evs ?s))) =
     ps_droppedFrames (se_pusher s) + of_nat (length (accepted s @ offered_run E (ev # evs) s))"
    using one rest by (simp add: algebra_simps)
  ultimately show ?case using one rest by simp
qed simp

lemma run_offers_in_scope:
  "connected s \<Longrightarrow> f \<in> set (offered_run E evs s) \<Longrightarrow> frame_in_scope (se_pusher s) f"
proof (induction evs arbitrary: s)
  case (Cons ev evs)
  note one = step_conserves [OF Cons.prems(1), of E ev]
  show ?case
    using Cons.prems(2) Cons.IH [of "session_step E ev s"] one offered_in_scope
      frame_in_scope_opts [of "se_pusher (session_step E ev s)" "se_pusher s"]
    by auto
qed simp

lemma registerHandlers_simps:
  "registerHandlers E p = (r, p') \<Longrightarrow> ps_sendC p' = ps_sendC p \<and> ps_opts p' = ps_opts p \<and> ps_droppedFrames p' = ps_droppedFrames p"
  by (auto simp: registerHandlers_def add_handler_def Let_def split: option.splits)

lemma open_connection_session:
  assumes "open_connection E fate p = Opened s"
  shows "connected s \<and> accepted s = [] \<and> ps_droppedFrames (se_pusher s) = 0 \<and> ps_opts (se_pusher s) = ps_opts p \<and>
    se_phase s = Greeting \<and> c_wire (se_conn s) = [] \<and> se_drained s = [] \<and> se_reading s"
  using assms
  by (auto simp: open_connection_def connected_def accepted_def Let_def split: sum.splits option.splits prod.splits
      dest!: registerHandlers_simps)

text \<open>
  C21: nothing is lost silently on a connection.  Under every schedule of informer events, collector
  calls, writes, ticks and failures, the frames taken from the channel together with those still in it are a
  subsequence, in order, of the frames offered since the connection opened; the drop counter accounts
  for every missing one; the queue stays within 4096; and every frame that got in is in scope (its
  payload fits its kind, an Application or Event of a watched namespace only, Events of type Warning
  only).
\<close>

theorem connection_conserves_frames:
  assumes "open_connection E fate p = Opened s0" and "s = run_session E evs s0"
  shows "subseq (accepted s) (offered_run E evs s0) \<and>
    of_nat (length (offered_run E evs s0)) = of_nat (length (accepted s)) + ps_droppedFrames (se_pusher s) \<and>
    (\<exists>q. ps_sendC (se_pusher s) = Some q \<and> length q \<le> 4096) \<and>
    (\<forall>f \<in> set (accepted s). frame_in_scope p f)"
proof -
  note start = open_connection_session [OF assms(1)]
  note run = run_conserves [OF start [THEN conjunct1], of E evs]
  have sub: "subseq (accepted s) (offered_run E evs s0)" using run start assms(2) by simp
  moreover have "frame_in_scope p f" if "f \<in> set (accepted s)" for f
  proof -
    have "f \<in> set (offered_run E evs s0)" using that sub by (auto elim: list_emb_set)
    then show ?thesis using run_offers_in_scope start frame_in_scope_opts by metis
  qed
  ultimately show ?thesis using run start assms(2) by (auto simp: connected_def add.commute)
qed

text \<open>An environment in which everything works and three Applications exist.\<close>

definition pushed_app :: "string \<Rightarrow> string \<Rightarrow> Application" where
  "pushed_app ns n =
     \<lparr>app_TypeMeta = \<lparr>tm_Kind = ''Application'', tm_APIVersion = ''app.k8s.io/v1beta1''\<rparr>,
      app_Meta = \<lparr>om_Name = n, om_Namespace = ns, om_Generation = 1, om_DeletionTimestamp = None, om_Labels = []\<rparr>,
      app_Spec = \<lparr>spec_ComponentGroupKinds = [],
        spec_Descriptor = \<lparr>desc_Type = '''', desc_Version = '''', desc_Description = '''', desc_Icons = [],
          desc_Maintainers = [], desc_Owners = [], desc_Keywords = [], desc_Links = [], desc_Notes = ''''\<rparr>,
        spec_Selector = None, spec_AddOwnerRef = False, spec_Info = [], spec_AssemblyPhase = ''''\<rparr>,
      app_Status = \<lparr>st_ObservedGeneration = 1, st_Conditions = [], st_ComponentList = \<lparr>cl_Objects = []\<rparr>,
        st_ComponentsReady = ''0/0''\<rparr>\<rparr>"

lemma pushed_app_namespace [simp]: "om_Namespace (app_Meta (pushed_app ns n)) = ns"
  by (simp add: pushed_app_def)

definition example_env :: push_env where
  "example_env =
     \<lparr>e_ReadFile = \<lambda>f. Inl (ErrOther ''no such file''), e_now = 1700000000, e_Dial = \<lambda>tls url h. None,
      e_Marshal = \<lambda>f. Inr (f_Kind f), e_List = \<lambda>ns. Inr [pushed_app ''ops'' ''a'', pushed_app ''ops'' ''b'', pushed_app ''ops'' ''c''],
      e_GetInformer = \<lambda>i. None, e_AddEventHandler = \<lambda>i. None\<rparr>"

definition example_session :: session where
  "example_session =
     \<lparr>se_pusher = (example_pusher (Some []))\<lparr>ps_handlers := [AppInformer, EventInformer]\<rparr>,
      se_conn = \<lparr>c_wire = [], c_fate = []\<rparr>, se_phase = Greeting, se_token = ''secret'', se_ts = 1700000000,
      se_regs = [AppInformer, EventInformer], se_reading = True, se_cancelled = False, se_drained = []\<rparr>"

lemma example_opened: "open_connection example_env [] (example_pusher None) = Opened example_session"
  by (simp add: open_connection_def resolveToken_def example_env_def example_pusher_def example_options_def
      registerHandlers_def add_handler_def example_session_def Let_def)

theorem connection_conserves_frames_witness:
  "let s = run_session example_env [AppChanged OpAdd (AnApplication (pushed_app ''ops'' ''a'')),
       AppChanged OpAdd (AnApplication (pushed_app ''dev'' ''b'')), Advance] example_session
   in list_all (frame_in_scope (example_pusher None)) (accepted s) \<and> length (accepted s) = 1"
proof -
  let ?evs = "[AppChanged OpAdd (AnApplication (pushed_app ''ops'' ''a'')),
       AppChanged OpAdd (AnApplication (pushed_app ''dev'' ''b'')), Advance]"
  have "length (accepted (run_session example_env ?evs example_session)) = 1"
    by (simp add: example_session_def example_pusher_def example_options_def onApp_def inScope_def enqueue_def
        queue_cap_def accepted_def Let_def)
  then show ?thesis
    using connection_conserves_frames [OF example_opened refl, of ?evs] by (simp only: Let_def list_all_iff) blast
qed

section \<open>The wire follows the protocol\<close>

lemma conn_write_wire:
  "conn_write m c = (None, c') \<Longrightarrow> c_wire c' = c_wire c @ [m]"
  "conn_write m c = (Some e, c') \<Longrightarrow> c_wire c' = c_wire c"
  by (cases "(m, c)" rule: conn_write.cases; auto split: list.splits option.splits)+

lemma writeFrame_wire:
  "writeFrame E f c = (None, c') \<Longrightarrow> c_wire c' = c_wire c @ [Text f]"
  "writeFrame E f c = (Some e, c') \<Longrightarrow> c_wire c' = c_wire c"
  by (auto simp: writeFrame_def conn_write_wire split: sum.splits)

text \<open>The messages of a snapshot from a position of the list on.\<close>

definition snapshot_messages :: "string \<Rightarrow> nat \<Rightarrow> Application list \<Rightarrow> message list" where
  "snapshot_messages cl n apps = map (\<lambda>c. Text (newSnapshot cl c)) (chunks n apps) @ [Text (newSnapshotEnd cl)]"

lemma snapshot_loop_wire:
  assumes "0 < n"
  shows "\<exists>r c'. snapshot_loop E cl (int n) apps (int i) c = Some (r, c') \<and>
    (if r = None then c_wire c' = c_wire c @ snapshot_messages cl n (drop i apps)
     else \<exists>w. prefix w (snapshot_messages cl n (drop i apps)) \<and> c_wire c' = c_wire c @ w)"
  using assms
proof (induction "length apps - i" arbitrary: i c rule: less_induct)
  case less
  show ?case
  proof (cases "i < length apps")
    case False
    obtain r c' where w: "writeFrame E (newSnapshotEnd cl) c = (r, c')" by fastforce
    then have "snapshot_loop E cl (int n) apps (int i) c = Some (r, c')"
      using False by (subst snapshot_loop.simps) simp
    moreover have "snapshot_messages cl n (drop i apps) = [Text (newSnapshotEnd cl)]"
      using False by (simp add: snapshot_messages_def)
    ultimately show ?thesis using w writeFrame_wire by (cases r) fastforce+
  next
    case True
    let ?f = "newSnapshot cl (take n (drop i apps))"
    have stop: "nat (if int i + int n > int (length apps) then int (length apps) else int i + int n)
        = (if i + n > length apps then length apps else i + n)" by auto
    have msgs: "snapshot_messages cl n (drop i apps) = Text ?f # snapshot_messages cl n (drop (i + n) apps)"
      using True less.prems by (simp add: snapshot_messages_def chunks_step add.commute)
    obtain r c1 where w: "writeFrame E ?f c = (r, c1)" by fastforce
    have loop: "snapshot_loop E cl (int n) apps (int i) c =
        (case r of Some err \<Rightarrow> Some (Some err, c1) | None \<Rightarrow> snapshot_loop E cl (int n) apps (int (i + n)) c1)"
      using True w by (subst snapshot_loop.simps) (simp add: Let_def stop slice_chunk split: option.split)
    show ?thesis
    proof (cases r)
      case (Some e)
      then show ?thesis using loop w writeFrame_wire(2) by auto
    next
      case None
      then have "c_wire c1 = c_wire c @ [Text ?f]" using w writeFrame_wire(1) by blast
      moreover have "length apps - (i + n) < length apps - i" using True less.prems by simp
      from less.hyps [OF this less.prems, of c1]
      obtain r' c' where "snapshot_loop E cl (int n) apps (int (i + n)) c1 = Some (r', c')"
        "if r' = None then c_wire c' = c_wire c1 @ snapshot_messages cl n (drop (i + n) apps)
         else \<exists>w. prefix w (snapshot_messages cl n (drop (i + n) apps)) \<and> c_wire c' = c_wire c1 @ w"
        by blast
      ultimately show ?thesis using loop None msgs by (auto split: if_splits intro: exI [of _ "Text ?f # _"])
    qed
  qed
qed

lemma sendSnapshot_wire:
  assumes "0 < po_SnapshotChunk opts" and "listApps E opts = Inr apps"
  shows "\<exists>r c'. sendSnapshot E opts c = Some (r, c') \<and>
    (if r = None then c_wire c' = c_wire c @ snapshot_messages (po_ClusterName opts) (nat (po_SnapshotChunk opts)) apps
     else \<exists>w. prefix w (snapshot_messages (po_ClusterName opts) (nat (po_SnapshotChunk opts)) apps) \<and> c_wire c' = c_wire c @ w)"
proof -
  have n: "0 < nat (po_SnapshotChunk opts)" "int (nat (po_SnapshotChunk opts)) = po_SnapshotChunk opts" using assms(1) by simp_all
  show ?thesis
    using snapshot_loop_wire [OF n(1), of E "po_ClusterName opts" apps 0 c]
    by (simp only: n(2) sendSnapshot_def assms(2) sum.case drop_0 int_ops(1))
qed

text \<open>The messages after the snapshot: the frames of the queue, with heartbeats between them.\<close>

inductive stream_of :: "string \<Rightarrow> Frame list \<Rightarrow> message list \<Rightarrow> bool" for cl where
  quiet: "stream_of cl [] []"
| frame: "stream_of cl fs ms \<Longrightarrow> stream_of cl (fs @ [f]) (ms @ [Text f])"
| beat: "stream_of cl fs ms \<Longrightarrow> stream_of cl fs (ms @ [Ping, Text (newHeartbeat cl)])"

definition full_wire :: "PushOptions \<Rightarrow> string \<Rightarrow> int64 \<Rightarrow> Application list \<Rightarrow> Frame list \<Rightarrow> message list \<Rightarrow> bool" where
  "full_wire opts token ts apps fs w \<longleftrightarrow>
     (\<exists>ms. stream_of (po_ClusterName opts) fs ms \<and>
       w = Text (hello_frame opts token ts) #
         snapshot_messages (po_ClusterName opts) (nat (po_SnapshotChunk opts)) apps @ ms)"

text \<open>What may stand on the wire after a failure: a prefix of a conversation of the protocol.\<close>

definition cut_wire :: "push_env \<Rightarrow> PushOptions \<Rightarrow> string \<Rightarrow> int64 \<Rightarrow> Frame list \<Rightarrow> message list \<Rightarrow> bool" where
  "cut_wire E opts token ts drained w \<longleftrightarrow>
     prefix w [Text (hello_frame opts token ts)] \<or>
     (\<exists>apps fs w'. listApps E opts = Inr apps \<and> prefix fs drained \<and> full_wire opts token ts apps fs w' \<and> prefix w w')"

definition wire_ok :: "push_env \<Rightarrow> session \<Rightarrow> bool" where
  "wire_ok E s \<longleftrightarrow>
     (let opts = ps_opts (se_pusher s); w = c_wire (se_conn s); d = se_drained s;
          whole = (\<exists>apps. listApps E opts = Inr apps \<and> full_wire opts (se_token s) (se_ts s) apps d w);
          cut = cut_wire E opts (se_token s) (se_ts s) d w
      in case se_phase s of
           Greeting \<Rightarrow> w = [] \<and> d = []
         | Listing \<Rightarrow> w = [Text (hello_frame opts (se_token s) (se_ts s))] \<and> d = []
         | Streaming \<Rightarrow> whole
         | Stuck \<Rightarrow> False
         | Waiting r \<Rightarrow> (if r = None then whole else cut)
         | Ended r \<Rightarrow> (if r = None then whole else cut))"

lemma full_wire_frame:
  "full_wire opts token ts apps fs w \<Longrightarrow> full_wire opts token ts apps (fs @ [f]) (w @ [Text f])"
  unfolding full_wire_def by (metis append_Cons append_assoc stream_of.frame)

lemma full_wire_beat:
  "full_wire opts token ts apps fs w \<Longrightarrow> full_wire opts token ts apps fs (w @ [Ping, Text (newHeartbeat (po_ClusterName opts))])"
  unfolding full_wire_def by (metis append_Cons append_assoc stream_of.beat)

lemma cut_wire_full:
  "listApps E opts = Inr apps \<Longrightarrow> full_wire opts token ts apps fs w' \<Longrightarrow> prefix fs d \<Longrightarrow> prefix w w' \<Longrightarrow>
    cut_wire E opts token ts d w"
  by (auto simp: cut_wire_def)

lemma full_wire_start:
  "full_wire opts token ts apps [] (Text (hello_frame opts token ts) #
     snapshot_messages (po_ClusterName opts) (nat (po_SnapshotChunk opts)) apps)"
  by (auto simp: full_wire_def intro: stream_of.quiet)

lemma heartbeat_wire:
  "heartbeat E cl c = (None, c') \<Longrightarrow> c_wire c' = c_wire c @ [Ping, Text (newHeartbeat cl)]"
  "heartbeat E cl c = (Some e, c') \<Longrightarrow> c_wire c' = c_wire c \<or> c_wire c' = c_wire c @ [Ping]"
  by (auto simp: heartbeat_def writePing_def conn_write_wire writeFrame_wire split: prod.splits option.splits)

lemma advance_wire:
  assumes "wire_ok E s" and "0 < po_SnapshotChunk (ps_opts (se_pusher s))"
  shows "wire_ok E (session_step E Advance s)"
proof (cases "se_phase s")
  case Greeting
  let ?hello = "hello_frame (ps_opts (se_pusher s)) (se_token s) (se_ts s)"
  obtain r c' where w: "writeFrame E ?hello (se_conn s) = (r, c')" by fastforce
  then show ?thesis
    using assms Greeting
    by (cases r) (auto simp: wire_ok_def after_write_def Let_def cut_wire_def dest: writeFrame_wire)
next
  case Listing
  show ?thesis
  proof (cases "listApps E (ps_opts (se_pusher s))")
    case (Inl e)
    then show ?thesis
      using assms Listing by (auto simp: wire_ok_def after_write_def sendSnapshot_def Let_def cut_wire_def)
  next
    case (Inr apps)
    obtain r c' where snap: "sendSnapshot E (ps_opts (se_pusher s)) (se_conn s) = Some (r, c')"
      "if r = None then c_wire c' = c_wire (se_conn s) @ snapshot_messages (po_ClusterName (ps_opts (se_pusher s))) (nat (po_SnapshotChunk (ps_opts (se_pusher s)))) apps
       else \<exists>w. prefix w (snapshot_messages (po_ClusterName (ps_opts (se_pusher s))) (nat (po_SnapshotChunk (ps_opts (se_pusher s)))) apps) \<and> c_wire c' = c_wire (se_conn s) @ w"
      using sendSnapshot_wire [OF assms(2) Inr] by blast
    note start = full_wire_start [of "ps_opts (se_pusher s)" "se_token s" "se_ts s" apps]
    show ?thesis
    proof (cases r)
      case None
      then show ?thesis using assms Listing snap Inr start by (auto simp: wire_ok_def after_write_def Let_def)
    next
      case (Some e)
      then show ?thesis
        using assms Listing snap Inr cut_wire_full [OF Inr start]
        by (auto simp: wire_ok_def after_write_def Let_def)
    qed
  qed
qed (use assms in \<open>simp_all add: wire_ok_def Let_def\<close>)

lemma drain_wire:
  assumes "wire_ok E s"
  shows "wire_ok E (session_step E Drain s)"
proof (cases "se_phase s = Streaming \<and> (\<exists>f q. ps_sendC (se_pusher s) = Some (f # q))")
  case True
  then obtain f q where q: "ps_sendC (se_pusher s) = Some (f # q)" and ph: "se_phase s = Streaming" by blast
  obtain apps where apps: "listApps E (ps_opts (se_pusher s)) = Inr apps"
    and full: "full_wire (ps_opts (se_pusher s)) (se_token s) (se_ts s) apps (se_drained s) (c_wire (se_conn s))"
    using assms ph by (auto simp: wire_ok_def Let_def)
  obtain r c' where w: "writeFrame E f (se_conn s) = (r, c')" by fastforce
  show ?thesis
  proof (cases r)
    case None
    then show ?thesis
      using w writeFrame_wire(1) [of E f "se_conn s" c'] full_wire_frame [OF full, of f] apps ph q
      by (auto simp: wire_ok_def after_write_def Let_def)
  next
    case (Some e)
    then show ?thesis
      using w writeFrame_wire(2) [of E f "se_conn s" e c'] cut_wire_full [OF apps full, of "se_drained s @ [f]"] apps ph q
      by (auto simp: wire_ok_def after_write_def Let_def)
  qed
qed (use assms in \<open>auto split: phase.splits option.splits list.splits\<close>)

lemma tick_wire:
  assumes "wire_ok E s"
  shows "wire_ok E (session_step E Tick s)"
proof (cases "se_phase s = Streaming")
  case True
  let ?cl = "po_ClusterName (ps_opts (se_pusher s))"
  obtain apps where apps: "listApps E (ps_opts (se_pusher s)) = Inr apps"
    and full: "full_wire (ps_opts (se_pusher s)) (se_token s) (se_ts s) apps (se_drained s) (c_wire (se_conn s))"
    using assms True by (auto simp: wire_ok_def Let_def)
  obtain r c' where w: "heartbeat E ?cl (se_conn s) = (r, c')" by fastforce
  show ?thesis
  proof (cases r)
    case None
    then show ?thesis
      using w heartbeat_wire(1) [of E ?cl "se_conn s" c'] full_wire_beat [OF full] apps True
      by (auto simp: wire_ok_def after_write_def Let_def)
  next
    case (Some e)
    then have "prefix (c_wire c') (c_wire (se_conn s) @ [Ping, Text (newHeartbeat ?cl)])"
      using w heartbeat_wire(2) [of E ?cl "se_conn s" e c'] by auto
    from cut_wire_full [OF apps full_wire_beat [OF full] _ this] show ?thesis
      using True w Some by (simp add: wire_ok_def after_write_def Let_def)
  qed
qed (use assms in simp)

lemma feeding_wire:
  assumes "feeding ev" and "connected s" and "wire_ok E s"
  shows "wire_ok E (session_step E ev s)"
  using assms feeding_step [OF assms(1)] by (auto simp: connected_def wire_ok_def Let_def split: phase.splits)

lemma step_wire:
  assumes "connected s" and "wire_ok E s" and "0 < po_SnapshotChunk (ps_opts (se_pusher s))"
  shows "wire_ok E (session_step E ev s)"
proof (cases "feeding ev")
  case False
  then show ?thesis
  proof (cases ev)
    case Advance
    then show ?thesis using advance_wire assms(2,3) by blast
  next
    case Drain
    then show ?thesis using drain_wire assms(2) by blast
  next
    case Tick
    then show ?thesis using tick_wire assms(2) by blast
  qed (use assms in \<open>auto simp: wire_ok_def Let_def split: phase.splits\<close>)
qed (use feeding_wire assms in blast)

lemma run_wire:
  "connected s \<Longrightarrow> wire_ok E s \<Longrightarrow> 0 < po_SnapshotChunk (ps_opts (se_pusher s)) \<Longrightarrow> wire_ok E (run_session E evs s)"
proof (induction evs arbitrary: s)
  case (Cons ev evs)
  then show ?case using step_wire [of s E ev] step_conserves [of s E ev] by simp
qed simp

text \<open>
  C22: the wire follows the protocol under every schedule and every behaviour of the network.
  While a connection streams, what it has written is the signed hello, the whole snapshot in order
  in frames of at most the configured size, the end of the snapshot, and then exactly the frames
  taken from the channel, in their order, with a ping and a heartbeat at some places between them; the same
  holds when the context ends it.  After a failure the wire holds a prefix of such a conversation, and a connection never
  gets stuck in the snapshot loop.
\<close>

theorem wire_follows_protocol:
  assumes "open_connection E fate p = Opened s0" and "0 < po_SnapshotChunk (ps_opts p)" and "s = run_session E evs s0"
  shows "se_phase s \<noteq> Stuck \<and>
    (se_phase s = Streaming \<or> se_phase s = Waiting None \<or> se_phase s = Ended None \<longrightarrow>
      (\<exists>apps. listApps E (ps_opts p) = Inr apps \<and>
        full_wire (ps_opts p) (se_token s) (se_ts s) apps (se_drained s) (c_wire (se_conn s)))) \<and>
    (\<forall>e. se_phase s = Waiting (Some e) \<or> se_phase s = Ended (Some e) \<longrightarrow>
      cut_wire E (ps_opts p) (se_token s) (se_ts s) (se_drained s) (c_wire (se_conn s)))"
proof -
  note start = open_connection_session [OF assms(1)]
  have "wire_ok E s0" using start by (simp add: wire_ok_def)
  then have "wire_ok E s" using run_wire start assms(2,3) by simp
  moreover have "ps_opts (se_pusher s) = ps_opts p" using run_conserves start assms(3) by metis
  ultimately show ?thesis by (auto simp: wire_ok_def Let_def split: phase.splits)
qed

theorem wire_follows_protocol_witness:
  "\<exists>apps. listApps example_env example_options = Inr apps \<and>
     full_wire example_options ''secret'' 1700000000 apps []
       (c_wire (se_conn (run_session example_env [Advance, Advance, Tick] example_session)))"
proof -
  let ?s = "run_session example_env [Advance, Advance, Tick] example_session"
  have opts: "ps_opts (example_pusher None) = example_options" by (simp add: example_pusher_def)
  have ok: "writeFrame example_env f \<lparr>c_wire = w, c_fate = []\<rparr> = (None, \<lparr>c_wire = w @ [Text f], c_fate = []\<rparr>)" for f w
    by (simp add: writeFrame_def encode_def example_env_def)
  have apps: "listApps example_env example_options = Inr [pushed_app ''ops'' ''a'', pushed_app ''ops'' ''b'', pushed_app ''ops'' ''c'']"
    by (simp add: listApps_def example_env_def example_options_def)
  have "se_phase ?s = Streaming \<and> se_token ?s = ''secret'' \<and> se_ts ?s = 1700000000 \<and> se_drained ?s = []"
    by (simp add: example_session_def example_pusher_def ok apps sendSnapshot_def after_write_def Let_def
        snapshot_loop.simps heartbeat_def writePing_def example_options_def [THEN arg_cong, of po_SnapshotChunk]
        example_options_def [THEN arg_cong, of po_ClusterName])
  then show ?thesis
    using wire_follows_protocol [OF example_opened _ refl, of "[Advance, Advance, Tick]"]
    by (simp add: opts example_options_def [THEN arg_cong, of po_SnapshotChunk])
qed

section \<open>Handlers are removed\<close>

lemma enqueue_handlers [simp]: "ps_handlers (enqueue f p) = ps_handlers p"
  by (simp add: enqueue_def Let_def split: option.split)

lemma enqueue_all_handlers [simp]: "ps_handlers (enqueue_all fs p) = ps_handlers p"
  by (induction fs arbitrary: p) simp_all

definition handlers_ok :: "session \<Rightarrow> bool" where
  "handlers_ok s \<longleftrightarrow> se_regs s = [AppInformer, EventInformer] \<and>
     ps_handlers (se_pusher s) = (case se_phase s of Ended r \<Rightarrow> [] | _ \<Rightarrow> [AppInformer, EventInformer])"

lemma after_write_phase:
  "se_phase (after_write next r s) = (case fst r of None \<Rightarrow> next | Some e \<Rightarrow> Waiting (Some e))"
  by (simp add: after_write_def split: prod.split option.split)

lemma step_handlers:
  assumes "connected s" and "handlers_ok s"
  shows "handlers_ok (session_step E ev s)"
proof (cases "feeding ev")
  case True
  then show ?thesis using assms feeding_step [OF True] by (auto simp: connected_def handlers_ok_def)
next
  case False
  then show ?thesis
    using assms
    by (cases ev) (auto simp: handlers_ok_def after_write_phase Let_def split: phase.splits option.splits list.splits)
qed

lemma run_handlers: "connected s \<Longrightarrow> handlers_ok s \<Longrightarrow> handlers_ok (run_session E evs s)"
proof (induction evs arbitrary: s)
  case (Cons ev evs)
  then show ?case using step_handlers [of s E ev] step_conserves [of s E ev] by simp
qed simp

text \<open>
  Informer handlers never leak.  However the opening of a connection fails (token, dial, either
  informer, either registration), no handler stays registered; while an opened connection runs, exactly the two
  handlers of Applications and Events are registered, and none after it has returned.
\<close>

lemma handlers_never_leak:
  assumes "ps_handlers p = []"
  shows "(\<forall>c e p'. open_connection E fate p = OpenFailed c e p' \<longrightarrow> ps_handlers p' = []) \<and>
    (\<forall>s0 evs. open_connection E fate p = Opened s0 \<longrightarrow>
      (let s = run_session E evs s0 in
       if \<exists>r. se_phase s = Ended r then ps_handlers (se_pusher s) = []
       else ps_handlers (se_pusher s) = [AppInformer, EventInformer]))"
proof (intro conjI allI impI)
  fix c e p'
  assume "open_connection E fate p = OpenFailed c e p'"
  then show "ps_handlers p' = []"
    using assms by (auto simp: open_connection_def registerHandlers_def add_handler_def Let_def
        split: sum.splits option.splits prod.splits)
next
  fix s0 evs
  assume o: "open_connection E fate p = Opened s0"
  then have "handlers_ok s0"
    using assms by (auto simp: open_connection_def registerHandlers_def add_handler_def handlers_ok_def Let_def
        split: sum.splits option.splits prod.splits)
  then have "handlers_ok (run_session E evs s0)" using run_handlers open_connection_session [OF o] by blast
  then show "let s = run_session E evs s0 in if \<exists>r. se_phase s = Ended r then ps_handlers (se_pusher s) = []
      else ps_handlers (se_pusher s) = [AppInformer, EventInformer]"
    by (auto simp: handlers_ok_def Let_def split: phase.splits)
qed

lemma handlers_never_leak_example:
  "open_connection (example_env\<lparr>e_GetInformer := \<lambda>i. if i = EventInformer then Some (ErrOther ''no cache'') else None\<rparr>) []
     (example_pusher None) = OpenFailed True (ErrOther ''no cache'') ((example_pusher None)\<lparr>ps_sendC := Some []\<rparr>) \<and>
   ps_handlers ((example_pusher None)\<lparr>ps_sendC := Some []\<rparr>) = []"
proof -
  let ?E = "example_env\<lparr>e_GetInformer := \<lambda>i. if i = EventInformer then Some (ErrOther ''no cache'') else None\<rparr>"
  have "open_connection ?E [] (example_pusher None)
      = OpenFailed True (ErrOther ''no cache'') ((example_pusher None)\<lparr>ps_sendC := Some []\<rparr>)"
    by (simp add: open_connection_def resolveToken_def example_env_def example_pusher_def example_options_def
        registerHandlers_def add_handler_def Let_def)
  then show ?thesis using handlers_never_leak [of "example_pusher None" ?E "[]"] by (simp add: example_pusher_def)
qed

section \<open>The key leaves only inside a signature\<close>

lemma hello_frame_key:
  "signHandshake k (po_Tenant opts) (po_ClusterName opts) ts = signHandshake k' (po_Tenant opts) (po_ClusterName opts) ts \<Longrightarrow>
    hello_frame opts k ts = hello_frame opts k' ts"
  by (simp add: hello_frame_def newHello_def)

lemma after_write_token: "after_write next r (s\<lparr>se_token := k\<rparr>) = (after_write next r s)\<lparr>se_token := k\<rparr>"
  by (simp add: after_write_def split: prod.split option.split)

lemma step_key:
  assumes "hello_frame (ps_opts (se_pusher s)) (se_token s) (se_ts s) = hello_frame (ps_opts (se_pusher s)) k' (se_ts s)"
  shows "session_step E ev (s\<lparr>se_token := k'\<rparr>) = (session_step E ev s)\<lparr>se_token := k'\<rparr>"
  using assms
  by (cases ev) (simp_all add: Let_def after_write_def split: phase.split option.split list.split prod.split)

lemma step_token [simp]: "se_token (session_step E ev s) = se_token s" "se_ts (session_step E ev s) = se_ts s"
  by (cases ev; simp add: Let_def split: phase.split option.split list.split)+

text \<open>
  C32: the key leaves the process only inside signatures.  Two keys that sign the handshake alike cannot be
  told apart: the upgrade request is the same, and under every schedule the whole run of the
  connection is the same in everything but the key it holds.
\<close>

theorem key_leaves_only_in_signature:
  assumes "signHandshake (se_token s) (po_Tenant opts) (po_ClusterName opts) (se_ts s) =
      signHandshake k' (po_Tenant opts) (po_ClusterName opts) (se_ts s)"
    and "opts = ps_opts (se_pusher s)" and "connected s"
  shows "auth_header opts (se_token s) (se_ts s) = auth_header opts k' (se_ts s) \<and>
    run_session E evs (s\<lparr>se_token := k'\<rparr>) = (run_session E evs s)\<lparr>se_token := k'\<rparr>"
proof
  show "auth_header opts (se_token s) (se_ts s) = auth_header opts k' (se_ts s)"
    using assms(1) by (simp add: auth_header_def)
  show "run_session E evs (s\<lparr>se_token := k'\<rparr>) = (run_session E evs s)\<lparr>se_token := k'\<rparr>"
    using assms
  proof (induction evs arbitrary: s)
    case (Cons ev evs)
    have one: "session_step E ev (s\<lparr>se_token := k'\<rparr>) = (session_step E ev s)\<lparr>se_token := k'\<rparr>"
      using step_key [OF hello_frame_key] Cons.prems(1,2) by blast
    note keeps = step_conserves [OF Cons.prems(3), of E ev]
    have "run_session E evs ((session_step E ev s)\<lparr>se_token := k'\<rparr>) = (run_session E evs (session_step E ev s))\<lparr>se_token := k'\<rparr>"
    proof (rule Cons.IH)
      show "connected (session_step E ev s)" using keeps by blast
      show "opts = ps_opts (se_pusher (session_step E ev s))" using keeps Cons.prems(2) by metis
    qed (unfold step_token, rule Cons.prems(1))
    then show ?case by (simp only: run_session_simps one)
  qed simp
qed

text \<open>HMAC fills a short key with zeros, so a zero byte at its end makes no difference.\<close>

lemma hmac_zero: "length k < 64 \<Longrightarrow> hmac_sha256 (k @ [0]) m = hmac_sha256 k m"
proof -
  assume short: "length k < 64"
  then have "64 - length k = Suc (63 - length k)" by simp
  with short have "hmac_block_key (k @ [0]) = hmac_block_key k" by (simp add: hmac_block_key_def Let_def)
  then show ?thesis by (simp add: hmac_sha256_def)
qed

theorem key_leaves_only_in_signature_witness:
  "run_session example_env [Advance] (example_session\<lparr>se_token := ''secret'' @ [CHR 0x00]\<rparr>)
     = (run_session example_env [Advance] example_session)\<lparr>se_token := ''secret'' @ [CHR 0x00]\<rparr>"
proof -
  have "bytes_of (''secret'' @ [CHR 0x00]) = bytes_of ''secret'' @ [0]" "length (bytes_of ''secret'') < 64"
    by (simp_all add: bytes_of_def byte_of_def)
  then have "signHandshake ''secret'' t c i = signHandshake (''secret'' @ [CHR 0x00]) t c i" for t c i
    by (simp only: signHandshake_def hmac_zero)
  moreover have "connected example_session" "se_token example_session = ''secret''"
    using open_connection_session [OF example_opened] by (simp_all add: example_session_def)
  ultimately show ?thesis
    using key_leaves_only_in_signature [OF _ refl, of example_session "''secret'' @ [CHR 0x00]" example_env "[Advance]"]
    by (simp only:)
qed

section \<open>The return of a connection\<close>

lemma waiting_step:
  assumes "se_phase s = Waiting r" and "se_reading s" and "\<forall>policy. ev \<noteq> ReadError policy"
  shows "se_phase (session_step E ev s) = Waiting r \<and> se_reading (session_step E ev s)"
  using assms by (cases ev) (auto simp: Let_def)

text \<open>
  C33: once the write side of a connection has ended (a failed write, or a cancelled context at
  shutdown), runOnce returns exactly when the read loop ends.  Until a read fails it waits, under every
  schedule, whether the context is cancelled or not: closing the socket is deferred until after
  the wait, so only the peer or the read deadline of three heartbeats ends it.  Once a read has
  failed, the next step of runOnce returns its result.
\<close>

theorem return_waits_for_reader:
  assumes "se_phase s = Waiting r" and "se_reading s" and "\<forall>policy. ReadError policy \<notin> set evs"
  shows "se_phase (run_session E evs s) = Waiting r \<and>
    se_phase (run_session E (evs @ [ReadError policy, Return]) s) = Ended r"
  using assms
proof (induction evs arbitrary: s)
  case (Cons ev evs)
  have "\<forall>policy. ev \<noteq> ReadError policy" using Cons.prems(3) by auto
  from waiting_step [OF Cons.prems(1,2) this, of E] show ?case using Cons.IH Cons.prems(3) by simp
qed (simp add: Let_def)

theorem return_waits_for_reader_witness:
  "se_phase (run_session example_env [CtxDone, Return, Tick] (example_session\<lparr>se_phase := Waiting None\<rparr>)) = Waiting None"
  using return_waits_for_reader [of "example_session\<lparr>se_phase := Waiting None\<rparr>" None "[CtxDone, Return, Tick]" example_env False]
  by (simp add: example_session_def)

section \<open>Reconnecting\<close>

lemma sint_Seconds: "0 \<le> n \<Longrightarrow> n \<le> 60 \<Longrightarrow> sint (Seconds n) = n * 1000000000"
  unfolding Seconds_def by (rule sint_of_int64) simp_all

lemma sint_double:
  fixes w :: int64
  assumes "sint (Seconds 1) \<le> sint w" and "sint w \<le> sint (Seconds 30)"
  shows "sint (w * 2) = 2 * sint w"
proof -
  have "word_of_int (sint w * 2) = (word_of_int (sint w) * 2 :: int64)" by simp
  then have "w * 2 = word_of_int (sint w * 2)" by (simp only: int64_of_sint)
  moreover have "sint (word_of_int (sint w * 2) :: int64) = sint w * 2"
    using assms by (intro sint_of_int64) (simp_all add: sint_Seconds)
  ultimately show ?thesis by (simp only: mult.commute)
qed

text \<open>The wait of a pass, from the backoff that the pass before left, in nanoseconds.\<close>

definition wait_of :: "int \<Rightarrow> pass \<Rightarrow> int" where
  "wait_of left x = (if pass_rejected x then 30000000000 else if pass_connected x then 1000000000 else left)"

fun waits_of :: "int \<Rightarrow> pass list \<Rightarrow> int list" where
  "waits_of left [] = []"
| "waits_of left (x # xs) = wait_of left x # waits_of (min 30000000000 (2 * wait_of left x)) xs"

lemma backoff_step_eq:
  assumes "sint (Seconds 1) \<le> sint b" and "sint b \<le> sint (Seconds 30)"
  shows "sint (fst (backoff_step b c r)) = (if r then 30000000000 else if c then 1000000000 else sint b) \<and>
    sint (snd (backoff_step b c r)) = min 30000000000 (2 * (if r then 30000000000 else if c then 1000000000 else sint b))"
  using assms sint_double [of b] sint_double [of "Seconds 1"] sint_double [of "Seconds 30"]
  by (simp add: backoff_step_def maxBackoff_def Let_def sint_Seconds)

lemma start_loop_waits:
  assumes "sint (Seconds 1) \<le> sint b" and "sint b \<le> sint (Seconds 30)"
    and "\<forall>x \<in> set xs. \<not> pass_done_before x \<and> \<not> pass_done_after x \<and> \<not> pass_done_waiting x"
  shows "map sint (fst (start_loop b xs)) = waits_of (sint b) xs \<and> \<not> snd (start_loop b xs)"
  using assms
proof (induction xs arbitrary: b)
  case (Cons x xs)
  obtain w b' where s: "backoff_step b (pass_connected x) (pass_rejected x) = (w, b')" by fastforce
  have w: "sint w = wait_of (sint b) x" "sint b' = min 30000000000 (2 * wait_of (sint b) x)"
    using backoff_step_eq [OF Cons.prems(1,2), of "pass_connected x" "pass_rejected x"] s by (simp_all add: wait_of_def)
  have "sint (Seconds 1) \<le> sint b'" "sint b' \<le> sint (Seconds 30)"
    using Cons.prems(1,2) by (auto simp: w wait_of_def sint_Seconds)
  then have "map sint (fst (start_loop b' xs)) = waits_of (sint b') xs \<and> \<not> snd (start_loop b' xs)"
    using Cons.IH Cons.prems(3) by simp
  then show ?case using Cons.prems(3) s w by (cases "start_loop b' xs") simp
qed simp

lemma waits_of_bounds:
  "1000000000 \<le> left \<Longrightarrow> left \<le> 30000000000 \<Longrightarrow> d \<in> set (waits_of left xs) \<Longrightarrow> 1000000000 \<le> d \<and> d \<le> 30000000000"
proof (induction xs arbitrary: left)
  case (Cons x xs)
  have "1000000000 \<le> wait_of left x \<and> wait_of left x \<le> 30000000000" using Cons.prems(1,2) by (simp add: wait_of_def)
  then show ?case using Cons.prems(3) Cons.IH [of "min 30000000000 (2 * wait_of left x)"] by auto
qed simp

lemma min_doubled: "min c (2 ^ j * min c (2 * left)) = min c (2 ^ Suc j * left)" if "0 \<le> c" for c left :: int
proof (cases "2 * left \<le> c")
  case False
  have "c \<le> 2 ^ j * c" using that by (simp add: mult_le_cancel_right1)
  moreover have "2 ^ j * c \<le> 2 ^ j * (2 * left)" using False by (intro mult_left_mono) simp_all
  ultimately have "c \<le> 2 ^ j * (2 * left)" by (rule order_trans)
  then have "c \<le> 2 ^ Suc j * left" by (simp add: mult.assoc mult.left_commute)
  then show ?thesis using False \<open>c \<le> 2 ^ j * c\<close> by (simp only: min_def) simp
qed (simp add: min_def mult.assoc mult.left_commute)

lemma waits_of_failures:
  "\<forall>x \<in> set xs. \<not> pass_rejected x \<and> \<not> pass_connected x \<Longrightarrow> 0 \<le> left \<Longrightarrow> left \<le> 30000000000 \<Longrightarrow> i < length xs \<Longrightarrow>
    waits_of left xs ! i = min 30000000000 (2 ^ i * left)"
proof (induction xs arbitrary: left i)
  case (Cons x xs)
  show ?case
  proof (cases i)
    case (Suc j)
    have "waits_of (min 30000000000 (2 * left)) xs ! j = min 30000000000 (2 ^ j * min 30000000000 (2 * left))"
      using Cons Suc by simp
    also have "\<dots> = min 30000000000 (2 ^ Suc j * left)" by (rule min_doubled) simp
    finally show ?thesis using Cons.prems Suc by (simp add: wait_of_def)
  qed (use Cons.prems in \<open>simp add: wait_of_def\<close>)
qed simp

text \<open>
  C34: the waits of the reconnect loop.  While the context lives the loop goes on for ever; every wait is between one
  second and thirty; after a rejected handshake it is thirty seconds, after a connection that had
  been established it is one, and after a failed dial it is twice the wait before, up to thirty (so
  the i-th failure in a row waits min(30, 2^i) seconds).  The 64-bit products never wrap.
\<close>

theorem reconnect_waits:
  assumes "\<forall>x \<in> set xs. \<not> pass_done_before x \<and> \<not> pass_done_after x \<and> \<not> pass_done_waiting x"
  shows "\<not> snd (Start True xs) \<and> map sint (fst (Start True xs)) = waits_of 1000000000 xs \<and>
    (\<forall>w \<in> set (fst (Start True xs)). 1000000000 \<le> sint w \<and> sint w \<le> 30000000000) \<and>
    (\<forall>i < length xs. (\<forall>x \<in> set xs. \<not> pass_rejected x \<and> \<not> pass_connected x) \<longrightarrow>
       sint (fst (Start True xs) ! i) = min 30000000000 (2 ^ i * 1000000000))"
proof -
  have run: "\<not> snd (Start True xs)" "map sint (fst (Start True xs)) = waits_of 1000000000 xs"
    using start_loop_waits [of "Seconds 1" xs] assms by (simp_all add: Start_def sint_Seconds)
  have len: "length (waits_of left xs) = length xs" for left by (induction xs arbitrary: left) simp_all
  have "\<forall>w \<in> set (fst (Start True xs)). 1000000000 \<le> sint w \<and> sint w \<le> 30000000000"
    using waits_of_bounds [of 1000000000 _ xs] by (simp flip: run(2))
  moreover have "sint (fst (Start True xs) ! i) = waits_of 1000000000 xs ! i" if "i < length xs" for i
    using that run(2) len by (metis length_map nth_map)
  ultimately show ?thesis using run waits_of_failures [of xs 1000000000] by simp
qed

definition failed_dial :: pass where
  "failed_dial = \<lparr>pass_done_before = False, pass_connected = False, pass_rejected = False, pass_done_after = False,
     pass_done_waiting = False\<rparr>"

theorem reconnect_waits_witness:
  "map sint (fst (Start True [failed_dial, failed_dial, failed_dial\<lparr>pass_rejected := True\<rparr>, failed_dial\<lparr>pass_connected := True\<rparr>]))
     = [1000000000, 2000000000, 30000000000, 1000000000]"
  using reconnect_waits [of "[failed_dial, failed_dial, failed_dial\<lparr>pass_rejected := True\<rparr>, failed_dial\<lparr>pass_connected := True\<rparr>]"]
  by (simp add: failed_dial_def wait_of_def)

text \<open>
  A pusher exists exactly if an endpoint is given, and then its heartbeat and its snapshot size are
  positive, so that the ticker of the write loop and the snapshot loop are well defined; positive values
  are kept as they are.
\<close>

lemma New_makes_positive:
  "(push_New opts = None \<longleftrightarrow> po_Endpoint opts = []) \<and>
   (\<forall>p. push_New opts = Some p \<longrightarrow>
      0 < sint (po_Heartbeat (ps_opts p)) \<and> 0 < po_SnapshotChunk (ps_opts p) \<and>
      (0 < sint (po_Heartbeat opts) \<longrightarrow> po_Heartbeat (ps_opts p) = po_Heartbeat opts) \<and>
      (0 < po_SnapshotChunk opts \<longrightarrow> po_SnapshotChunk (ps_opts p) = po_SnapshotChunk opts) \<and>
      ps_sendC p = None \<and> ps_handlers p = [])"
  by (auto simp: push_New_def Let_def sint_Seconds)

lemma New_makes_positive_example:
  "map_option (\<lambda>p. 0 < po_SnapshotChunk (ps_opts p)) (push_New (example_options\<lparr>po_SnapshotChunk := 0\<rparr>)) = Some True"
  using New_makes_positive [of "example_options\<lparr>po_SnapshotChunk := 0\<rparr>"] by (auto simp: example_options_def)

end
