(* ===== verification/Log_Metrics.thy ===== *)
theory Log_Metrics
  imports Go_Float Push_Protocol "HOL-Library.AList"
begin

text \<open>
  The log-metrics collector (logmetrics/collector.go, logmetrics/deltas.go): discovery of the
  exporters, the scrape, the per-endpoint deltas of the cumulative counters, the aggregation over
  endpoints and the gate.

  A Go map is an association list without duplicate keys.  Its iteration order is unspecified in
  Go, so each range statement over a map goes through an arbitrary reordering, a field of the
  environment \<open>scrape_env\<close>; the laws of \<open>range_law\<close> say that it is a reordering.  The HTTP client,
  the parser of the Prometheus text format and the API reader are fields of the environment, too.
\<close>

section \<open>Metrics as the parser delivers them\<close>

text \<open>A sample of client_model: its labels and its value, under the type that it carries.\<close>

record Metric =
  m_Label :: "(string \<times> string) list"
  m_Counter :: "f64 option"
  m_Gauge :: "f64 option"
  m_Untyped :: "f64 option"

type_synonym families = "string \<Rightarrow> Metric list option"

fun labelValue :: "(string \<times> string) list \<Rightarrow> string \<Rightarrow> string" where
  "labelValue [] name = ''''"
| "labelValue (lp # lps) name = (if fst lp = name then snd lp else labelValue lps name)"

definition sampleValue :: "Metric \<Rightarrow> f64" where
  "sampleValue m =
     (case m_Counter m of
        Some v \<Rightarrow> v
      | None \<Rightarrow> (case m_Gauge m of
          Some v \<Rightarrow> v
        | None \<Rightarrow> (case m_Untyped m of Some v \<Rightarrow> v | None \<Rightarrow> Fin 0)))"

section \<open>Options and state\<close>

record LogOptions =
  lo_ServiceNamespace :: string
  lo_ServiceName :: string
  lo_Port :: int
  lo_Interval :: int64
  lo_ScrapeTimeout :: int64
  lo_ErrorThreshold :: int64
  lo_ErrorMetric :: string
  lo_WarnMetric :: string
  lo_TotalMetric :: string
  lo_NamespaceLabel :: string
  lo_ServiceLabel :: string
  lo_ServiceLabelFallback :: string
  lo_SampleLabel :: string

definition or_default :: "string \<Rightarrow> string \<Rightarrow> string" where
  "or_default s d = (if s = [] then d else s)"

definition setDefaults :: "LogOptions \<Rightarrow> LogOptions" where
  "setDefaults o1 =
     \<lparr>lo_ServiceNamespace = lo_ServiceNamespace o1,
      lo_ServiceName = lo_ServiceName o1,
      lo_Port = (if lo_Port o1 \<le> 0 then 2021 else lo_Port o1),
      lo_Interval = (if sint (lo_Interval o1) \<le> 0 then 60000000000 else lo_Interval o1),
      lo_ScrapeTimeout = (if sint (lo_ScrapeTimeout o1) \<le> 0 then 5000000000 else lo_ScrapeTimeout o1),
      lo_ErrorThreshold = (if sint (lo_ErrorThreshold o1) \<le> 0 then 10 else lo_ErrorThreshold o1),
      lo_ErrorMetric = or_default (lo_ErrorMetric o1) ''log_metric_counter_log_errors_total'',
      lo_WarnMetric = or_default (lo_WarnMetric o1) ''log_metric_counter_log_warns_total'',
      lo_TotalMetric = or_default (lo_TotalMetric o1) ''log_metric_counter_log_lines_total'',
      lo_NamespaceLabel = or_default (lo_NamespaceLabel o1) ''namespace'',
      lo_ServiceLabel = or_default (lo_ServiceLabel o1) ''service'',
      lo_ServiceLabelFallback = or_default (lo_ServiceLabelFallback o1) ''service_fallback'',
      lo_SampleLabel = lo_SampleLabel o1\<rparr>"

record servicePair =
  sp_Namespace :: string
  sp_Service :: string

type_synonym counters = "(servicePair \<times> f64) list"
type_synonym endpointCounters = "(string \<times> counters) list"

record Collector =
  lc_opts :: LogOptions
  lc_prev :: "(string \<times> endpointCounters) list"

text \<open>\<open>sender_nil\<close>: the interface value is nil.\<close>

definition log_New :: "LogOptions \<Rightarrow> bool \<Rightarrow> Collector option" where
  "log_New opts sender_nil =
     (if lo_ServiceName opts = [] \<or> sender_nil then None
      else Some \<lparr>lc_opts = setDefaults opts, lc_prev = []\<rparr>)"

record delta =
  d_errorDelta :: int64
  d_warnDelta :: int64
  d_totalDelta :: int64
  d_sample :: string

definition zero_delta :: delta where
  "zero_delta = \<lparr>d_errorDelta = 0, d_warnDelta = 0, d_totalDelta = 0, d_sample = ''''\<rparr>"

record EndpointSubset =
  es_Ports :: "int32 list"
  es_Addresses :: "string list"

text \<open>
  \<open>x_Do\<close> is the HTTP exchange of the n-th scrape of a run: the status code and the result of reading
  the body.  \<open>x_ovf\<close> is the conversion of a float64 that is out of the range of int64.
\<close>

record scrape_env =
  x_now :: int64
  x_GetEndpoints :: "string \<Rightarrow> string \<Rightarrow> go_error + EndpointSubset list"
  x_Do :: "nat \<Rightarrow> string \<Rightarrow> go_error + int \<times> (go_error + string)"
  x_Parse :: "string \<Rightarrow> go_error + families"
  x_ovf :: "f64 \<Rightarrow> int64"
  x_range_counters :: "counters \<Rightarrow> counters"
  x_range_samples :: "(servicePair \<times> string) list \<Rightarrow> (servicePair \<times> string) list"
  x_range_deltas :: "(servicePair \<times> delta) list \<Rightarrow> (servicePair \<times> delta) list"
  x_range_totals :: "(servicePair \<times> ServiceLogMetrics) list \<Rightarrow> (servicePair \<times> ServiceLogMetrics) list"

definition range_law :: "scrape_env \<Rightarrow> bool" where
  "range_law X \<longleftrightarrow>
     (\<forall>m. mset (x_range_counters X m) = mset m) \<and> (\<forall>m. mset (x_range_samples X m) = mset m) \<and>
     (\<forall>m. mset (x_range_deltas X m) = mset m) \<and> (\<forall>m. mset (x_range_totals X m) = mset m)"

section \<open>Counters of one scrape\<close>

definition serviceOf :: "LogOptions \<Rightarrow> Metric \<Rightarrow> string" where
  "serviceOf opts m =
     (let v = labelValue (m_Label m) (lo_ServiceLabel opts)
      in if v \<noteq> [] then v
         else if lo_ServiceLabelFallback opts \<noteq> [] then labelValue (m_Label m) (lo_ServiceLabelFallback opts)
         else '''')"

definition pair_of :: "LogOptions \<Rightarrow> Metric \<Rightarrow> servicePair" where
  "pair_of opts m =
     \<lparr>sp_Namespace = labelValue (m_Label m) (lo_NamespaceLabel opts), sp_Service = serviceOf opts m\<rparr>"

text \<open>A lookup in a map of numbers: the zero value when the key is absent.\<close>

definition value_at :: "counters \<Rightarrow> servicePair \<Rightarrow> f64" where
  "value_at m pair = (case map_of m pair of None \<Rightarrow> Fin 0 | Some v \<Rightarrow> v)"

fun sum_loop :: "LogOptions \<Rightarrow> Metric list \<Rightarrow> counters \<Rightarrow> counters" where
  "sum_loop opts [] out = out"
| "sum_loop opts (m # ms) out =
     (let pair = pair_of opts m in
      if sp_Namespace pair = [] \<and> sp_Service pair = [] then sum_loop opts ms out
      else sum_loop opts ms (AList.update pair (f64_add (value_at out pair) (sampleValue m)) out))"

definition sumByServicePair :: "LogOptions \<Rightarrow> Metric list option \<Rightarrow> counters" where
  "sumByServicePair opts fam = (case fam of None \<Rightarrow> [] | Some ms \<Rightarrow> sum_loop opts ms [])"

fun sample_loop :: "LogOptions \<Rightarrow> Metric list \<Rightarrow> (servicePair \<times> string) list \<Rightarrow> (servicePair \<times> string) list" where
  "sample_loop opts [] out = out"
| "sample_loop opts (m # ms) out =
     (let pair = pair_of opts m in
      if map_of out pair \<noteq> None then sample_loop opts ms out
      else
        (let v = labelValue (m_Label m) (lo_SampleLabel opts)
         in if v \<noteq> [] then sample_loop opts ms (AList.update pair v out) else sample_loop opts ms out))"

definition sampleByServicePair :: "LogOptions \<Rightarrow> Metric list option \<Rightarrow> (servicePair \<times> string) list" where
  "sampleByServicePair opts fam = (case fam of None \<Rightarrow> [] | Some ms \<Rightarrow> sample_loop opts ms [])"

section \<open>Deltas\<close>

definition counterDelta :: "(f64 \<Rightarrow> int64) \<Rightarrow> f64 \<Rightarrow> f64 \<Rightarrow> int64" where
  "counterDelta ovf prev cur =
     (let d = f64_sub cur prev; d' = (if f64_negative d then cur else d) in f64_to_int64 ovf d')"

definition delta_at :: "(servicePair \<times> delta) list \<Rightarrow> servicePair \<Rightarrow> delta" where
  "delta_at out pair = (case map_of out pair of None \<Rightarrow> zero_delta | Some d \<Rightarrow> d)"

fun merge_loop ::
  "(f64 \<Rightarrow> int64) \<Rightarrow> counters \<Rightarrow> (int64 \<Rightarrow> delta \<Rightarrow> delta) \<Rightarrow> counters
     \<Rightarrow> (servicePair \<times> delta) list \<Rightarrow> (servicePair \<times> delta) list" where
  "merge_loop ovf prev assign [] out = out"
| "merge_loop ovf prev assign ((pair, v) # vs) out =
     merge_loop ovf prev assign vs
       (AList.update pair (assign (counterDelta ovf (value_at prev pair) v) (delta_at out pair)) out)"

fun put_samples :: "(servicePair \<times> string) list \<Rightarrow> (servicePair \<times> delta) list \<Rightarrow> (servicePair \<times> delta) list" where
  "put_samples [] out = out"
| "put_samples ((pair, sample) # ss) out =
     put_samples ss (AList.update pair ((delta_at out pair)\<lparr>d_sample := sample\<rparr>) out)"

text \<open>The counters of a metric in a stored scrape; a nil map when it is absent.\<close>

definition metric_at :: "endpointCounters \<Rightarrow> string \<Rightarrow> counters" where
  "metric_at ec name = (case map_of ec name of None \<Rightarrow> [] | Some m \<Rightarrow> m)"

definition current_counters :: "LogOptions \<Rightarrow> families \<Rightarrow> endpointCounters" where
  "current_counters opts fams =
     (let cur1 = [(lo_ErrorMetric opts, sumByServicePair opts (fams (lo_ErrorMetric opts)))];
          cur2 = (if lo_WarnMetric opts \<noteq> []
                  then AList.update (lo_WarnMetric opts) (sumByServicePair opts (fams (lo_WarnMetric opts))) cur1 else cur1)
      in if lo_TotalMetric opts \<noteq> []
         then AList.update (lo_TotalMetric opts) (sumByServicePair opts (fams (lo_TotalMetric opts))) cur2 else cur2)"

definition merge_metric ::
  "scrape_env \<Rightarrow> endpointCounters \<Rightarrow> endpointCounters \<Rightarrow> string \<Rightarrow> (int64 \<Rightarrow> delta \<Rightarrow> delta)
     \<Rightarrow> (servicePair \<times> delta) list \<Rightarrow> (servicePair \<times> delta) list" where
  "merge_metric X prev cur name assign out =
     merge_loop (x_ovf X) (metric_at prev name) assign (x_range_counters X (metric_at cur name)) out"

definition computeDeltas ::
  "scrape_env \<Rightarrow> string \<Rightarrow> families \<Rightarrow> Collector \<Rightarrow> (servicePair \<times> delta) list \<times> Collector" where
  "computeDeltas X addr fams c =
     (let opts = lc_opts c;
          cur = current_counters opts fams;
          prev = (case map_of (lc_prev c) addr of None \<Rightarrow> [] | Some ec \<Rightarrow> ec);
          out1 = merge_metric X prev cur (lo_ErrorMetric opts) (\<lambda>v d. d\<lparr>d_errorDelta := v\<rparr>) [];
          out2 = (if lo_WarnMetric opts \<noteq> []
                  then merge_metric X prev cur (lo_WarnMetric opts) (\<lambda>v d. d\<lparr>d_warnDelta := v\<rparr>) out1 else out1);
          out3 = (if lo_TotalMetric opts \<noteq> []
                  then merge_metric X prev cur (lo_TotalMetric opts) (\<lambda>v d. d\<lparr>d_totalDelta := v\<rparr>) out2 else out2);
          out4 = (if lo_SampleLabel opts \<noteq> []
                  then put_samples (x_range_samples X (sampleByServicePair opts (fams (lo_ErrorMetric opts)))) out3
                  else out3)
      in (out4, c\<lparr>lc_prev := AList.update addr cur (lc_prev c)\<rparr>))"

section \<open>One run\<close>

text \<open>net.JoinHostPort.\<close>

definition JoinHostPort :: "string \<Rightarrow> string \<Rightarrow> string" where
  "JoinHostPort host port =
     (if CHR '':'' \<in> set host then ''['' @ host @ '']:'' @ port else host @ '':'' @ port)"

fun subset_targets :: "int \<Rightarrow> EndpointSubset list \<Rightarrow> string list \<Rightarrow> string list" where
  "subset_targets defaultPort [] out = out"
| "subset_targets defaultPort (s # ss) out =
     (let port = (if length (es_Ports s) = 1 then sint (es_Ports s ! 0) else defaultPort)
      in subset_targets defaultPort ss (out @ map (\<lambda>ip. JoinHostPort ip (format_int port)) (es_Addresses s)))"

definition discoverEndpoints :: "scrape_env \<Rightarrow> LogOptions \<Rightarrow> go_error + string list" where
  "discoverEndpoints X opts =
     (case x_GetEndpoints X (lo_ServiceNamespace opts) (lo_ServiceName opts) of
        Inl e \<Rightarrow> Inl (ErrOther (''get endpoints '' @ lo_ServiceNamespace opts @ ''/'' @ lo_ServiceName opts @
                  '': '' @ err_msg e))
      | Inr subsets \<Rightarrow> Inr (subset_targets (lo_Port opts) subsets []))"

definition scrape :: "scrape_env \<Rightarrow> nat \<Rightarrow> string \<Rightarrow> go_error + families" where
  "scrape X n addr =
     (case x_Do X n (''http://'' @ addr @ ''/metrics'') of
        Inl e \<Rightarrow> Inl e
      | Inr (code, body) \<Rightarrow>
          if code \<noteq> 200 then Inl (ErrOther (''unexpected status '' @ format_int code))
          else (case body of
              Inl e \<Rightarrow> Inl e
            | Inr b \<Rightarrow> (case x_Parse X b of
                Inl e \<Rightarrow> Inl (ErrOther (''parse metrics: '' @ err_msg e))
              | Inr fams \<Rightarrow> Inr fams)))"

definition new_total :: "servicePair \<Rightarrow> ServiceLogMetrics" where
  "new_total pair =
     \<lparr>sm_Namespace = sp_Namespace pair, sm_Service = sp_Service pair, sm_ErrorCount = 0, sm_WarnCount = 0,
      sm_TotalCount = 0, sm_Sample = ''''\<rparr>"

definition add_delta :: "delta \<Rightarrow> ServiceLogMetrics \<Rightarrow> ServiceLogMetrics" where
  "add_delta d agg =
     agg\<lparr>sm_ErrorCount := sm_ErrorCount agg + d_errorDelta d,
         sm_WarnCount := sm_WarnCount agg + d_warnDelta d,
         sm_TotalCount := sm_TotalCount agg + d_totalDelta d,
         sm_Sample := (if d_sample d \<noteq> [] \<and> sm_Sample agg = [] then TruncateSample (d_sample d) else sm_Sample agg)\<rparr>"

definition total_at :: "(servicePair \<times> ServiceLogMetrics) list \<Rightarrow> servicePair \<Rightarrow> ServiceLogMetrics" where
  "total_at totals pair = (case map_of totals pair of None \<Rightarrow> new_total pair | Some agg \<Rightarrow> agg)"

fun add_deltas :: "(servicePair \<times> delta) list \<Rightarrow> (servicePair \<times> ServiceLogMetrics) list \<Rightarrow> (servicePair \<times> ServiceLogMetrics) list" where
  "add_deltas [] totals = totals"
| "add_deltas ((pair, d) # ds) totals =
     add_deltas ds (AList.update pair (add_delta d (total_at totals pair)) totals)"

fun scrape_loop ::
  "scrape_env \<Rightarrow> nat \<Rightarrow> string list \<Rightarrow> Collector \<Rightarrow> (servicePair \<times> ServiceLogMetrics) list
     \<Rightarrow> Collector \<times> (servicePair \<times> ServiceLogMetrics) list" where
  "scrape_loop X n [] c totals = (c, totals)"
| "scrape_loop X n (addr # addrs) c totals =
     (case scrape X n addr of
        Inl e \<Rightarrow> scrape_loop X (Suc n) addrs c totals
      | Inr fams \<Rightarrow>
          (case computeDeltas X addr fams c of
             (deltas, c') \<Rightarrow> scrape_loop X (Suc n) addrs c' (add_deltas (x_range_deltas X deltas) totals)))"

text \<open>The gate: the qualifying services and the count of lines that no service can be named for.\<close>

fun gate_loop ::
  "int64 \<Rightarrow> (servicePair \<times> ServiceLogMetrics) list \<Rightarrow> ServiceLogMetrics list \<Rightarrow> int64
     \<Rightarrow> ServiceLogMetrics list \<times> int64" where
  "gate_loop threshold [] qualifying unattributed = (qualifying, unattributed)"
| "gate_loop threshold ((pair, m) # ms) qualifying unattributed =
     (if sint (sm_ErrorCount m) < sint threshold \<and> sint (sm_WarnCount m) < sint threshold
      then gate_loop threshold ms qualifying unattributed
      else if sm_Service m = []
      then gate_loop threshold ms qualifying (unattributed + (sm_ErrorCount m + sm_WarnCount m))
      else gate_loop threshold ms (qualifying @ [m]) unattributed)"

text \<open>Go's division of integers truncates towards zero.\<close>

definition go_div :: "int \<Rightarrow> int \<Rightarrow> int" where
  "go_div a b = sgn a * sgn b * (\<bar>a\<bar> div \<bar>b\<bar>)"

definition collect :: "scrape_env \<Rightarrow> Collector \<Rightarrow> ServiceLogMetrics list \<times> Collector" where
  "collect X c =
     (case discoverEndpoints X (lc_opts c) of
        Inl e \<Rightarrow> ([], c)
      | Inr targets \<Rightarrow>
          if length targets = 0 then ([], c)
          else (case scrape_loop X 0 targets c [] of
            (c', totals) \<Rightarrow> (fst (gate_loop (lo_ErrorThreshold (lc_opts c)) (x_range_totals X totals) [] 0), c')))"

text \<open>\<open>send\<close> is the SendLogMetrics of the Sender, on the state \<open>'s\<close> of its owner.\<close>

definition log_runOnce ::
  "(int64 \<Rightarrow> int \<Rightarrow> ServiceLogMetrics list \<Rightarrow> 's \<Rightarrow> 's) \<Rightarrow> scrape_env \<Rightarrow> Collector \<Rightarrow> 's \<Rightarrow> Collector \<times> 's" where
  "log_runOnce send X c s =
     (case collect X c of
        (qualifying, c') \<Rightarrow>
          if length qualifying = 0 then (c', s)
          else (c', send (x_now X) (go_div (sint (lo_Interval (lc_opts c))) 1000000000) qualifying s))"

text \<open>The ticker loop of Start: one run per tick, each in the environment of its moment.\<close>

fun log_Start ::
  "(int64 \<Rightarrow> int \<Rightarrow> ServiceLogMetrics list \<Rightarrow> 's \<Rightarrow> 's) \<Rightarrow> scrape_env list \<Rightarrow> Collector \<Rightarrow> 's \<Rightarrow> Collector \<times> 's" where
  "log_Start send [] c s = (c, s)"
| "log_Start send (X # Xs) c s =
     (case log_runOnce send X c s of (c', s') \<Rightarrow> log_Start send Xs c' s')"

end
