(* ===== verification/Log_Metrics_Facts.thy ===== *)
theory Log_Metrics_Facts
  imports Log_Metrics
begin

text \<open>
  What the collector guarantees: which movement of a counter a scrape reports, what the reports of
  any sequence of scrapes add up to and how much each restart of the exporter costs, that the
  result of a run does not depend on Go's map order, how the endpoints add up, and which services
  are sent.
\<close>

section \<open>Maps and their iteration order\<close>

lemma map_of_reorder: "distinct (map fst m) \<Longrightarrow> mset m' = mset m \<Longrightarrow> map_of m' = map_of m"
  by (metis map_of_inject_set mset_eq_imp_distinct_iff mset_eq_setD mset_map)

lemma distinct_reorder: "mset m' = mset m \<Longrightarrow> distinct (map fst m') = distinct (map fst m)"
  by (metis mset_eq_imp_distinct_iff mset_map)

lemma mset_of_map: "distinct (map fst m) \<Longrightarrow> distinct (map fst m') \<Longrightarrow> map_of m = map_of m' \<Longrightarrow> mset m = mset m'"
  by (metis distinct_map map_of_inject_set set_eq_iff_mset_eq_distinct)

lemma sum_loop_distinct: "distinct (map fst out) \<Longrightarrow> distinct (map fst (sum_loop opts ms out))"
  by (induction opts ms out rule: sum_loop.induct) (simp_all add: Let_def AList.distinct_update)

lemma sumByServicePair_distinct: "distinct (map fst (sumByServicePair opts fam))"
  by (simp add: sumByServicePair_def sum_loop_distinct split: option.split)

lemma sample_loop_distinct: "distinct (map fst out) \<Longrightarrow> distinct (map fst (sample_loop opts ms out))"
  by (induction opts ms out rule: sample_loop.induct) (simp_all add: Let_def AList.distinct_update)

lemma sampleByServicePair_distinct: "distinct (map fst (sampleByServicePair opts fam))"
  by (simp add: sampleByServicePair_def sample_loop_distinct split: option.split)

lemma merge_loop_distinct: "distinct (map fst out) \<Longrightarrow> distinct (map fst (merge_loop ovf prev f vs out))"
  by (induction ovf prev f vs out rule: merge_loop.induct) (simp_all add: AList.distinct_update)

lemma put_samples_distinct: "distinct (map fst out) \<Longrightarrow> distinct (map fst (put_samples ss out))"
  by (induction ss out rule: put_samples.induct) (simp_all add: AList.distinct_update)

lemma add_deltas_distinct: "distinct (map fst totals) \<Longrightarrow> distinct (map fst (add_deltas ds totals))"
  by (induction ds totals rule: add_deltas.induct) (simp_all add: AList.distinct_update)

section \<open>The movement of one counter\<close>

text \<open>
  For counters that count lines (integers up to 2 to the 53, where float64 is exact), the delta
  is the growth since the previous scrape, or, when the counter fell, its current value; it is never
  negative.
\<close>

lemma counterDelta_spec:
  assumes "0 \<le> prev" and "prev \<le> 2 ^ 53" and "0 \<le> cur" and "cur \<le> 2 ^ 53"
  shows "sint (counterDelta ovf (f64_of_int prev) (f64_of_int cur)) = (if prev \<le> cur then cur - prev else cur) \<and>
    0 \<le> sint (counterDelta ovf (f64_of_int prev) (f64_of_int cur))"
proof -
  have "\<bar>cur - prev\<bar> \<le> 2 ^ 53" using assms by simp
  then have "counterDelta ovf (f64_of_int prev) (f64_of_int cur)
      = f64_to_int64 ovf (f64_of_int (if prev \<le> cur then cur - prev else cur))"
    by (simp add: counterDelta_def Let_def f64_sub_int)
  also have "\<dots> = word_of_int (if prev \<le> cur then cur - prev else cur)"
    using assms by (intro f64_to_int64_int) auto
  finally have "sint (counterDelta ovf (f64_of_int prev) (f64_of_int cur)) = (if prev \<le> cur then cur - prev else cur)"
    using assms by (simp add: sint_of_int64)
  with assms show ?thesis by simp
qed

section \<open>The deltas of one scrape\<close>

text \<open>The movement of a pair between two sums: nothing when the pair is absent now.\<close>

definition growth :: "(f64 \<Rightarrow> int64) \<Rightarrow> counters \<Rightarrow> counters \<Rightarrow> servicePair \<Rightarrow> int64" where
  "growth ovf prev cur pair =
     (case map_of cur pair of None \<Rightarrow> 0 | Some v \<Rightarrow> counterDelta ovf (value_at prev pair) v)"

lemma delta_at_update [simp]: "delta_at (AList.update p d out) pair = (if pair = p then d else delta_at out pair)"
  by (simp add: delta_at_def AList.update_conv')

lemma merge_loop_at:
  "distinct (map fst vs) \<Longrightarrow>
   delta_at (merge_loop ovf prev f vs out) pair =
     (case map_of vs pair of None \<Rightarrow> delta_at out pair
      | Some v \<Rightarrow> f (counterDelta ovf (value_at prev pair) v) (delta_at out pair))"
proof (induction vs arbitrary: out)
  case (Cons v vs)
  obtain p x where v: "v = (p, x)" by fastforce
  show ?case
  proof (cases "pair = p")
    case True
    then have "map_of vs pair = None" using Cons.prems v by (simp add: map_of_eq_None_iff)
    then show ?thesis using Cons True v by simp
  qed (use Cons v in \<open>simp split: option.split\<close>)
qed simp

lemma put_samples_at:
  "distinct (map fst ss) \<Longrightarrow>
   delta_at (put_samples ss out) pair =
     (case map_of ss pair of None \<Rightarrow> delta_at out pair | Some s \<Rightarrow> (delta_at out pair)\<lparr>d_sample := s\<rparr>)"
proof (induction ss arbitrary: out)
  case (Cons s ss)
  obtain p x where v: "s = (p, x)" by fastforce
  show ?case
  proof (cases "pair = p")
    case True
    then have "map_of ss pair = None" using Cons.prems v by (simp add: map_of_eq_None_iff)
    then show ?thesis using Cons True v by simp
  qed (use Cons v in \<open>simp split: option.split\<close>)
qed simp

lemma metric_at_current:
  "metric_at (current_counters opts fams) (lo_ErrorMetric opts) = sumByServicePair opts (fams (lo_ErrorMetric opts))"
  "lo_WarnMetric opts \<noteq> [] \<Longrightarrow>
    metric_at (current_counters opts fams) (lo_WarnMetric opts) = sumByServicePair opts (fams (lo_WarnMetric opts))"
  "lo_TotalMetric opts \<noteq> [] \<Longrightarrow>
    metric_at (current_counters opts fams) (lo_TotalMetric opts) = sumByServicePair opts (fams (lo_TotalMetric opts))"
  by (simp_all add: metric_at_def current_counters_def Let_def AList.update_conv')

lemma merge_metric_at:
  assumes "range_law X" and "metric_at cur name = sumByServicePair opts fam"
  shows "delta_at (merge_metric X prev cur name f out) pair =
    (case map_of (sumByServicePair opts fam) pair of None \<Rightarrow> delta_at out pair
     | Some v \<Rightarrow> f (counterDelta (x_ovf X) (value_at (metric_at prev name) pair) v) (delta_at out pair))"
proof -
  have r: "mset (x_range_counters X (sumByServicePair opts fam)) = mset (sumByServicePair opts fam)"
    using assms(1) by (simp add: range_law_def)
  have "distinct (map fst (x_range_counters X (sumByServicePair opts fam)))"
    using distinct_reorder [OF r] sumByServicePair_distinct by simp
  then show ?thesis
    using map_of_reorder [OF sumByServicePair_distinct r] by (simp add: merge_metric_def assms(2) merge_loop_at)
qed

text \<open>The baseline of an endpoint.\<close>

definition baseline :: "Collector \<Rightarrow> string \<Rightarrow> endpointCounters" where
  "baseline c addr = (case map_of (lc_prev c) addr of None \<Rightarrow> [] | Some ec \<Rightarrow> ec)"

lemma computeDeltas_spec_aux:
  assumes "range_law X" and "computeDeltas X addr fams c = (deltas, c')"
  shows "d_errorDelta (delta_at deltas pair) = growth (x_ovf X) (metric_at (baseline c addr) (lo_ErrorMetric (lc_opts c)))
      (sumByServicePair (lc_opts c) (fams (lo_ErrorMetric (lc_opts c)))) pair \<and>
    d_warnDelta (delta_at deltas pair) = (if lo_WarnMetric (lc_opts c) = [] then 0 else
      growth (x_ovf X) (metric_at (baseline c addr) (lo_WarnMetric (lc_opts c)))
      (sumByServicePair (lc_opts c) (fams (lo_WarnMetric (lc_opts c)))) pair) \<and>
    d_totalDelta (delta_at deltas pair) = (if lo_TotalMetric (lc_opts c) = [] then 0 else
      growth (x_ovf X) (metric_at (baseline c addr) (lo_TotalMetric (lc_opts c)))
      (sumByServicePair (lc_opts c) (fams (lo_TotalMetric (lc_opts c)))) pair) \<and>
    baseline c' addr = current_counters (lc_opts c) fams \<and>
    (\<forall>other. other \<noteq> addr \<longrightarrow> baseline c' other = baseline c other) \<and> lc_opts c' = lc_opts c"
proof -
  let ?o = "lc_opts c"
  let ?cur = "current_counters ?o fams" and ?prev = "baseline c addr"
  define out1 where "out1 = merge_metric X ?prev ?cur (lo_ErrorMetric ?o) (\<lambda>v d. d\<lparr>d_errorDelta := v\<rparr>) []"
  define out2 where "out2 = (if lo_WarnMetric ?o \<noteq> [] then merge_metric X ?prev ?cur (lo_WarnMetric ?o) (\<lambda>v d. d\<lparr>d_warnDelta := v\<rparr>) out1 else out1)"
  define out3 where "out3 = (if lo_TotalMetric ?o \<noteq> [] then merge_metric X ?prev ?cur (lo_TotalMetric ?o) (\<lambda>v d. d\<lparr>d_totalDelta := v\<rparr>) out2 else out2)"
  let ?samples = "sampleByServicePair ?o (fams (lo_ErrorMetric ?o))"
  have c': "c' = c\<lparr>lc_prev := AList.update addr ?cur (lc_prev c)\<rparr>" and
    deltas: "deltas = (if lo_SampleLabel ?o \<noteq> [] then put_samples (x_range_samples X ?samples) out3 else out3)"
    using assms(2) by (auto simp: computeDeltas_def Let_def baseline_def out1_def out2_def out3_def)
  have r: "mset (x_range_samples X ?samples) = mset ?samples" using assms(1) by (simp add: range_law_def)
  then have "distinct (map fst (x_range_samples X ?samples))"
    using distinct_reorder [OF r] sampleByServicePair_distinct by simp
  from put_samples_at [OF this, of out3 pair] have d: "d_errorDelta (delta_at deltas pair) = d_errorDelta (delta_at out3 pair)"
    "d_warnDelta (delta_at deltas pair) = d_warnDelta (delta_at out3 pair)"
    "d_totalDelta (delta_at deltas pair) = d_totalDelta (delta_at out3 pair)"
    by (simp_all add: deltas split: option.split)
  define G where "G name = growth (x_ovf X) (metric_at ?prev name) (sumByServicePair ?o (fams name)) pair" for name
  have o1: "delta_at out1 pair = zero_delta\<lparr>d_errorDelta := G (lo_ErrorMetric ?o)\<rparr>"
    using merge_metric_at [OF assms(1) metric_at_current(1), where out = "[]" and pair = pair]
    by (simp add: out1_def G_def growth_def delta_at_def zero_delta_def split: option.split)
  have o2: "delta_at out2 pair = zero_delta\<lparr>d_errorDelta := G (lo_ErrorMetric ?o),
      d_warnDelta := (if lo_WarnMetric ?o = [] then 0 else G (lo_WarnMetric ?o))\<rparr>"
    using merge_metric_at [OF assms(1) metric_at_current(2), where out = out1 and pair = pair]
    by (simp add: out2_def o1 G_def growth_def zero_delta_def split: option.split)
  have o3: "delta_at out3 pair = zero_delta\<lparr>d_errorDelta := G (lo_ErrorMetric ?o),
      d_warnDelta := (if lo_WarnMetric ?o = [] then 0 else G (lo_WarnMetric ?o)),
      d_totalDelta := (if lo_TotalMetric ?o = [] then 0 else G (lo_TotalMetric ?o))\<rparr>"
    using merge_metric_at [OF assms(1) metric_at_current(3), where out = out2 and pair = pair]
    by (simp add: out3_def o2 G_def growth_def zero_delta_def split: option.split)
  have keep: "baseline c' addr = ?cur" "other \<noteq> addr \<Longrightarrow> baseline c' other = baseline c other" "lc_opts c' = ?o" for other
    by (simp_all add: c' baseline_def AList.update_conv')
  show ?thesis by (simp add: d o3 keep G_def)
qed

text \<open>
  C29: the deltas of one scrape, whatever the map order.  For every (namespace, service) pair each of the
  three counts is the movement of the sum of its samples since the same endpoint's previous
  scrape (the count is zero for a metric that is absent or switched off); the scrape becomes the new baseline of this
  endpoint, and the baselines of all other endpoints, and the options, stay as they are.
\<close>

theorem computeDeltas_spec:
  assumes "range_law X" and "computeDeltas X addr fams c = (deltas, c')"
  shows "d_errorDelta (delta_at deltas pair) = growth (x_ovf X) (metric_at (baseline c addr) (lo_ErrorMetric (lc_opts c)))
      (sumByServicePair (lc_opts c) (fams (lo_ErrorMetric (lc_opts c)))) pair \<and>
    d_warnDelta (delta_at deltas pair) = (if lo_WarnMetric (lc_opts c) = [] then 0 else
      growth (x_ovf X) (metric_at (baseline c addr) (lo_WarnMetric (lc_opts c)))
      (sumByServicePair (lc_opts c) (fams (lo_WarnMetric (lc_opts c)))) pair) \<and>
    d_totalDelta (delta_at deltas pair) = (if lo_TotalMetric (lc_opts c) = [] then 0 else
      growth (x_ovf X) (metric_at (baseline c addr) (lo_TotalMetric (lc_opts c)))
      (sumByServicePair (lc_opts c) (fams (lo_TotalMetric (lc_opts c)))) pair) \<and>
    baseline c' addr = current_counters (lc_opts c) fams \<and>
    (\<forall>other. other \<noteq> addr \<longrightarrow> baseline c' other = baseline c other) \<and> lc_opts c' = lc_opts c"
  by (rule computeDeltas_spec_aux [OF assms])

text \<open>An environment with map orders reversed, one exporter and one service.\<close>

definition example_log_options :: LogOptions where
  "example_log_options = setDefaults
     \<lparr>lo_ServiceNamespace = ''triage'', lo_ServiceName = ''fluentbit'', lo_Port = 0, lo_Interval = 0, lo_ScrapeTimeout = 0,
      lo_ErrorThreshold = 0, lo_ErrorMetric = ''errors'', lo_WarnMetric = ''warns'', lo_TotalMetric = ''lines'',
      lo_NamespaceLabel = '''', lo_ServiceLabel = '''', lo_ServiceLabelFallback = '''', lo_SampleLabel = ''''\<rparr>"

definition counter_sample :: "string \<Rightarrow> int \<Rightarrow> Metric" where
  "counter_sample svc n =
     \<lparr>m_Label = [(''namespace'', ''ops''), (''service'', svc)], m_Counter = Some (f64_of_int n), m_Gauge = None, m_Untyped = None\<rparr>"

definition errors_only :: "int \<Rightarrow> families" where
  "errors_only n = (\<lambda>name. if name = ''errors'' then Some [counter_sample ''api'' n] else None)"

definition example_scrape :: "int \<Rightarrow> scrape_env" where
  "example_scrape n =
     \<lparr>x_now = 1700000000, x_GetEndpoints = \<lambda>ns name. Inr [\<lparr>es_Ports = [2021], es_Addresses = [''10.0.0.1'']\<rparr>],
      x_Do = \<lambda>i url. Inr (200, Inr ''body''), x_Parse = \<lambda>b. Inr (errors_only n), x_ovf = \<lambda>x. 0,
      x_range_counters = rev, x_range_samples = rev, x_range_deltas = rev, x_range_totals = rev\<rparr>"

definition example_collector :: Collector where
  "example_collector = \<lparr>lc_opts = example_log_options, lc_prev = []\<rparr>"

abbreviation api_pair :: servicePair where
  "api_pair \<equiv> \<lparr>sp_Namespace = ''ops'', sp_Service = ''api''\<rparr>"

lemma example_log_options_simps [simp]:
  "lo_ErrorMetric example_log_options = ''errors''" "lo_WarnMetric example_log_options = ''warns''"
  "lo_TotalMetric example_log_options = ''lines''" "lo_NamespaceLabel example_log_options = ''namespace''"
  "lo_ServiceLabel example_log_options = ''service''" "lo_ErrorThreshold example_log_options = 10"
  "lo_SampleLabel example_log_options = ''''" "lo_Interval example_log_options = 60000000000"
  by (simp_all add: example_log_options_def setDefaults_def or_default_def)

lemma errors_only_sum: "\<bar>n\<bar> \<le> 2 ^ 53 \<Longrightarrow> sumByServicePair example_log_options (errors_only n ''errors'') = [(api_pair, f64_of_int n)]"
  using f64_add_int [of 0 n]
  by (simp add: sumByServicePair_def errors_only_def counter_sample_def pair_of_def serviceOf_def Let_def
      sampleValue_def value_at_def f64_of_int_def)

lemma range_law_example: "range_law (example_scrape n)"
  by (simp add: range_law_def example_scrape_def)

theorem computeDeltas_spec_witness:
  "d_errorDelta (delta_at (fst (computeDeltas (example_scrape 0) ''a:1'' (errors_only 40)
     (snd (computeDeltas (example_scrape 0) ''a:1'' (errors_only 25) example_collector)))) api_pair) = 15"
proof -
  obtain d1 c1 where one: "computeDeltas (example_scrape 0) ''a:1'' (errors_only 25) example_collector = (d1, c1)" by fastforce
  obtain d2 c2 where two: "computeDeltas (example_scrape 0) ''a:1'' (errors_only 40) c1 = (d2, c2)" by fastforce
  have opts: "lc_opts example_collector = example_log_options" by (simp add: example_collector_def)
  have c1: "baseline c1 ''a:1'' = current_counters example_log_options (errors_only 25)" "lc_opts c1 = example_log_options"
    using computeDeltas_spec [OF range_law_example one, of api_pair] opts by simp_all
  have sums: "sumByServicePair example_log_options (errors_only 25 ''errors'') = [(api_pair, f64_of_int 25)]"
    "sumByServicePair example_log_options (errors_only 40 ''errors'') = [(api_pair, f64_of_int 40)]"
    by (simp_all add: errors_only_sum)
  have "metric_at (current_counters example_log_options (errors_only 25)) ''errors'' = [(api_pair, f64_of_int 25)]"
    using metric_at_current(1) [of example_log_options "errors_only 25"] by (simp add: sums)
  then have "d_errorDelta (delta_at d2 api_pair) = counterDelta (x_ovf (example_scrape 0)) (f64_of_int 25) (f64_of_int 40)"
    using computeDeltas_spec [OF range_law_example two, of api_pair]
    by (simp add: c1 sums growth_def value_at_def)
  moreover have "sint (counterDelta (x_ovf (example_scrape 0)) (f64_of_int 25) (f64_of_int 40)) = 15"
    using counterDelta_spec [of 25 40] by simp
  moreover have "sint (15 :: int64) = 15" by simp
  ultimately show ?thesis using one two by (metis fst_conv snd_conv sint_int64_inj)
qed

section \<open>What the deltas add up to\<close>

text \<open>The three counts of a delta, and the metric that each is read from.\<close>

datatype lines_kind = ErrorLines | WarnLines | TotalLines

primrec metric_of :: "LogOptions \<Rightarrow> lines_kind \<Rightarrow> string" where
  "metric_of opts ErrorLines = lo_ErrorMetric opts"
| "metric_of opts WarnLines = lo_WarnMetric opts"
| "metric_of opts TotalLines = lo_TotalMetric opts"

primrec delta_of :: "lines_kind \<Rightarrow> delta \<Rightarrow> int64" where
  "delta_of ErrorLines d = d_errorDelta d"
| "delta_of WarnLines d = d_warnDelta d"
| "delta_of TotalLines d = d_totalDelta d"

text \<open>Consecutive scrapes of one endpoint: the reported deltas of a pair.\<close>

fun scrapes :: "scrape_env \<Rightarrow> string \<Rightarrow> servicePair \<Rightarrow> lines_kind \<Rightarrow> families list \<Rightarrow> Collector \<Rightarrow> int64 list" where
  "scrapes X addr pair which [] c = []"
| "scrapes X addr pair which (f # fs) c =
     (case computeDeltas X addr f c of (deltas, c') \<Rightarrow>
        delta_of which (delta_at deltas pair) # scrapes X addr pair which fs c')"

text \<open>
  What happens at the exporter between one scrape and the next.  It counts some lines; or it counts
  some, restarts (once or more) with counters at zero, and has counted \<open>since\<close> lines since its
  last start when the scrape comes.  The counter, the lines that were counted in truth, and those that
  no scrape can show: the ones before a restart, and the old value of the counter when
  the new one has already caught up with it.
\<close>

datatype interval = Counting nat | Restarted nat nat

fun readings :: "nat \<Rightarrow> interval list \<Rightarrow> nat list" where
  "readings v [] = []"
| "readings v (Counting k # hs) = (v + k) # readings (v + k) hs"
| "readings v (Restarted before since # hs) = since # readings since hs"

fun lines_counted :: "interval list \<Rightarrow> nat" where
  "lines_counted [] = 0"
| "lines_counted (Counting k # hs) = k + lines_counted hs"
| "lines_counted (Restarted before since # hs) = before + since + lines_counted hs"

fun lines_missed :: "nat \<Rightarrow> interval list \<Rightarrow> nat" where
  "lines_missed v [] = 0"
| "lines_missed v (Counting k # hs) = lines_missed (v + k) hs"
| "lines_missed v (Restarted before since # hs) =
     before + (if v \<le> since then v else 0) + lines_missed since hs"

lemma lines_missed_le: "lines_missed v hs \<le> lines_counted hs"
  by (induction v hs rule: lines_missed.induct) auto

lemma lines_missed_none: "\<forall>h \<in> set hs. \<exists>k. h = Counting k \<Longrightarrow> lines_missed v hs = 0"
  by (induction v hs rule: lines_missed.induct) auto

text \<open>A family shows a counter: a pair that is absent counts as zero (a restarted exporter lists no pair before its first line).\<close>

definition displays :: "LogOptions \<Rightarrow> servicePair \<Rightarrow> lines_kind \<Rightarrow> families \<Rightarrow> nat \<Rightarrow> bool" where
  "displays opts pair which f v \<longleftrightarrow> v \<le> 2 ^ 53 \<and>
     (case map_of (sumByServicePair opts (f (metric_of opts which))) pair of
        None \<Rightarrow> v = 0 | Some x \<Rightarrow> x = f64_of_int (int v))"

lemma value_at_absent: "map_of vs pair = None \<Longrightarrow> value_at vs pair = f64_of_int 0"
  by (simp add: value_at_def) (simp add: f64_of_int_def)

lemma value_at_displays:
  "displays opts pair which f v \<Longrightarrow> value_at (sumByServicePair opts (f (metric_of opts which))) pair = f64_of_int (int v)"
  by (auto simp: displays_def value_at_absent split: option.splits) (simp add: value_at_def)

text \<open>One scrape: the reported movement, and the new baseline.\<close>

lemma scrape_moves:
  assumes "range_law X" and "computeDeltas X addr f c = (deltas, c')"
    and "which = ErrorLines \<or> metric_of (lc_opts c) which \<noteq> []"
    and "value_at (metric_at (baseline c addr) (metric_of (lc_opts c) which)) pair = f64_of_int (int v)" "v \<le> 2 ^ 53"
    and "displays (lc_opts c) pair which f u"
  shows "delta_of which (delta_at deltas pair) = word_of_int (if v \<le> u then int u - int v else int u)"
    "lc_opts c' = lc_opts c"
    "value_at (metric_at (baseline c' addr) (metric_of (lc_opts c) which)) pair = f64_of_int (int u)"
proof -
  note spec = computeDeltas_spec_aux [OF assms(1,2), of pair]
  let ?m = "metric_of (lc_opts c) which"
  have "delta_of which (delta_at deltas pair) =
      growth (x_ovf X) (metric_at (baseline c addr) ?m) (sumByServicePair (lc_opts c) (f ?m)) pair"
    using spec assms(3) by (cases which) simp_all
  also have "\<dots> = word_of_int (if v \<le> u then int u - int v else int u)"
  proof (cases "map_of (sumByServicePair (lc_opts c) (f ?m)) pair")
    case None
    then have "u = 0" using assms(6) by (simp add: displays_def)
    then show ?thesis using None by (simp add: growth_def)
  next
    case (Some x)
    then have "x = f64_of_int (int u)" "u \<le> 2 ^ 53" using assms(6) by (simp_all add: displays_def)
    moreover have "int v \<le> 2 ^ 53" "int u \<le> 2 ^ 53" using assms(5) \<open>u \<le> 2 ^ 53\<close> by (simp_all flip: of_nat_le_iff)
    then have "sint (counterDelta (x_ovf X) (f64_of_int (int v)) (f64_of_int (int u))) = (if v \<le> u then int u - int v else int u)"
      using counterDelta_spec [of "int v" "int u"] by simp
    ultimately show ?thesis using Some assms(4) int64_of_sint by (metis growth_def option.simps(5))
  qed
  finally show "delta_of which (delta_at deltas pair) = word_of_int (if v \<le> u then int u - int v else int u)" .
  show "lc_opts c' = lc_opts c" using spec by simp
  have "metric_at (current_counters (lc_opts c) f) ?m = sumByServicePair (lc_opts c) (f ?m)"
    using assms(3) metric_at_current by (cases which) simp_all
  then show "value_at (metric_at (baseline c' addr) ?m) pair = f64_of_int (int u)"
    using spec value_at_displays [OF assms(6)] by simp
qed

text \<open>
  C26: what the deltas of a service add up to, for each of the three counts and over any series of
  scrapes of one endpoint, against the history of the exporter.  The sum is the number of lines that the
  exporter has counted since the baseline less those that no scrape could show: never more
  than were counted, and all of them when the exporter did not restart.  A restart costs the lines between the
  last scrape and the restart; if the new counter has passed the old value by the next scrape, the
  restart goes unnoticed and costs the old value as well.
\<close>

theorem reported_lines:
  assumes "range_law X" and "which = ErrorLines \<or> metric_of (lc_opts c) which \<noteq> []"
    and "value_at (metric_at (baseline c addr) (metric_of (lc_opts c) which)) pair = f64_of_int (int v)" and "v \<le> 2 ^ 53"
    and "list_all2 (displays (lc_opts c) pair which) fs (readings v hs)"
  shows "sum_list (scrapes X addr pair which fs c) = word_of_int (int (lines_counted hs) - int (lines_missed v hs)) \<and>
    lines_missed v hs \<le> lines_counted hs \<and>
    ((\<forall>h \<in> set hs. \<exists>k. h = Counting k) \<longrightarrow> lines_missed v hs = 0)"
proof -
  have "sum_list (scrapes X addr pair which fs c) = word_of_int (int (lines_counted hs) - int (lines_missed v hs))"
    using assms
  proof (induction hs arbitrary: c v fs)
    case (Cons h hs)
    define u where "u = (case h of Counting k \<Rightarrow> v + k | Restarted before since \<Rightarrow> since)"
    have u: "readings v (h # hs) = u # readings u hs" by (cases h) (simp_all add: u_def)
    obtain f fs' where fs: "fs = f # fs'" and f: "displays (lc_opts c) pair which f u"
      and rest: "list_all2 (displays (lc_opts c) pair which) fs' (readings u hs)"
      using Cons.prems(5) u by (cases fs) auto
    obtain deltas c' where cd: "computeDeltas X addr f c = (deltas, c')" by fastforce
    note moves = scrape_moves [OF Cons.prems(1) cd Cons.prems(2-4) f]
    have "sum_list (scrapes X addr pair which fs' c') = word_of_int (int (lines_counted hs) - int (lines_missed u hs))"
      by (rule Cons.IH [OF Cons.prems(1)]) (use Cons.prems(2) f [unfolded displays_def] rest moves in simp_all)
    then have "sum_list (scrapes X addr pair which fs c) =
        word_of_int ((if v \<le> u then int u - int v else int u) + (int (lines_counted hs) - int (lines_missed u hs)))"
      using cd fs moves(1) by simp
    also have "(if v \<le> u then int u - int v else int u) + (int (lines_counted hs) - int (lines_missed u hs)) =
        int (lines_counted (h # hs)) - int (lines_missed v (h # hs))"
      by (cases h) (simp_all add: u_def)
    finally show ?case .
  qed simp
  then show ?thesis using lines_missed_le lines_missed_none by blast
qed

text \<open>Scrapes of 5, 9 and, after a restart that loses 4 lines, 2: 11 of the 15 lines are reported.\<close>

theorem reported_lines_witness:
  "sum_list (scrapes (example_scrape 0) ''a:1'' api_pair ErrorLines [errors_only 5, errors_only 9, errors_only 2] example_collector) = 11 \<and>
   lines_counted [Counting 5, Counting 4, Restarted 4 2] = 15"
proof -
  have c: "baseline example_collector ''a:1'' = []" "lc_opts example_collector = example_log_options"
    by (simp_all add: baseline_def example_collector_def)
  then have "value_at (metric_at (baseline example_collector ''a:1'') (metric_of (lc_opts example_collector) ErrorLines)) api_pair =
      f64_of_int (int 0)"
    by (simp add: metric_at_def value_at_absent)
  moreover have "list_all2 (displays (lc_opts example_collector) api_pair ErrorLines)
      [errors_only 5, errors_only 9, errors_only 2] (readings 0 [Counting 5, Counting 4, Restarted 4 2])"
    by (simp add: displays_def errors_only_sum c)
  ultimately show ?thesis
    using reported_lines [OF range_law_example, of ErrorLines example_collector "''a:1''" api_pair 0
        "[errors_only 5, errors_only 9, errors_only 2]" "[Counting 5, Counting 4, Restarted 4 2]" 0]
    by (simp del: scrapes.simps)
qed

text \<open>The reading of the error counter of a pair that is present.\<close>

definition reads_as :: "LogOptions \<Rightarrow> servicePair \<Rightarrow> families \<Rightarrow> int \<Rightarrow> bool" where
  "reads_as opts pair f v \<longleftrightarrow> 0 \<le> v \<and> v \<le> 2 ^ 53 \<and>
     map_of (sumByServicePair opts (f (lo_ErrorMetric opts))) pair = Some (f64_of_int v)"

section \<open>Go's map order does not matter\<close>

lemma merge_loop_map:
  "distinct (map fst vs) \<Longrightarrow> map_of (merge_loop ovf prev f vs out) =
    (\<lambda>p. case map_of vs p of None \<Rightarrow> map_of out p
         | Some v \<Rightarrow> Some (f (counterDelta ovf (value_at prev p) v) (delta_at out p)))"
proof (induction vs arbitrary: out)
  case (Cons v vs)
  obtain p x where v: "v = (p, x)" by fastforce
  then have "map_of vs p = None" using Cons.prems by (simp add: map_of_eq_None_iff)
  then show ?case using Cons v by (auto simp: fun_eq_iff AList.update_conv' split: option.split)
qed simp

lemma put_samples_map:
  "distinct (map fst ss) \<Longrightarrow> map_of (put_samples ss out) =
    (\<lambda>p. case map_of ss p of None \<Rightarrow> map_of out p | Some s \<Rightarrow> Some ((delta_at out p)\<lparr>d_sample := s\<rparr>))"
proof (induction ss arbitrary: out)
  case (Cons s ss)
  obtain p x where v: "s = (p, x)" by fastforce
  then have "map_of ss p = None" using Cons.prems by (simp add: map_of_eq_None_iff)
  then show ?case using Cons v by (auto simp: fun_eq_iff AList.update_conv' split: option.split)
qed simp

lemma total_at_update [simp]: "total_at (AList.update p m totals) pair = (if pair = p then m else total_at totals pair)"
  by (simp add: total_at_def AList.update_conv')

lemma add_deltas_map:
  "distinct (map fst ds) \<Longrightarrow> map_of (add_deltas ds totals) =
    (\<lambda>p. case map_of ds p of None \<Rightarrow> map_of totals p | Some d \<Rightarrow> Some (add_delta d (total_at totals p)))"
proof (induction ds arbitrary: totals)
  case (Cons d ds)
  obtain p x where v: "d = (p, x)" by fastforce
  then have "map_of ds p = None" using Cons.prems by (simp add: map_of_eq_None_iff)
  then show ?case using Cons v by (auto simp: fun_eq_iff AList.update_conv' split: option.split)
qed simp

lemma range_counters:
  assumes "range_law X" and "distinct (map fst m)"
  shows "distinct (map fst (x_range_counters X m))" "map_of (x_range_counters X m) = map_of m"
proof -
  have r: "mset (x_range_counters X m) = mset m" using assms(1) by (simp add: range_law_def)
  show "distinct (map fst (x_range_counters X m))" using distinct_reorder [OF r] assms(2) by simp
  show "map_of (x_range_counters X m) = map_of m" by (rule map_of_reorder [OF assms(2) r])
qed

lemma range_samples:
  assumes "range_law X" and "distinct (map fst m)"
  shows "distinct (map fst (x_range_samples X m))" "map_of (x_range_samples X m) = map_of m"
proof -
  have r: "mset (x_range_samples X m) = mset m" using assms(1) by (simp add: range_law_def)
  show "distinct (map fst (x_range_samples X m))" using distinct_reorder [OF r] assms(2) by simp
  show "map_of (x_range_samples X m) = map_of m" by (rule map_of_reorder [OF assms(2) r])
qed

lemma range_deltas:
  assumes "range_law X" and "distinct (map fst m)"
  shows "distinct (map fst (x_range_deltas X m))" "map_of (x_range_deltas X m) = map_of m"
proof -
  have r: "mset (x_range_deltas X m) = mset m" using assms(1) by (simp add: range_law_def)
  show "distinct (map fst (x_range_deltas X m))" using distinct_reorder [OF r] assms(2) by simp
  show "map_of (x_range_deltas X m) = map_of m" by (rule map_of_reorder [OF assms(2) r])
qed

lemma update_member: "x \<in> set (AList.update k v al) \<Longrightarrow> x = (k, v) \<or> x \<in> set al"
  by (induction al) (auto split: if_splits)

lemma current_distinct: "distinct (map fst (metric_at (current_counters opts fams) name))"
proof -
  have "\<exists>fam. m = sumByServicePair opts fam" if "(n, m) \<in> set (current_counters opts fams)" for n m
    using that by (auto simp: current_counters_def Let_def split: if_splits dest!: update_member)
  then show ?thesis
    by (auto simp: metric_at_def sumByServicePair_distinct split: option.split dest!: map_of_SomeD)
       (metis sumByServicePair_distinct)
qed

lemma computeDeltas_distinct: "distinct (map fst (fst (computeDeltas X addr fams c)))"
  by (simp add: computeDeltas_def Let_def merge_metric_def merge_loop_distinct put_samples_distinct)

text \<open>Two environments that differ in the order of maps only.\<close>

definition same_but_order :: "scrape_env \<Rightarrow> scrape_env \<Rightarrow> bool" where
  "same_but_order X Y \<longleftrightarrow> x_now X = x_now Y \<and> x_GetEndpoints X = x_GetEndpoints Y \<and> x_Do X = x_Do Y \<and>
     x_Parse X = x_Parse Y \<and> x_ovf X = x_ovf Y"

lemma merge_metric_order:
  assumes "range_law X" "range_law Y" "same_but_order X Y" "map_of out = map_of out'"
  shows "map_of (merge_metric X prev (current_counters opts fams) name f out)
    = map_of (merge_metric Y prev (current_counters opts fams) name f out')"
proof -
  have "delta_at out = delta_at out'" using assms(4) by (simp add: delta_at_def fun_eq_iff)
  then show ?thesis
    using assms by (simp add: merge_metric_def merge_loop_map range_counters current_distinct same_but_order_def cong: option.case_cong)
qed

lemma computeDeltas_order:
  assumes "range_law X" "range_law Y" "same_but_order X Y"
  shows "map_of (fst (computeDeltas X addr fams c)) = map_of (fst (computeDeltas Y addr fams c)) \<and>
    snd (computeDeltas X addr fams c) = snd (computeDeltas Y addr fams c)"
proof -
  have samples: "map_of (put_samples (x_range_samples X ss) out) = map_of (put_samples (x_range_samples Y ss) out')"
    if "distinct (map fst ss)" "map_of out = map_of out'" for ss out out'
  proof -
    have "delta_at out = delta_at out'" using that(2) by (simp add: delta_at_def fun_eq_iff)
    then show ?thesis using assms that by (simp add: put_samples_map range_samples cong: option.case_cong)
  qed
  note merge = merge_metric_order [OF assms]
  show ?thesis
    by (auto simp: computeDeltas_def Let_def intro!: samples merge sampleByServicePair_distinct)
qed

lemma scrape_loop_order:
  assumes "range_law X" "range_law Y" "same_but_order X Y"
  shows "map_of totals = map_of totals' \<Longrightarrow> distinct (map fst totals) \<Longrightarrow> distinct (map fst totals') \<Longrightarrow>
    scrape_loop X n addrs c totals = (cx, tx) \<Longrightarrow> scrape_loop Y n addrs c totals' = (cy, ty) \<Longrightarrow>
    cx = cy \<and> map_of tx = map_of ty \<and> distinct (map fst tx) \<and> distinct (map fst ty)"
proof (induction addrs arbitrary: n c totals totals')
  case (Cons addr addrs)
  have same: "scrape X n addr = scrape Y n addr" using assms(3) by (simp add: scrape_def same_but_order_def split: sum.split prod.split)
  show ?case
  proof (cases "scrape X n addr")
    case (Inl e)
    then show ?thesis using Cons same by simp
  next
    case (Inr fams)
    obtain dx c1 where x: "computeDeltas X addr fams c = (dx, c1)" by fastforce
    obtain dy where y: "computeDeltas Y addr fams c = (dy, c1)" and d: "map_of dx = map_of dy"
      using computeDeltas_order [OF assms, of addr fams c] x by (cases "computeDeltas Y addr fams c") auto
    have dist: "distinct (map fst dx)" "distinct (map fst dy)"
      using computeDeltas_distinct [of X addr fams c] computeDeltas_distinct [of Y addr fams c] x y by simp_all
    have "total_at totals = total_at totals'" using Cons.prems(1) by (simp add: total_at_def fun_eq_iff)
    then have "map_of (add_deltas (x_range_deltas X dx) totals) = map_of (add_deltas (x_range_deltas Y dy) totals')"
      using Cons.prems(1) assms dist d by (simp add: add_deltas_map range_deltas cong: option.case_cong)
    then show ?thesis
      using Cons.IH [of "add_deltas (x_range_deltas X dx) totals" "add_deltas (x_range_deltas Y dy) totals'" "Suc n" c1]
        Cons.prems(2-5) Inr same x y by (simp add: add_deltas_distinct)
  qed
qed simp

text \<open>The gate of one service.\<close>

definition passes :: "int64 \<Rightarrow> ServiceLogMetrics \<Rightarrow> bool" where
  "passes threshold m \<longleftrightarrow>
     (sint threshold \<le> sint (sm_ErrorCount m) \<or> sint threshold \<le> sint (sm_WarnCount m)) \<and> sm_Service m \<noteq> []"

lemma gate_loop_eq:
  "fst (gate_loop threshold ms q u) = q @ filter (passes threshold) (map snd ms)"
  by (induction threshold ms q u rule: gate_loop.induct) (auto simp: passes_def)

text \<open>
  C28: the result of a run does not depend on the order in which Go iterates over maps: two runs that
  differ only in that order leave the same baselines and send the same services with the same
  counts and samples, up to their order in the frame.
\<close>

theorem run_order_independent:
  assumes "range_law X" and "range_law Y" and "same_but_order X Y"
  shows "snd (collect X c) = snd (collect Y c) \<and> mset (fst (collect X c)) = mset (fst (collect Y c))"
proof -
  have disc: "discoverEndpoints X (lc_opts c) = discoverEndpoints Y (lc_opts c)"
    using assms(3) by (simp add: discoverEndpoints_def same_but_order_def)
  show ?thesis
  proof (cases "discoverEndpoints X (lc_opts c)")
    case (Inl e)
    then show ?thesis using disc by (simp add: collect_def)
  next
    case (Inr targets)
    obtain cx tx where x: "scrape_loop X 0 targets c [] = (cx, tx)" by fastforce
    obtain cy ty where y: "scrape_loop Y 0 targets c [] = (cy, ty)" by fastforce
    have s: "cx = cy" "mset tx = mset ty"
      using scrape_loop_order [OF assms _ _ _ x y] mset_of_map by auto
    have "mset (x_range_totals X tx) = mset (x_range_totals Y ty)" using assms(1,2) s(2) by (simp add: range_law_def)
    then have "mset (filter (passes t) (map snd (x_range_totals X tx))) = mset (filter (passes t) (map snd (x_range_totals Y ty)))" for t
      by (simp add: mset_filter)
    then show ?thesis using Inr disc x y s(1) by (simp add: collect_def gate_loop_eq)
  qed
qed

theorem run_order_independent_witness:
  "mset (fst (collect (example_scrape 25) example_collector)) =
   mset (fst (collect ((example_scrape 25)\<lparr>x_range_totals := \<lambda>m. m, x_range_deltas := \<lambda>m. m\<rparr>) example_collector))"
  using run_order_independent [of "example_scrape 25" "(example_scrape 25)\<lparr>x_range_totals := \<lambda>m. m, x_range_deltas := \<lambda>m. m\<rparr>" example_collector]
    range_law_example [of 25] by (simp add: range_law_def same_but_order_def)

section \<open>Adding up the endpoints\<close>

text \<open>The deltas of the endpoints that could be scraped, in the order of the targets.\<close>

fun scraped :: "scrape_env \<Rightarrow> nat \<Rightarrow> string list \<Rightarrow> Collector \<Rightarrow> (servicePair \<times> delta) list list" where
  "scraped X n [] c = []"
| "scraped X n (addr # addrs) c =
     (case scrape X n addr of
        Inl e \<Rightarrow> scraped X (Suc n) addrs c
      | Inr fams \<Rightarrow>
          (case computeDeltas X addr fams c of (deltas, c') \<Rightarrow> deltas # scraped X (Suc n) addrs c'))"

definition error_sum :: "(servicePair \<times> delta) list list \<Rightarrow> servicePair \<Rightarrow> int64" where
  "error_sum dss pair = sum_list (map (\<lambda>ds. d_errorDelta (delta_at ds pair)) dss)"

definition warn_sum :: "(servicePair \<times> delta) list list \<Rightarrow> servicePair \<Rightarrow> int64" where
  "warn_sum dss pair = sum_list (map (\<lambda>ds. d_warnDelta (delta_at ds pair)) dss)"

definition total_sum :: "(servicePair \<times> delta) list list \<Rightarrow> servicePair \<Rightarrow> int64" where
  "total_sum dss pair = sum_list (map (\<lambda>ds. d_totalDelta (delta_at ds pair)) dss)"

lemma sums_simps [simp]:
  "error_sum [] pair = 0" "warn_sum [] pair = 0" "total_sum [] pair = 0"
  "error_sum (ds # dss) pair = d_errorDelta (delta_at ds pair) + error_sum dss pair"
  "warn_sum (ds # dss) pair = d_warnDelta (delta_at ds pair) + warn_sum dss pair"
  "total_sum (ds # dss) pair = d_totalDelta (delta_at ds pair) + total_sum dss pair"
  by (simp_all add: error_sum_def warn_sum_def total_sum_def)

text \<open>Every total carries the names of its pair and a short sample.\<close>

definition named :: "(servicePair \<times> ServiceLogMetrics) list \<Rightarrow> bool" where
  "named totals \<longleftrightarrow> distinct (map fst totals) \<and>
     (\<forall>(pair, m) \<in> set totals. sm_Namespace m = sp_Namespace pair \<and> sm_Service m = sp_Service pair \<and> length (sm_Sample m) \<le> 256)"

lemma named_at: "named totals \<Longrightarrow> sm_Namespace (total_at totals pair) = sp_Namespace pair \<and>
    sm_Service (total_at totals pair) = sp_Service pair \<and> length (sm_Sample (total_at totals pair)) \<le> 256"
  by (auto simp: total_at_def new_total_def named_def split: option.split dest!: map_of_SomeD)

lemma named_add: "named totals \<Longrightarrow> named (add_deltas ds totals)"
proof (induction ds totals rule: add_deltas.induct)
  case (2 pair d ds totals)
  have "named (AList.update pair (add_delta d (total_at totals pair)) totals)"
    using 2(2) named_at [OF 2(2), of pair] TruncateSample_bound
    by (auto simp: named_def AList.distinct_update add_delta_def dest!: update_member)
  then show ?case using 2(1) by simp
qed simp

lemma add_deltas_at:
  assumes "distinct (map fst ds)"
  shows "sm_ErrorCount (total_at (add_deltas ds totals) pair) = sm_ErrorCount (total_at totals pair) + d_errorDelta (delta_at ds pair)"
    "sm_WarnCount (total_at (add_deltas ds totals) pair) = sm_WarnCount (total_at totals pair) + d_warnDelta (delta_at ds pair)"
    "sm_TotalCount (total_at (add_deltas ds totals) pair) = sm_TotalCount (total_at totals pair) + d_totalDelta (delta_at ds pair)"
proof -
  have at: "total_at (add_deltas ds totals) pair = (case map_of ds pair of None \<Rightarrow> total_at totals pair
      | Some d \<Rightarrow> add_delta d (total_at totals pair))"
    using add_deltas_map [OF assms, of totals] by (auto simp: total_at_def split: option.split)
  show "sm_ErrorCount (total_at (add_deltas ds totals) pair) = sm_ErrorCount (total_at totals pair) + d_errorDelta (delta_at ds pair)"
    "sm_WarnCount (total_at (add_deltas ds totals) pair) = sm_WarnCount (total_at totals pair) + d_warnDelta (delta_at ds pair)"
    "sm_TotalCount (total_at (add_deltas ds totals) pair) = sm_TotalCount (total_at totals pair) + d_totalDelta (delta_at ds pair)"
    by (simp_all add: at delta_at_def zero_delta_def add_delta_def split: option.split)
qed

lemma scrape_loop_sums:
  assumes "range_law X"
  shows "named totals \<Longrightarrow> scrape_loop X n addrs c totals = (c', totals') \<Longrightarrow>
    named totals' \<and>
    sm_ErrorCount (total_at totals' pair) = sm_ErrorCount (total_at totals pair) + error_sum (scraped X n addrs c) pair \<and>
    sm_WarnCount (total_at totals' pair) = sm_WarnCount (total_at totals pair) + warn_sum (scraped X n addrs c) pair \<and>
    sm_TotalCount (total_at totals' pair) = sm_TotalCount (total_at totals pair) + total_sum (scraped X n addrs c) pair"
proof (induction addrs arbitrary: n c totals)
  case (Cons addr addrs)
  show ?case
  proof (cases "scrape X n addr")
    case (Inl e)
    then show ?thesis using Cons by simp
  next
    case (Inr fams)
    obtain ds c1 where d: "computeDeltas X addr fams c = (ds, c1)" by fastforce
    then have dist: "distinct (map fst ds)" using computeDeltas_distinct [of X addr fams c] by simp
    note r = range_deltas [OF assms dist]
    have at: "delta_at (x_range_deltas X ds) pair = delta_at ds pair" by (simp add: delta_at_def r(2))
    have "scrape_loop X (Suc n) addrs c1 (add_deltas (x_range_deltas X ds) totals) = (c', totals')"
      using Cons.prems(2) Inr d by simp
    from Cons.IH [OF named_add [OF Cons.prems(1)] this] show ?thesis
      using Inr d by (simp add: add_deltas_at [OF r(1)] at add.assoc)
  qed
qed simp

text \<open>The totals of a run are named: the pair of a row of the totals can be read off the row.\<close>

lemma named_member:
  assumes "named totals" "(pair, m) \<in> set totals"
  shows "m = total_at totals pair" "\<lparr>sp_Namespace = sm_Namespace m, sp_Service = sm_Service m\<rparr> = pair"
    "length (sm_Sample m) \<le> 256"
  using assms by (auto simp: named_def total_at_def intro!: servicePair.equality)

lemma named_distinct:
  assumes "named totals" "mset ms = mset totals"
  shows "distinct (map (\<lambda>m. (sm_Namespace m, sm_Service m)) (map snd ms))"
proof -
  have "map (\<lambda>m. (sm_Namespace m, sm_Service m)) (map snd ms) = map (\<lambda>p. (sp_Namespace p, sp_Service p)) (map fst ms)"
    using assms(1) mset_eq_setD [OF assms(2)] by (auto simp: named_def)
  moreover have "inj_on (\<lambda>p. (sp_Namespace p, sp_Service p)) (set (map fst ms))"
    by (rule inj_onI) (auto intro!: servicePair.equality)
  moreover have "distinct (map fst ms)" using assms(1) distinct_reorder [OF assms(2)] by (simp add: named_def)
  ultimately show ?thesis by (simp only: distinct_map)
qed

text \<open>With a positive threshold, the gate lets through the rows of the pairs whose totals reach it.\<close>

lemma qualifying_pairs:
  assumes "named totals" "0 < sint t"
  shows "(\<lambda>m. \<lparr>sp_Namespace = sm_Namespace m, sp_Service = sm_Service m\<rparr>) ` {m \<in> snd ` set totals. passes t m} =
    {pair. sp_Service pair \<noteq> [] \<and>
      (sint t \<le> sint (sm_ErrorCount (total_at totals pair)) \<or> sint t \<le> sint (sm_WarnCount (total_at totals pair)))}"
    (is "?pair ` ?rows = ?pairs")
proof (intro set_eqI iffI)
  fix pair assume "pair \<in> ?pair ` ?rows"
  then obtain p m where m: "(p, m) \<in> set totals" "passes t m" "pair = ?pair m" by auto
  note row = named_member [OF assms(1) m(1)]
  have "sp_Service pair = sm_Service m" using m(3) by simp
  moreover have "m = total_at totals pair" using m(3) row(1,2) by simp
  ultimately show "pair \<in> ?pairs" using m(2) by (simp add: passes_def)
next
  fix pair assume a: "pair \<in> ?pairs"
  have "map_of totals pair \<noteq> None"
  proof
    assume "map_of totals pair = None"
    then show False using a assms(2) by (simp add: total_at_def new_total_def)
  qed
  then obtain m where m: "(pair, m) \<in> set totals" by (auto dest: map_of_SomeD)
  note row = named_member [OF assms(1) m]
  have "sm_Service m = sp_Service pair" using row(2) by (metis servicePair.select_convs(2))
  then have "passes t m" using a row(1) by (simp add: passes_def)
  then show "pair \<in> ?pair ` ?rows" using m row(2) by (metis (mono_tags, lifting) image_eqI mem_Collect_eq snd_conv)
qed

text \<open>What collect returns, over the totals of its scrapes.\<close>

lemma collect_totals:
  assumes "range_law X" "discoverEndpoints X (lc_opts c) = Inr targets"
  obtains totals ms where
    "named totals" "mset ms = mset totals" "fst (collect X c) = filter (passes (lo_ErrorThreshold (lc_opts c))) (map snd ms)"
    "\<And>pair. sm_ErrorCount (total_at totals pair) = error_sum (scraped X 0 targets c) pair"
    "\<And>pair. sm_WarnCount (total_at totals pair) = warn_sum (scraped X 0 targets c) pair"
    "\<And>pair. sm_TotalCount (total_at totals pair) = total_sum (scraped X 0 targets c) pair"
proof -
  obtain c' totals where loop: "scrape_loop X 0 targets c [] = (c', totals)" by fastforce
  have perm: "mset (x_range_totals X totals) = mset totals" using assms(1) by (simp add: range_law_def)
  have q: "fst (collect X c) = filter (passes (lo_ErrorThreshold (lc_opts c))) (map snd (x_range_totals X totals))"
    using loop assms(2) perm by (auto simp: collect_def gate_loop_eq)
  have start: "total_at [] pair = new_total pair" for pair by (simp add: total_at_def)
  have empty: "named []" by (simp add: named_def)
  show ?thesis
    using scrape_loop_sums [OF assms(1) empty loop]
    by (intro that [OF _ perm q]) (simp_all add: start new_total_def)
qed

text \<open>
  C27: what a run sends.  A service is sent exactly if it has a name and its error or warn lines, added up
  over the endpoints that could be scraped, reach the threshold (an endpoint that cannot be scraped
  takes nothing away from the others); it is sent once, with those sums as its counts and a sample
  of at most 256 bytes.
\<close>

theorem services_sent:
  assumes "range_law X" and "discoverEndpoints X (lc_opts c) = Inr targets"
    and "0 < sint (lo_ErrorThreshold (lc_opts c))" and "dss = scraped X 0 targets c"
  shows "distinct (map (\<lambda>m. (sm_Namespace m, sm_Service m)) (fst (collect X c))) \<and>
    (\<forall>m \<in> set (fst (collect X c)).
       let pair = \<lparr>sp_Namespace = sm_Namespace m, sp_Service = sm_Service m\<rparr> in
       sm_ErrorCount m = error_sum dss pair \<and> sm_WarnCount m = warn_sum dss pair \<and> sm_TotalCount m = total_sum dss pair \<and>
       length (sm_Sample m) \<le> 256) \<and>
    (\<lambda>m. \<lparr>sp_Namespace = sm_Namespace m, sp_Service = sm_Service m\<rparr>) ` set (fst (collect X c)) =
      {pair. sp_Service pair \<noteq> [] \<and>
        (sint (lo_ErrorThreshold (lc_opts c)) \<le> sint (error_sum dss pair) \<or>
         sint (lo_ErrorThreshold (lc_opts c)) \<le> sint (warn_sum dss pair))}"
proof -
  obtain totals ms where named: "named totals" and perm: "mset ms = mset totals"
    and q: "fst (collect X c) = filter (passes (lo_ErrorThreshold (lc_opts c))) (map snd ms)"
    and sums: "\<And>pair. sm_ErrorCount (total_at totals pair) = error_sum dss pair"
      "\<And>pair. sm_WarnCount (total_at totals pair) = warn_sum dss pair"
      "\<And>pair. sm_TotalCount (total_at totals pair) = total_sum dss pair"
    using collect_totals [OF assms(1,2)] assms(4) by metis
  have rows: "set (fst (collect X c)) = {m \<in> snd ` set totals. passes (lo_ErrorThreshold (lc_opts c)) m}"
    using mset_eq_setD [OF perm] by (auto simp: q)
  have "distinct (map (\<lambda>m. (sm_Namespace m, sm_Service m)) (fst (collect X c)))"
    unfolding q by (rule distinct_map_filter [OF named_distinct [OF named perm]])
  moreover have "sm_ErrorCount m = error_sum dss pair \<and> sm_WarnCount m = warn_sum dss pair \<and>
      sm_TotalCount m = total_sum dss pair \<and> length (sm_Sample m) \<le> 256"
    if m: "m \<in> set (fst (collect X c))" and pair: "pair = \<lparr>sp_Namespace = sm_Namespace m, sp_Service = sm_Service m\<rparr>"
    for m pair
  proof -
    obtain p where "(p, m) \<in> set totals" using m by (auto simp: rows)
    note row = named_member [OF named this]
    have "m = total_at totals pair" using row(1,2) pair by simp
    then show ?thesis using sums [of pair] row(3) by simp
  qed
  ultimately show ?thesis
    using qualifying_pairs [OF named assms(3)] by (simp add: rows sums Let_def)
qed

lemma example_deltas:
  assumes "computeDeltas (example_scrape 25) addr (errors_only 25) example_collector = (ds, c')"
  shows "sint (d_errorDelta (delta_at ds pair)) = (if pair = api_pair then 25 else 0)" "d_warnDelta (delta_at ds pair) = 0"
proof -
  have prev: "lc_opts example_collector = example_log_options" "baseline example_collector addr = []"
    by (simp_all add: example_collector_def baseline_def)
  note deltas = computeDeltas_spec_aux [OF range_law_example assms, of pair]
  have "errors_only 25 ''warns'' = None" by (simp add: errors_only_def)
  then show "d_warnDelta (delta_at ds pair) = 0"
    using deltas by (simp add: prev growth_def sumByServicePair_def)
  have zero: "value_at [] p = f64_of_int 0" for p by (simp add: value_at_def) (simp add: f64_of_int_def)
  show "sint (d_errorDelta (delta_at ds pair)) = (if pair = api_pair then 25 else 0)"
    using deltas counterDelta_spec [of 0 25] by (simp add: prev growth_def errors_only_sum metric_at_def zero)
qed

theorem services_sent_witness:
  "(\<lambda>m. (sm_Namespace m, sm_Service m, sint (sm_ErrorCount m))) ` set (fst (collect (example_scrape 25) example_collector)) =
     {(''ops'', ''api'', 25)}"
proof -
  let ?sent = "set (fst (collect (example_scrape 25) example_collector))"
  obtain ds c' where ds: "computeDeltas (example_scrape 25) ''10.0.0.1:2021'' (errors_only 25) example_collector = (ds, c')"
    by fastforce
  have targets: "discoverEndpoints (example_scrape 25) (lc_opts example_collector) = Inr [''10.0.0.1:2021'']"
    by (simp add: discoverEndpoints_def example_scrape_def example_collector_def JoinHostPort_def format_int_def
        nat_digits.simps digit_def)
  have threshold: "sint (lo_ErrorThreshold (lc_opts example_collector)) = 10" by (simp add: example_collector_def)
  have "scrape (example_scrape 25) 0 ''10.0.0.1:2021'' = Inr (errors_only 25)"
    by (simp add: scrape_def example_scrape_def)
  then have scraped: "[ds] = scraped (example_scrape 25) 0 [''10.0.0.1:2021''] example_collector" using ds by simp
  note sent = services_sent [OF range_law_example targets _ scraped, unfolded threshold, simplified]
  let ?pair = "\<lambda>m. \<lparr>sp_Namespace = sm_Namespace m, sp_Service = sm_Service m\<rparr>"
  let ?count = "\<lambda>p. (sp_Namespace p, sp_Service p, sint (d_errorDelta (delta_at ds p)))"
  have "?pair ` ?sent = {api_pair}"
    using sent by (auto simp: example_deltas [OF ds] split: if_splits)
  moreover have "(\<lambda>m. (sm_Namespace m, sm_Service m, sint (sm_ErrorCount m))) ` ?sent = ?count ` ?pair ` ?sent"
    unfolding image_image using sent by (intro image_cong) (simp_all add: Let_def)
  ultimately show ?thesis by (simp add: example_deltas [OF ds])
qed

section \<open>Defaults\<close>

text \<open>
  After the defaults every option that the collector divides by, compares with or looks up is
  set: port, interval, timeout and threshold are positive, and every metric name and label key is non-empty,
  so an empty flag never switches a metric or the fallback label off.  Values that were set are kept,
  and applying the defaults twice changes nothing.
\<close>

lemma setDefaults_complete:
  "setDefaults (setDefaults o1) = setDefaults o1 \<and>
   0 < lo_Port (setDefaults o1) \<and> 0 < sint (lo_Interval (setDefaults o1)) \<and> 0 < sint (lo_ScrapeTimeout (setDefaults o1)) \<and>
   0 < sint (lo_ErrorThreshold (setDefaults o1)) \<and>
   [] \<notin> {lo_ErrorMetric (setDefaults o1), lo_WarnMetric (setDefaults o1), lo_TotalMetric (setDefaults o1),
     lo_NamespaceLabel (setDefaults o1), lo_ServiceLabel (setDefaults o1), lo_ServiceLabelFallback (setDefaults o1)} \<and>
   (lo_WarnMetric o1 = [] \<or> lo_WarnMetric (setDefaults o1) = lo_WarnMetric o1)"
  by (simp add: setDefaults_def or_default_def)

end
