(* ===== verification/Log_Pipeline.thy ===== *)
theory Log_Pipeline
  imports Pusher_Facts Log_Metrics_Facts
begin

text \<open>
  The collector and the push client together.  The collector knows the client only through the
  interface Sender (logmetrics/collector.go), here the locale \<open>metrics_sender\<close>; the client's
  SendLogMetrics (push/pusher.go) provides it.
\<close>

section \<open>The interface Sender\<close>

text \<open>
  What the collector may rely on: sending no services does nothing, and sending keeps the invariant
  of the sender.
\<close>

locale metrics_sender =
  fixes send :: "int64 \<Rightarrow> int \<Rightarrow> ServiceLogMetrics list \<Rightarrow> 's \<Rightarrow> 's"
    and ok :: "'s \<Rightarrow> bool"
  assumes send_nothing: "send ws wsec [] s = s"
    and send_ok: "ok s \<Longrightarrow> ok (send ws wsec services s)"
begin

text \<open>The early return of runOnce is an optimisation: a run sends what it has collected.\<close>

lemma run_eq:
  "log_runOnce send X c s =
     (snd (collect X c), send (x_now X) (go_div (sint (lo_Interval (lc_opts c))) 1000000000) (fst (collect X c)) s)"
  by (cases "collect X c") (simp add: log_runOnce_def send_nothing)

lemma run_ok: "ok s \<Longrightarrow> ok (snd (log_runOnce send X c s))"
  by (simp add: run_eq send_ok)

lemma start_ok: "ok s \<Longrightarrow> ok (snd (log_Start send Xs c s))"
proof (induction Xs arbitrary: c s)
  case (Cons X Xs)
  then show ?case using run_ok [of s X c] by (cases "log_runOnce send X c s") simp
qed simp

lemma start_quiet: "(\<And>c. fst (collect X c) = []) \<Longrightarrow> snd (log_Start send (replicate n X) c s) = s"
  by (induction n arbitrary: c) (simp_all add: run_eq send_nothing)

end

text \<open>The invariant of the push client: a queue is never longer than its capacity.\<close>

definition queue_bounded :: "Pusher option \<Rightarrow> bool" where
  "queue_bounded p \<longleftrightarrow> (case p of None \<Rightarrow> True
     | Some p \<Rightarrow> (case ps_sendC p of None \<Rightarrow> True | Some q \<Rightarrow> length q \<le> 4096))"

lemma SendLogMetrics_bounded:
  assumes "queue_bounded p"
  shows "queue_bounded (SendLogMetrics ws wsec services p)"
proof (cases p)
  case (Some p')
  show ?thesis
  proof (cases "ps_sendC p'")
    case None
    then show ?thesis using assms Some by (simp add: SendLogMetrics_def)
  next
    case (Some q)
    then have "length q \<le> 4096" using assms \<open>p = Some p'\<close> by (simp add: queue_bounded_def)
    from queue_keeps_order_and_counts_aux [OF Some this] show ?thesis
      using Some \<open>p = Some p'\<close> by (simp add: SendLogMetrics_eq queue_bounded_def)
  qed
qed (simp add: SendLogMetrics_def queue_bounded_def)

interpretation push_sender: metrics_sender SendLogMetrics queue_bounded
  by unfold_locales (auto simp: SendLogMetrics_bounded, simp add: SendLogMetrics_def split: option.split)

section \<open>From the exporters to the queue\<close>

text \<open>
  C36: the whole path of a log line.  With a connected push client, a run of the collector offers to the queue exactly
  the qualifying services, in frames of at most a hundred that carry the start of the run and the
  interval in seconds; without qualifying services, or with push mode off (a nil client), nothing
  changes; and however long the collector runs, the queue never exceeds its 4096 frames.
\<close>

theorem collector_through_pusher:
  assumes "queue_bounded (Some p)"
  shows "(ps_sendC p \<noteq> None \<longrightarrow> log_runOnce SendLogMetrics X c (Some p) =
      (snd (collect X c), Some (enqueue_all (map (newLogMetrics (po_ClusterName (ps_opts p)) (x_now X)
          (go_div (sint (lo_Interval (lc_opts c))) 1000000000)) (chunkServices (fst (collect X c)))) p))) \<and>
    (fst (collect X c) = [] \<longrightarrow> snd (log_runOnce SendLogMetrics X c (Some p)) = Some p) \<and>
    snd (log_runOnce SendLogMetrics X c None) = None \<and>
    queue_bounded (snd (log_Start SendLogMetrics Xs c (Some p)))"
  using push_sender.start_ok [OF assms] push_sender.send_nothing
  by (simp add: push_sender.run_eq SendLogMetrics_eq) (simp add: SendLogMetrics_def)

theorem collector_through_pusher_witness:
  "queue_bounded (snd (log_Start SendLogMetrics [example_scrape 25, example_scrape 60] example_collector (Some (example_pusher (Some [])))))"
proof -
  have "queue_bounded (Some (example_pusher (Some [])))" by (simp add: queue_bounded_def example_pusher_def)
  from collector_through_pusher [OF this] show ?thesis by blast
qed

section \<open>A window that nobody receives\<close>

text \<open>
  C37: the window of a scrape is lost when the push client is not connected.  Before the first
  connection SendLogMetrics drops the services, but the collector has already made the
  scrape its baseline, so the next scrape of the same counters reports no movement: nothing
  recovers the lines of the dropped window.
\<close>

theorem disconnected_window_is_lost:
  assumes "range_law X" and "range_law Y" and "ps_sendC p = None"
    and "discoverEndpoints X (lc_opts c) = Inr [addr]" and "scrape X 0 addr = Inr fams"
    and "reads_as (lc_opts c) pair fams v"
    and "log_runOnce SendLogMetrics X c (Some p) = (c', s')"
  shows "s' = Some p \<and> sint (d_errorDelta (delta_at (fst (computeDeltas Y addr fams c')) pair)) = 0"
proof -
  obtain deltas c1 where d: "computeDeltas X addr fams c = (deltas, c1)" by fastforce
  then have "snd (collect X c) = c1" using assms(4,5) by (simp add: collect_def)
  then have run: "s' = Some p" "c' = c1"
    using assms(3,7) by (simp_all add: push_sender.run_eq SendLogMetrics_def split: if_splits)
  note spec = computeDeltas_spec_aux [OF assms(1) d, of pair]
  obtain deltas' c2 where d': "computeDeltas Y addr fams c1 = (deltas', c2)" by fastforce
  have "d_errorDelta (delta_at deltas' pair) = counterDelta (x_ovf Y) (f64_of_int v) (f64_of_int v)"
    using computeDeltas_spec_aux [OF assms(2) d', of pair] spec assms(6)
    by (simp add: growth_def reads_as_def metric_at_current value_at_def)
  then show ?thesis
    using run d' counterDelta_spec [of v v "x_ovf Y"] assms(6) by (simp add: reads_as_def)
qed

theorem disconnected_window_is_lost_witness:
  "snd (log_runOnce SendLogMetrics (example_scrape 25) example_collector (Some (example_pusher None))) = Some (example_pusher None)"
proof -
  obtain c' s' where r: "log_runOnce SendLogMetrics (example_scrape 25) example_collector (Some (example_pusher None)) = (c', s')"
    by fastforce
  have "discoverEndpoints (example_scrape 25) (lc_opts example_collector) = Inr [''10.0.0.1:2021'']"
    by (simp add: discoverEndpoints_def example_scrape_def example_collector_def JoinHostPort_def format_int_def
        nat_digits.simps digit_def)
  moreover have "scrape (example_scrape 25) 0 ''10.0.0.1:2021'' = Inr (errors_only 25)"
    by (simp add: scrape_def example_scrape_def)
  moreover have "reads_as (lc_opts example_collector) api_pair (errors_only 25) 25"
    by (simp add: reads_as_def example_collector_def errors_only_sum)
  moreover have "ps_sendC (example_pusher None) = None" by (simp add: example_pusher_def)
  ultimately show ?thesis
    using disconnected_window_is_lost [OF range_law_example range_law_example _ _ _ _ r] r by fastforce
qed

text \<open>
  C38: between two connections the push client still has a channel: nothing tells SendLogMetrics or the
  informer handlers that the connection has ended, frames go on entering the old queue, and the
  next connection starts with an empty one, so every frame left there is lost without being counted.
\<close>

theorem queue_dies_with_connection:
  assumes "open_connection E fate p = Opened s0" and "s = run_session E evs s0"
  shows "ps_sendC (se_pusher s) \<noteq> None \<and>
    SendLogMetrics ws wsec services (Some (se_pusher s)) =
      Some (enqueue_all (map (newLogMetrics (po_ClusterName (ps_opts p)) ws wsec) (chunkServices services)) (se_pusher s)) \<and>
    (\<forall>E' fate' p' s1. open_connection E' fate' p' = Opened s1 \<longrightarrow>
       accepted s1 = [] \<and> ps_droppedFrames (se_pusher s1) = 0)"
proof -
  note start = open_connection_session [OF assms(1)]
  note run = run_conserves [OF start [THEN conjunct1], of E evs]
  have "ps_sendC (se_pusher s) \<noteq> None" "ps_opts (se_pusher s) = ps_opts p"
    using run start assms(2) by (auto simp: connected_def)
  then show ?thesis using open_connection_session by (auto simp: SendLogMetrics_eq)
qed

theorem queue_dies_with_connection_witness:
  "ps_sendC (se_pusher (run_session example_env [ReadError False, Advance] example_session)) \<noteq> None"
  using queue_dies_with_connection [OF example_opened refl] by blast

end
