(* ===== verification/Push_Lifecycle.thy ===== *)
theory Push_Lifecycle
  imports Pusher_Facts
begin

text \<open>
  The push client over its whole life (push/pusher.go): the read side of a connection with its
  deadline (readLoop, decode), runOnce from the dial to the return, and Start over any number of
  real connections.  The lemmas show when the read side ends, that the snapshot ends, and what
  holds across reconnects.
\<close>

section \<open>The read side\<close>

text \<open>decode adds its context to the error of the JSON decoder, the parameter \<open>unmarshal\<close>.\<close>

definition decode :: "(string \<Rightarrow> go_error + Frame) \<Rightarrow> string \<Rightarrow> go_error + Frame" where
  "decode unmarshal data =
     (case unmarshal data of
        Inl e \<Rightarrow> Inl (ErrOther (''decode frame: '' @ err_msg e))
      | Inr f \<Rightarrow> Inr f)"

text \<open>
  What arrives from the hub, each with its time in nanoseconds.  A pong is handled inside
  ReadMessage by the handler that runOnce installs; a ping of the hub is handled there by the default
  handler of the library, which answers it and leaves the deadline alone (the flag says whether the
  answer could be written; if not, ReadMessage fails).  A close frame, a broken connection and an
  expired deadline are errors of ReadMessage.
\<close>

datatype incoming = Pong | HubPing bool | TextMessage string | CloseFrame int | Broken

definition ClosePolicyViolation :: int where "ClosePolicyViolation = 1008"

text \<open>The read timeout of runOnce, a product of 64-bit durations.\<close>

definition readTimeout :: "PushOptions \<Rightarrow> int64" where
  "readTimeout opts = 3 * po_Heartbeat opts"

text \<open>
  The loop with the current deadline.  It returns whether the hub rejected the handshake, when it
  ended, and how many frames it ignored because they did not decode.
\<close>

fun readLoop :: "(string \<Rightarrow> go_error + Frame) \<Rightarrow> int64 \<Rightarrow> int \<Rightarrow> (int \<times> incoming) list \<Rightarrow> nat \<Rightarrow> bool \<times> int \<times> nat" where
  "readLoop unmarshal timeout deadline [] ignored = (False, deadline, ignored)"
| "readLoop unmarshal timeout deadline ((t, m) # ms) ignored =
     (if deadline \<le> t then (False, deadline, ignored)
      else case m of
        Pong \<Rightarrow> readLoop unmarshal timeout (t + sint timeout) ms ignored
      | HubPing answered \<Rightarrow>
          if answered then readLoop unmarshal timeout deadline ms ignored else (False, t, ignored)
      | TextMessage data \<Rightarrow>
          readLoop unmarshal timeout (t + sint timeout) ms
            (case decode unmarshal data of Inl e \<Rightarrow> Suc ignored | Inr f \<Rightarrow> ignored)
      | CloseFrame code \<Rightarrow> (code = ClosePolicyViolation, t, ignored)
      | Broken \<Rightarrow> (False, t, ignored))"

text \<open>
  Messages that keep the loop reading: the time of the last sign of life after the message, None if
  it ends the loop.  Pongs and frames are signs of life, a ping of the hub is not.
\<close>

fun sign_after :: "int \<Rightarrow> int \<times> incoming \<Rightarrow> int option" where
  "sign_after t0 (t, Pong) = Some t"
| "sign_after t0 (t, TextMessage s) = Some t"
| "sign_after t0 (t, HubPing answered) = (if answered then Some t0 else None)"
| "sign_after t0 (t, CloseFrame code) = None"
| "sign_after t0 (t, Broken) = None"

text \<open>All messages keep the loop reading and come in time, and the time of the last sign of life.\<close>

fun alive :: "int \<Rightarrow> int \<Rightarrow> (int \<times> incoming) list \<Rightarrow> bool" where
  "alive T t0 [] = True"
| "alive T t0 (x # ms) = (fst x < t0 + T \<and> (case sign_after t0 x of None \<Rightarrow> False | Some t1 \<Rightarrow> alive T t1 ms))"

fun last_sign :: "int \<Rightarrow> (int \<times> incoming) list \<Rightarrow> int" where
  "last_sign t0 [] = t0"
| "last_sign t0 (x # ms) = (case sign_after t0 x of None \<Rightarrow> t0 | Some t1 \<Rightarrow> last_sign t1 ms)"

fun undecodable :: "(string \<Rightarrow> go_error + Frame) \<Rightarrow> (int \<times> incoming) list \<Rightarrow> nat" where
  "undecodable u [] = 0"
| "undecodable u ((t, m) # ms) =
     (case m of TextMessage s \<Rightarrow> (case u s of Inl e \<Rightarrow> 1 | Inr f \<Rightarrow> 0) | _ \<Rightarrow> 0) + undecodable u ms"

lemma readLoop_step:
  "readLoop u T (t0 + sint T) (x # ms) n =
     (if t0 + sint T \<le> fst x then (False, t0 + sint T, n)
      else case sign_after t0 x of
        None \<Rightarrow> (snd x = CloseFrame ClosePolicyViolation, fst x, n)
      | Some t1 \<Rightarrow> readLoop u T (t1 + sint T) ms (n + undecodable u [x]))"
  by (cases "(t0, x)" rule: sign_after.cases) (auto simp: decode_def split: sum.split)

lemma undecodable_Cons: "undecodable u (x # ms) = undecodable u [x] + undecodable u ms"
  by (cases x) simp

lemma readLoop_alive:
  "alive (sint T) t0 ms \<Longrightarrow>
   readLoop u T (t0 + sint T) (ms @ rest) n = readLoop u T (last_sign t0 ms + sint T) rest (n + undecodable u ms)"
proof (induction ms arbitrary: t0 n)
  case (Cons x ms)
  then obtain t1 where "sign_after t0 x = Some t1" "fst x < t0 + sint T" "alive (sint T) t1 ms"
    by (auto split: option.splits)
  then show ?case
    using Cons.IH by (simp add: readLoop_step undecodable_Cons [of u x ms] add.assoc del: readLoop.simps undecodable.simps)
qed simp

lemma readLoop_silent: "rest = [] \<or> d \<le> fst (hd rest) \<Longrightarrow> readLoop u T d rest n = (False, d, n)"
  by (cases rest) auto

lemma readLoop_rejected:
  "fst (readLoop u T (t0 + sint T) ms n) \<longleftrightarrow>
   (\<exists>pre t post. ms = pre @ (t, CloseFrame ClosePolicyViolation) # post \<and> alive (sint T) t0 pre \<and>
      t < last_sign t0 pre + sint T)"
proof (induction ms arbitrary: t0 n)
  case (Cons x ms)
  have split: "(\<exists>pre t post. x # ms = pre @ (t, CloseFrame ClosePolicyViolation) # post \<and> alive (sint T) t0 pre \<and>
        t < last_sign t0 pre + sint T) \<longleftrightarrow>
      fst x < t0 + sint T \<and>
      (case sign_after t0 x of
         None \<Rightarrow> snd x = CloseFrame ClosePolicyViolation
       | Some t1 \<Rightarrow> (\<exists>pre t post. ms = pre @ (t, CloseFrame ClosePolicyViolation) # post \<and> alive (sint T) t1 pre \<and>
            t < last_sign t1 pre + sint T))" (is "?l \<longleftrightarrow> ?r")
  proof
    assume ?l
    then obtain pre t post where "x # ms = pre @ (t, CloseFrame ClosePolicyViolation) # post" "alive (sint T) t0 pre"
        "t < last_sign t0 pre + sint T" by blast
    then show ?r by (cases pre) (auto split: option.splits)
  next
    assume r: ?r
    show ?l
    proof (cases "sign_after t0 x")
      case None
      then show ?thesis using r by (cases x) (intro exI [of _ "[]"], auto)
    next
      case (Some t1)
      then obtain pre t post where "ms = pre @ (t, CloseFrame ClosePolicyViolation) # post" "alive (sint T) t1 pre"
          "t < last_sign t1 pre + sint T" using r by auto
      then show ?thesis using Some r by (intro exI [of _ "x # pre"]) auto
    qed
  qed
  show ?case
    unfolding split readLoop_step using Cons.IH by (auto simp del: readLoop.simps split: option.split)
qed simp

text \<open>
  C25: the read deadline detects a dead peer, and nothing else.  With a heartbeat whose triple fits a
  duration, pongs and frames (decodable or not) that come within three heartbeats of each other
  keep the loop reading, with any pings of the hub between them, which are answered but do not count.
  When the hub falls silent, the loop ends three heartbeats after its last sign of life, without a
  rejection.  The handshake counts as rejected exactly if a close frame with the code of a policy
  violation arrives while the connection is alive.
\<close>

theorem dead_peer_detected:
  assumes "0 < sint (po_Heartbeat opts)" "3 * sint (po_Heartbeat opts) \<le> int64_max"
  shows "(alive (3 * sint (po_Heartbeat opts)) t0 ms \<and>
      (rest = [] \<or> last_sign t0 ms + 3 * sint (po_Heartbeat opts) \<le> fst (hd rest)) \<longrightarrow>
      readLoop u (readTimeout opts) (t0 + sint (readTimeout opts)) (ms @ rest) 0 =
        (False, last_sign t0 ms + 3 * sint (po_Heartbeat opts), undecodable u ms)) \<and>
    (fst (readLoop u (readTimeout opts) (t0 + sint (readTimeout opts)) ms 0) \<longleftrightarrow>
      (\<exists>pre t post. ms = pre @ (t, CloseFrame ClosePolicyViolation) # post \<and>
         alive (3 * sint (po_Heartbeat opts)) t0 pre \<and> t < last_sign t0 pre + 3 * sint (po_Heartbeat opts)))"
proof -
  have "readTimeout opts = word_of_int (3 * sint (po_Heartbeat opts))"
    by (simp add: readTimeout_def)
  moreover have "sint (word_of_int (3 * sint (po_Heartbeat opts)) :: int64) = 3 * sint (po_Heartbeat opts)"
    using assms by (intro sint_of_int64) simp_all
  ultimately have T: "sint (readTimeout opts) = 3 * sint (po_Heartbeat opts)" by (simp only:)
  show ?thesis
    using readLoop_alive [of "readTimeout opts" t0 ms u rest 0] readLoop_rejected [of u "readTimeout opts" t0 ms 0]
      readLoop_silent [of rest "last_sign t0 ms + sint (readTimeout opts)"]
    unfolding T by auto
qed

theorem dead_peer_detected_witness:
  "readLoop (\<lambda>s. Inl (ErrOther s)) (readTimeout example_options) (60000000000)
     [(20, Pong), (59999999999, TextMessage ''?''), (200000000000, Pong)] 0 = (False, 119999999999, 1)"
proof -
  have hb: "sint (po_Heartbeat example_options) = 20000000000"
    by (simp add: example_options_def sint_Seconds)
  have T: "sint (readTimeout example_options) = 60000000000"
    by (simp add: readTimeout_def example_options_def Seconds_def)
  show ?thesis
    using dead_peer_detected [of example_options 0 "[(20, Pong), (59999999999, TextMessage ''?'')]" "[(200000000000, Pong)]"
      "\<lambda>s. Inl (ErrOther s)"]
    by (simp add: hb T)
qed

section \<open>The snapshot ends\<close>

text \<open>With the size zero, a list that is not empty and writes that succeed, the loop makes no progress.\<close>

lemma snapshot_loop_stuck:
  "snapshot_loop E cl n apps i c = Some r \<Longrightarrow>
   n = 0 \<and> c_fate c = [] \<and> (\<forall>f. \<exists>d. encode E f = Inr d) \<longrightarrow> \<not> i < int (length apps)"
proof (erule snapshot_loop.raw_induct [rotated], intro impI notI)
  fix loop :: "push_env \<Rightarrow> string \<Rightarrow> int \<Rightarrow> Application list \<Rightarrow> int \<Rightarrow> conn \<Rightarrow> (go_error option \<times> conn) option"
    and E cl n apps i c r
  let ?f = "newSnapshot cl (slice (nat i) (nat (if i + n > int (length apps) then int (length apps) else i + n)) apps)"
  assume IH: "\<And>E cl n apps i c r. loop E cl n apps i c = Some r \<Longrightarrow>
      n = 0 \<and> c_fate c = [] \<and> (\<forall>f. \<exists>d. encode E f = Inr d) \<longrightarrow> \<not> i < int (length apps)"
    and body: "(if i < int (length apps)
       then let e = if i + n > int (length apps) then int (length apps) else i + n
            in case writeFrame E (newSnapshot cl (slice (nat i) (nat e) apps)) c of
              (None, c') \<Rightarrow> loop E cl n apps (i + n) c'
            | (Some err, c') \<Rightarrow> Some (Some err, c')
       else Some (writeFrame E (newSnapshotEnd cl) c)) = Some r"
    and stuck: "n = 0 \<and> c_fate c = [] \<and> (\<forall>f. \<exists>d. encode E f = Inr d)" and i: "i < int (length apps)"
  obtain d where "encode E ?f = Inr d" using stuck by blast
  then have "writeFrame E ?f c = (None, c\<lparr>c_wire := c_wire c @ [Text ?f]\<rparr>)"
    using stuck by (simp add: writeFrame_def)
  then have "loop E cl n apps (i + n) (c\<lparr>c_wire := c_wire c @ [Text ?f]\<rparr>) = Some r"
    using body i by (simp add: Let_def)
  from IH [OF this] show False using stuck i by simp
qed

lemma snapshot_messages_length:
  "0 < n \<Longrightarrow> length (snapshot_messages cl n apps) = Suc ((length apps + n - 1) div n)"
  by (simp add: snapshot_messages_def length_chunks)

text \<open>
  C24: the snapshot of a pusher ends.  For every pusher that New makes, whatever chunk size it was
  given, sendSnapshot returns, having written at most one frame per started chunk and the end
  marker.  The correction of the size by New is needed: with size zero the loop would write empty
  snapshots for ever, once there is an Application and writing succeeds.
\<close>

theorem snapshot_terminates:
  "(\<forall>p. push_New opts = Some p \<longrightarrow>
      (\<exists>r c'. sendSnapshot E (ps_opts p) c = Some (r, c') \<and>
        (\<forall>apps. listApps E (ps_opts p) = Inr apps \<longrightarrow>
          length (c_wire c') \<le> length (c_wire c) +
            Suc ((length apps + nat (po_SnapshotChunk (ps_opts p)) - 1) div nat (po_SnapshotChunk (ps_opts p)))))) \<and>
   (po_SnapshotChunk opts = 0 \<and> (\<exists>apps. listApps E opts = Inr apps \<and> apps \<noteq> []) \<and> c_fate c = [] \<and>
      (\<forall>f. \<exists>d. encode E f = Inr d) \<longrightarrow>
    sendSnapshot E opts c = None)"
proof (intro conjI allI impI)
  fix p assume "push_New opts = Some p"
  then have pos: "0 < po_SnapshotChunk (ps_opts p)" by (auto simp: push_New_def Let_def split: if_splits)
  show "\<exists>r c'. sendSnapshot E (ps_opts p) c = Some (r, c') \<and>
      (\<forall>apps. listApps E (ps_opts p) = Inr apps \<longrightarrow> length (c_wire c') \<le> length (c_wire c) +
        Suc ((length apps + nat (po_SnapshotChunk (ps_opts p)) - 1) div nat (po_SnapshotChunk (ps_opts p))))"
  proof (cases "listApps E (ps_opts p)")
    case (Inl e)
    then show ?thesis by (simp add: sendSnapshot_def)
  next
    case (Inr apps)
    let ?msgs = "snapshot_messages (po_ClusterName (ps_opts p)) (nat (po_SnapshotChunk (ps_opts p))) apps"
    obtain r c' where run: "sendSnapshot E (ps_opts p) c = Some (r, c')"
        "if r = None then c_wire c' = c_wire c @ ?msgs else \<exists>w. prefix w ?msgs \<and> c_wire c' = c_wire c @ w"
      using sendSnapshot_wire [OF pos Inr, of c] by blast
    then have "length (c_wire c') \<le> length (c_wire c) + length ?msgs"
      by (auto split: if_splits dest: prefix_length_le)
    then show ?thesis using run(1) Inr pos by (simp add: snapshot_messages_length)
  qed
next
  assume *: "po_SnapshotChunk opts = 0 \<and> (\<exists>apps. listApps E opts = Inr apps \<and> apps \<noteq> []) \<and> c_fate c = [] \<and>
      (\<forall>f. \<exists>d. encode E f = Inr d)"
  then obtain apps where apps: "listApps E opts = Inr apps" "apps \<noteq> []" by blast
  show "sendSnapshot E opts c = None"
  proof (rule ccontr)
    assume "sendSnapshot E opts c \<noteq> None"
    then obtain r where "snapshot_loop E (po_ClusterName opts) 0 apps 0 c = Some r"
      using * apps by (auto simp: sendSnapshot_def)
    from snapshot_loop_stuck [OF this] show False using * apps(2) by simp
  qed
qed

theorem snapshot_terminates_witness:
  "sendSnapshot example_env (example_options\<lparr>po_SnapshotChunk := 0\<rparr>) \<lparr>c_wire = [], c_fate = []\<rparr> = None \<and>
   (case push_New (example_options\<lparr>po_SnapshotChunk := 0\<rparr>) of None \<Rightarrow> False
    | Some p \<Rightarrow> (case sendSnapshot example_env (ps_opts p) \<lparr>c_wire = [], c_fate = []\<rparr> of None \<Rightarrow> False
       | Some (r, c) \<Rightarrow> length (c_wire c) \<le> 2))"
proof -
  let ?o = "example_options\<lparr>po_SnapshotChunk := 0\<rparr>"
  have apps: "listApps example_env opts = Inr [pushed_app ''ops'' ''a'', pushed_app ''ops'' ''b'', pushed_app ''ops'' ''c'']"
    if "po_Namespaces opts = [''ops'']" for opts
    using that by (simp add: listApps_def example_env_def)
  obtain p where p: "push_New ?o = Some p" "po_Namespaces (ps_opts p) = [''ops'']" "po_SnapshotChunk (ps_opts p) = 50"
    by (simp add: push_New_def example_options_def Let_def sint_Seconds)
  note ends = snapshot_terminates [of ?o example_env "\<lparr>c_wire = [], c_fate = []\<rparr>"]
  have "sendSnapshot example_env ?o \<lparr>c_wire = [], c_fate = []\<rparr> = None"
    using ends apps [of ?o] by (simp add: encode_def) (simp add: example_env_def example_options_def)
  moreover obtain r c where "sendSnapshot example_env (ps_opts p) \<lparr>c_wire = [], c_fate = []\<rparr> = Some (r, c)" "length (c_wire c) \<le> 2"
    using ends p apps [OF p(2)] by fastforce
  ultimately show ?thesis using p(1) by simp
qed

section \<open>From the dial to the return\<close>

text \<open>
  runOnce under a schedule: the fate of the writes and the events of the connection.  The value is
  None when it has not returned within the schedule.
\<close>

definition runOnce :: "push_env \<Rightarrow> go_error option list \<Rightarrow> event list \<Rightarrow> Pusher \<Rightarrow> (bool \<times> go_error option \<times> Pusher) option" where
  "runOnce E fate evs p =
     (case open_connection E fate p of
        OpenFailed established e p' \<Rightarrow> Some (established, Some e, p')
      | Opened s \<Rightarrow>
          let s' = run_session E evs s
          in case se_phase s' of Ended r \<Rightarrow> Some (True, r, se_pusher s') | _ \<Rightarrow> None)"

text \<open>One pass of the loop of Start, with a real connection.\<close>

record attempt =
  at_env :: push_env
  at_fate :: "go_error option list"
  at_events :: "event list"
  at_done_before :: bool
  at_done_after :: bool
  at_done_waiting :: bool

fun start_runs :: "int64 \<Rightarrow> attempt list \<Rightarrow> Pusher \<Rightarrow> (int64 list \<times> bool \<times> Pusher) option" where
  "start_runs backoff [] p = Some ([], False, p)"
| "start_runs backoff (x # xs) p =
     (if at_done_before x then Some ([], True, p)
      else case runOnce (at_env x) (at_fate x) (at_events x) p of
        None \<Rightarrow> None
      | Some (established, err, p1) \<Rightarrow>
          if at_done_after x then Some ([], True, p1)
          else
            (let rejected = ps_rejected p1; p2 = p1\<lparr>ps_rejected := False\<rparr>
             in case backoff_step backoff established rejected of
               (wait, backoff') \<Rightarrow>
                 if at_done_waiting x then Some ([wait], True, p2)
                 else map_option (\<lambda>(waits, returned, p'). (wait # waits, returned, p')) (start_runs backoff' xs p2)))"

text \<open>
  What a pass comes to, read off the options, the environment and the schedule alone: whether the
  dial succeeds, and whether the hub rejects the handshake (the first read error of a connection
  that got as far as reading is a policy violation).
\<close>

definition dials :: "push_env \<Rightarrow> PushOptions \<Rightarrow> bool" where
  "dials E opts =
     (case resolveToken E opts of
        Inl e \<Rightarrow> False
      | Inr token \<Rightarrow> e_Dial E (po_InsecureTLS opts) (po_Endpoint opts) (auth_header opts token (e_now E)) = None)"

definition registers :: "push_env \<Rightarrow> bool" where
  "registers E = list_all (\<lambda>i. e_GetInformer E i = None \<and> e_AddEventHandler E i = None) [AppInformer, EventInformer]"

fun first_read_error :: "event list \<Rightarrow> bool option" where
  "first_read_error [] = None"
| "first_read_error (ev # evs) = (case ev of ReadError policy \<Rightarrow> Some policy | _ \<Rightarrow> first_read_error evs)"

definition pass_of :: "PushOptions \<Rightarrow> attempt \<Rightarrow> pass" where
  "pass_of opts x =
     \<lparr>pass_done_before = at_done_before x, pass_connected = dials (at_env x) opts,
      pass_rejected = (dials (at_env x) opts \<and> registers (at_env x) \<and> first_read_error (at_events x) = Some True),
      pass_done_after = at_done_after x, pass_done_waiting = at_done_waiting x\<rparr>"

section \<open>Reconnects start afresh\<close>

lemma enqueue_rejected [simp]: "ps_rejected (enqueue f p) = ps_rejected p"
  by (simp add: enqueue_def Let_def split: option.split)

lemma enqueue_all_rejected [simp]: "ps_rejected (enqueue_all fs p) = ps_rejected p"
  by (induction fs arbitrary: p) simp_all

lemma step_rejected:
  assumes "connected s"
  shows "ps_rejected (se_pusher (session_step E ev s)) =
      (ps_rejected (se_pusher s) \<or> se_reading s \<and> ev = ReadError True) \<and>
    se_reading (session_step E ev s) = (se_reading s \<and> (\<forall>policy. ev \<noteq> ReadError policy))"
proof (cases "feeding ev")
  case True
  have "session_step E ev s = s\<lparr>se_pusher := enqueue_all (offered (se_pusher s) ev) (se_pusher s)\<rparr>"
    by (rule feeding_step [OF True]) (use assms in \<open>auto simp: connected_def\<close>)
  moreover have "\<forall>policy. ev \<noteq> ReadError policy" using True by (cases ev) auto
  ultimately show ?thesis by simp
next
  case False
  then show ?thesis
    by (cases ev) (auto simp: Let_def split: phase.split option.split list.split)
qed

lemma run_rejected:
  "connected s \<Longrightarrow> ps_rejected (se_pusher (run_session E evs s)) =
     (ps_rejected (se_pusher s) \<or> se_reading s \<and> first_read_error evs = Some True)"
proof (induction evs arbitrary: s)
  case (Cons ev evs)
  have "connected (session_step E ev s)" using step_conserves [OF Cons.prems] by blast
  from Cons.IH [OF this] step_rejected [OF Cons.prems, of E ev] show ?case
    by (cases ev) auto
qed simp

lemma run_opts: "connected s \<Longrightarrow> ps_opts (se_pusher (run_session E evs s)) = ps_opts (se_pusher s)"
proof (induction evs arbitrary: s)
  case (Cons ev evs)
  then show ?case using step_conserves [OF Cons.prems, of E ev] by simp
qed simp

text \<open>What the opening of a connection does, by the reasons for it.\<close>

lemma open_connection_cases:
  assumes "ps_handlers p = []"
  shows "(\<exists>e. open_connection E fate p = OpenFailed False e p \<and> \<not> dials E (ps_opts p)) \<or>
    (\<exists>e p'. open_connection E fate p = OpenFailed True e p' \<and> dials E (ps_opts p) \<and> \<not> registers E \<and>
       ps_handlers p' = [] \<and> ps_opts p' = ps_opts p \<and> ps_rejected p' = ps_rejected p) \<or>
    (\<exists>s. open_connection E fate p = Opened s \<and> dials E (ps_opts p) \<and> registers E \<and> handlers_ok s \<and> se_reading s \<and>
       connected s \<and> ps_opts (se_pusher s) = ps_opts p \<and> ps_rejected (se_pusher s) = ps_rejected p)"
  using assms
  by (auto simp: open_connection_def dials_def registers_def registerHandlers_def add_handler_def handlers_ok_def
      connected_def Let_def split: sum.split option.split)

lemma runOnce_outcome:
  assumes "ps_handlers p = []" "runOnce E fate evs p = Some (est, err, p')"
  shows "est = dials E (ps_opts p) \<and> ps_handlers p' = [] \<and> ps_opts p' = ps_opts p \<and>
    ps_rejected p' = (ps_rejected p \<or> dials E (ps_opts p) \<and> registers E \<and> first_read_error evs = Some True)"
  using open_connection_cases [OF assms(1), of E fate]
proof (elim disjE exE conjE)
  fix s
  assume s: "open_connection E fate p = Opened s" "dials E (ps_opts p)" "registers E" "handlers_ok s" "se_reading s"
    "connected s" "ps_opts (se_pusher s) = ps_opts p" "ps_rejected (se_pusher s) = ps_rejected p"
  then have r: "se_phase (run_session E evs s) = Ended err" "est" "p' = se_pusher (run_session E evs s)"
    using assms(2) by (auto simp: runOnce_def Let_def split: phase.splits)
  have "handlers_ok (run_session E evs s)" by (rule run_handlers [OF s(6,4)])
  then show ?thesis using r s run_rejected [OF s(6)] run_opts [OF s(6)] by (simp add: handlers_ok_def)
qed (use assms in \<open>auto simp: runOnce_def\<close>)

text \<open>
  The connections that Start opens, each as it stands when runOnce returns, and the attempts that it
  gets to.
\<close>

fun sessions_of :: "attempt list \<Rightarrow> Pusher \<Rightarrow> session list" where
  "sessions_of [] p = []"
| "sessions_of (x # xs) p =
     (if at_done_before x then []
      else (case open_connection (at_env x) (at_fate x) p of
              OpenFailed established e p' \<Rightarrow> []
            | Opened s \<Rightarrow> [run_session (at_env x) (at_events x) s]) @
        (case runOnce (at_env x) (at_fate x) (at_events x) p of
           None \<Rightarrow> []
         | Some (established, err, p1) \<Rightarrow>
             if at_done_after x \<or> at_done_waiting x then [] else sessions_of xs (p1\<lparr>ps_rejected := False\<rparr>)))"

fun reached :: "attempt list \<Rightarrow> attempt list" where
  "reached [] = []"
| "reached (x # xs) =
     (if at_done_before x then [] else if at_done_after x \<or> at_done_waiting x then [x] else x # reached xs)"

text \<open>A pusher as New makes it, and the connection of one attempt from there.\<close>

definition fresh_pusher :: "PushOptions \<Rightarrow> Pusher" where
  "fresh_pusher opts = \<lparr>ps_opts = opts, ps_sendC = None, ps_droppedFrames = 0, ps_dropLog = [], ps_rejected = False,
     ps_handlers = []\<rparr>"

definition fresh_sessions :: "PushOptions \<Rightarrow> attempt \<Rightarrow> session list" where
  "fresh_sessions opts x =
     (case open_connection (at_env x) (at_fate x) (fresh_pusher opts) of
        OpenFailed established e p' \<Rightarrow> []
      | Opened s \<Rightarrow> [run_session (at_env x) (at_events x) s])"

text \<open>The log of the process goes on over the connections: everything but what it held before.\<close>

definition after_log :: "uint64 list \<Rightarrow> session \<Rightarrow> session" where
  "after_log l s = s\<lparr>se_pusher := (se_pusher s)\<lparr>ps_dropLog := l @ ps_dropLog (se_pusher s)\<rparr>\<rparr>"

definition logged :: "session \<Rightarrow> uint64 list" where
  "logged s = ps_dropLog (se_pusher s)"

fun logs_in_turn :: "uint64 list \<Rightarrow> session list \<Rightarrow> session list" where
  "logs_in_turn l [] = []"
| "logs_in_turn l (s # ss) = after_log l s # logs_in_turn (l @ logged s) ss"

lemma enqueue_log:
  "enqueue f (p\<lparr>ps_dropLog := l @ ps_dropLog p\<rparr>) = (enqueue f p)\<lparr>ps_dropLog := l @ ps_dropLog (enqueue f p)\<rparr>"
  by (simp add: enqueue_def Let_def split: option.split)

lemma enqueue_all_log:
  "enqueue_all fs (p\<lparr>ps_dropLog := l @ ps_dropLog p\<rparr>) = (enqueue_all fs p)\<lparr>ps_dropLog := l @ ps_dropLog (enqueue_all fs p)\<rparr>"
  by (induction fs arbitrary: p) (simp_all add: enqueue_log)

lemma removeHandlers_eq: "removeHandlers regs p = p\<lparr>ps_handlers := fold remove1 regs (ps_handlers p)\<rparr>"
  by (induction regs arbitrary: p) simp_all

lemma removeHandlers_log:
  "removeHandlers regs (p\<lparr>ps_dropLog := l @ ps_dropLog p\<rparr>) =
     (removeHandlers regs p)\<lparr>ps_dropLog := l @ ps_dropLog (removeHandlers regs p)\<rparr>"
  by (cases p) (simp add: removeHandlers_eq)

lemma offered_log: "offered (p\<lparr>ps_dropLog := l\<rparr>) ev = offered p ev"
  by (cases "(p, ev)" rule: offered.cases) (simp_all add: inScope_def)

lemma step_log:
  assumes "connected s"
  shows "session_step E ev (after_log l s) = after_log l (session_step E ev s)"
proof (cases "feeding ev")
  case True
  have "connected (after_log l s)" using assms by (simp add: connected_def after_log_def)
  then have "ps_sendC (se_pusher s) \<noteq> None" "ps_sendC (se_pusher (after_log l s)) \<noteq> None"
    using assms by (auto simp: connected_def)
  then show ?thesis
    using feeding_step [OF True] by (simp add: after_log_def offered_log enqueue_all_log)
next
  case False
  then show ?thesis
    by (cases ev) (auto simp: after_log_def after_write_def removeHandlers_log Let_def
        split: phase.split option.split list.split prod.split)
qed

lemma run_log: "connected s \<Longrightarrow> run_session E evs (after_log l s) = after_log l (run_session E evs s)"
proof (induction evs arbitrary: s)
  case (Cons ev evs)
  have "connected (session_step E ev s)" using step_conserves [OF Cons.prems] by blast
  then show ?case using Cons.IH step_log [OF Cons.prems] by simp
qed simp

lemma open_connection_fresh:
  assumes "ps_handlers p = []" "\<not> ps_rejected p"
  shows "case open_connection E fate (fresh_pusher (ps_opts p)) of
      Opened s \<Rightarrow> open_connection E fate p = Opened (after_log (ps_dropLog p) s)
    | OpenFailed established e p0 \<Rightarrow>
        \<exists>p1. open_connection E fate p = OpenFailed established e p1 \<and> ps_dropLog p1 = ps_dropLog p"
  using assms
  by (cases p) (auto simp: open_connection_def fresh_pusher_def after_log_def registerHandlers_def add_handler_def Let_def
      split: sum.split option.split)

lemma logs_in_turn_append:
  "logs_in_turn l (xs @ ys) = logs_in_turn l xs @ logs_in_turn (l @ concat (map logged xs)) ys"
  by (induction xs arbitrary: l) simp_all

text \<open>One attempt, as seen from a fresh pusher.\<close>

lemma attempt_fresh:
  assumes "ps_handlers p = []" "\<not> ps_rejected p"
    and "runOnce (at_env x) (at_fate x) (at_events x) p = Some (est, err, p1)"
  shows "(case open_connection (at_env x) (at_fate x) p of
        OpenFailed established e p' \<Rightarrow> []
      | Opened s \<Rightarrow> [run_session (at_env x) (at_events x) s]) =
      logs_in_turn (ps_dropLog p) (fresh_sessions (ps_opts p) x) \<and>
    ps_dropLog p1 = ps_dropLog p @ concat (map logged (fresh_sessions (ps_opts p) x))"
proof (cases "open_connection (at_env x) (at_fate x) (fresh_pusher (ps_opts p))")
  case (OpenFailed established e p0)
  then show ?thesis
    using open_connection_fresh [OF assms(1,2), of "at_env x" "at_fate x"] assms(3)
    by (auto simp: fresh_sessions_def runOnce_def)
next
  case (Opened s)
  then have "open_connection (at_env x) (at_fate x) p = Opened (after_log (ps_dropLog p) s)"
    using open_connection_fresh [OF assms(1,2), of "at_env x" "at_fate x"] by simp
  moreover have "connected s"
    using open_connection_cases [of "fresh_pusher (ps_opts p)" "at_env x" "at_fate x"] Opened
    by (auto simp: fresh_pusher_def)
  ultimately show ?thesis
    using Opened assms(3)
    by (auto simp: fresh_sessions_def runOnce_def run_log Let_def logged_def split: phase.splits) (simp_all add: after_log_def)
qed

text \<open>
  C23: every reconnect starts afresh.  However many connections Start makes, and however each of
  them runs and ends, each is the connection that a pusher fresh from New would have made at that attempt:
  the same writes on the wire, the same queue, the same count of dropped frames, the same end.  The
  one thing that goes on from connection to connection is the log.  The waits and the return are
  those of the reconnect loop for passes that depend on the options and on each attempt alone.  No
  handler is left registered, the options never change, and a rejection is consumed by the one
  wait that follows it.
\<close>

theorem reconnects_start_afresh:
  assumes "start_runs backoff xs p = Some (waits, returned, p')" "ps_handlers p = []" "\<not> ps_rejected p"
  shows "sessions_of xs p =
      logs_in_turn (ps_dropLog p) (concat (map (fresh_sessions (ps_opts p)) (reached xs))) \<and>
    (waits, returned) = start_loop backoff (map (pass_of (ps_opts p)) xs) \<and>
    ps_handlers p' = [] \<and> ps_opts p' = ps_opts p \<and> (\<not> returned \<longrightarrow> \<not> ps_rejected p')"
  using assms
proof (induction xs arbitrary: backoff p waits)
  case (Cons x xs)
  show ?case
  proof (cases "at_done_before x")
    case True
    then show ?thesis using Cons.prems by (simp add: pass_of_def)
  next
    case False
    then obtain est err p1 where r: "runOnce (at_env x) (at_fate x) (at_events x) p = Some (est, err, p1)"
      using Cons.prems(1) by (auto split: option.splits)
    note out = runOnce_outcome [OF Cons.prems(2) r]
    note one = attempt_fresh [OF Cons.prems(2,3) r]
    have pass: "pass_connected (pass_of (ps_opts p) x) = est" "pass_rejected (pass_of (ps_opts p) x) = ps_rejected p1"
      using out Cons.prems(3) by (auto simp: pass_of_def)
    show ?thesis
    proof (cases "at_done_after x \<or> at_done_waiting x")
      case True
      then show ?thesis using False r out one pass Cons.prems(1)
        by (auto simp: Let_def pass_of_def split: prod.splits if_splits)
    next
      case cont: False
      obtain wait b where b: "backoff_step backoff est (ps_rejected p1) = (wait, b)" by fastforce
      obtain ws where ws: "start_runs b xs (p1\<lparr>ps_rejected := False\<rparr>) = Some (ws, returned, p')" "waits = wait # ws"
        using Cons.prems(1) False cont r b by (auto simp: Let_def)
      have IH: "sessions_of xs (p1\<lparr>ps_rejected := False\<rparr>) =
            logs_in_turn (ps_dropLog p1) (concat (map (fresh_sessions (ps_opts p)) (reached xs))) \<and>
          (ws, returned) = start_loop b (map (pass_of (ps_opts p)) xs) \<and> ps_handlers p' = [] \<and>
          ps_opts p' = ps_opts p \<and> (\<not> returned \<longrightarrow> \<not> ps_rejected p')"
        using Cons.IH [OF ws(1)] out by simp
      moreover have "\<not> pass_done_before (pass_of (ps_opts p) x)" "\<not> pass_done_after (pass_of (ps_opts p) x)"
          "\<not> pass_done_waiting (pass_of (ps_opts p) x)"
        using False cont by (simp_all add: pass_of_def)
      moreover have "sessions_of (x # xs) p =
          logs_in_turn (ps_dropLog p) (concat (map (fresh_sessions (ps_opts p)) (reached (x # xs))))"
        using False cont r one IH by (simp add: logs_in_turn_append)
      ultimately show ?thesis using b pass ws(2) by (auto simp del: sessions_of.simps split: prod.splits)
    qed
  qed
qed simp

definition rejected_attempt :: attempt where
  "rejected_attempt = \<lparr>at_env = example_env, at_fate = [Some (ErrOther ''reset'')],
     at_events = [Advance, ReadError True, Return], at_done_before = False, at_done_after = False, at_done_waiting = False\<rparr>"

text \<open>A pusher with a frame and a count left over from a connection that has ended.\<close>

definition used_pusher :: Pusher where
  "used_pusher = (example_pusher (Some [newHeartbeat ''prod'']))\<lparr>ps_droppedFrames := 7\<rparr>"

theorem reconnects_start_afresh_witness:
  "map (\<lambda>s. (ps_sendC (se_pusher s), ps_droppedFrames (se_pusher s))) (sessions_of [rejected_attempt] used_pusher) = [(Some [], 0)] \<and>
   (case start_runs (Seconds 1) [rejected_attempt] used_pusher of
      None \<Rightarrow> False
    | Some (waits, returned, p') \<Rightarrow>
        (waits, returned) = start_loop (Seconds 1) (map (pass_of example_options) [rejected_attempt]) \<and>
        ps_handlers p' = [] \<and> \<not> ps_rejected p')"
proof -
  let ?fate = "[Some (ErrOther ''reset'')]" and ?evs = "[Advance, ReadError True, Return]"
  let ?s = "example_session\<lparr>se_conn := \<lparr>c_wire = [], c_fate = ?fate\<rparr>\<rparr>"
  have run: "\<exists>r. se_phase (run_session example_env ?evs ?s) = Ended r" "ps_sendC (se_pusher (run_session example_env ?evs ?s)) = Some []"
      "ps_droppedFrames (se_pusher (run_session example_env ?evs ?s)) = 0"
    by (simp_all add: example_session_def example_pusher_def example_env_def writeFrame_def encode_def after_write_def Let_def)
  have "open_connection example_env ?fate used_pusher = Opened ?s"
      and fresh: "open_connection example_env ?fate (fresh_pusher example_options) = Opened ?s"
    by (simp_all add: open_connection_def resolveToken_def example_env_def example_pusher_def example_options_def
        used_pusher_def fresh_pusher_def registerHandlers_def add_handler_def example_session_def Let_def)
  then obtain r p1 where "runOnce example_env ?fate ?evs used_pusher = Some (True, r, p1)"
    using run(1) by (auto simp: runOnce_def Let_def)
  then obtain waits p' where s: "start_runs (Seconds 1) [rejected_attempt] used_pusher = Some (waits, False, p')"
    by (cases "backoff_step (Seconds 1) True (ps_rejected p1)") (auto simp: rejected_attempt_def)
  moreover have "ps_handlers used_pusher = []" "\<not> ps_rejected used_pusher" "ps_opts used_pusher = example_options"
      "ps_dropLog used_pusher = []"
    by (simp_all add: used_pusher_def example_pusher_def)
  moreover have "fresh_sessions example_options rejected_attempt = [run_session example_env ?evs ?s]"
    using fresh by (simp add: fresh_sessions_def rejected_attempt_def)
  moreover have "reached [rejected_attempt] = [rejected_attempt]" by (simp add: rejected_attempt_def)
  ultimately show ?thesis
    using reconnects_start_afresh [OF s] run(2,3) by (simp add: after_log_def del: sessions_of.simps reached.simps)
qed

end
