(* ===== verification/Main_Config.thy ===== *)
theory Main_Config
  imports Reconciler Log_Pipeline Push_Lifecycle
begin

text \<open>
  The start of the program (main.go, main): what the flags turn into, which combinations end the
  process, and which runnables the manager gets.  Building the manager, the controller and starting
  them are the record \<open>boot_env\<close>; an exit is its log message.  Flag parsing and logger set-up are
  left out.  The registration of the API types (groupversion_info.go and the init functions) is over
  the builder and scheme types of the libraries, which are parameters.
\<close>

section \<open>Registration\<close>

record SchemeGroupVersion =
  sgv_Group :: string
  sgv_Version :: string

record ('b, 's) scheme_lib =
  sl_Builder :: "SchemeGroupVersion \<Rightarrow> 'b"
  sl_Register :: "string list \<Rightarrow> 'b \<Rightarrow> 'b"
  sl_AddToScheme :: "'b \<Rightarrow> 's \<Rightarrow> go_error option \<times> 's"
  sl_clientgoAddToScheme :: "'s \<Rightarrow> go_error option \<times> 's"
  sl_NewScheme :: 's

definition GroupVersion :: SchemeGroupVersion where
  "GroupVersion = \<lparr>sgv_Group = ''app.k8s.io'', sgv_Version = ''v1beta1''\<rparr>"

definition SchemeBuilder :: "('b, 's) scheme_lib \<Rightarrow> 'b" where
  "SchemeBuilder L = sl_Builder L GroupVersion"

text \<open>The init function of the API package registers its two root types by a value of each.\<close>

definition api_init :: "('b, 's) scheme_lib \<Rightarrow> 'b \<Rightarrow> 'b" where
  "api_init L b = sl_Register L [''Application'', ''ApplicationList''] b"

definition AddToScheme :: "('b, 's) scheme_lib \<Rightarrow> 's \<Rightarrow> go_error option \<times> 's" where
  "AddToScheme L = sl_AddToScheme L (api_init L (SchemeBuilder L))"

text \<open>The init function of the program: both errors are discarded.\<close>

definition main_init :: "('b, 's) scheme_lib \<Rightarrow> 's" where
  "main_init L =
     (let s1 = snd (sl_clientgoAddToScheme L (sl_NewScheme L)); s2 = snd (AddToScheme L s1) in s2)"

text \<open>
  With a builder that adds the types it was given under its group and version, the scheme of the
  program knows Application and ApplicationList under app.k8s.io/v1beta1, beside what the client
  library has registered, whatever errors were discarded on the way.
\<close>

lemma main_init_knows_types:
  assumes "\<And>gv. sl_Builder L gv = (gv, [])" "\<And>ts gv us. sl_Register L ts (gv, us) = (gv, us @ ts)"
    and "\<And>gv ts s. snd (sl_AddToScheme L (gv, ts) s) = s \<union> {(sgv_Group gv, sgv_Version gv, t) |t. t \<in> set ts}"
  shows "main_init L = snd (sl_clientgoAddToScheme L (sl_NewScheme L)) \<union>
    {(''app.k8s.io'', ''v1beta1'', ''Application''), (''app.k8s.io'', ''v1beta1'', ''ApplicationList'')}"
  by (auto simp: main_init_def AddToScheme_def api_init_def SchemeBuilder_def GroupVersion_def assms Let_def)

section \<open>The flags and the start\<close>

record Flags =
  fl_namespace :: string
  fl_syncPeriod :: int64
  fl_stabilizationPeriod :: int64
  fl_concurrentReconciles :: int
  fl_pushEndpoint :: string
  fl_clusterName :: string
  fl_pushTenant :: string
  fl_pushToken :: string
  fl_pushTokenFile :: string
  fl_pushNamespaces :: string
  fl_pushHeartbeat :: int64
  fl_pushInsecure :: bool
  fl_pushAllowPlaintext :: bool
  fl_logMetricsEnabled :: bool
  fl_logMetricsServiceNamespace :: string
  fl_logMetricsServiceName :: string
  fl_logMetricsPort :: int
  fl_logMetricsIntervalSeconds :: int64
  fl_logMetricsErrorThreshold :: int64
  fl_logMetricsErrorMetric :: string
  fl_logMetricsWarnMetric :: string
  fl_logMetricsTotalMetric :: string
  fl_logMetricsNamespaceLabel :: string
  fl_logMetricsServiceLabel :: string
  fl_logMetricsServiceLabelFallback :: string

record CacheOptions =
  co_SyncPeriod :: int64
  co_DefaultNamespaces :: "string list"
  co_WarningEventsOnly :: bool

record boot_env =
  b_version :: string
  b_quote :: "string \<Rightarrow> string"
  b_url_rest :: "string \<Rightarrow> go_error option"
  b_NewManager :: "CacheOptions \<Rightarrow> go_error option"
  b_Build :: "int \<Rightarrow> go_error option"
  b_AddPusher :: "Pusher option \<Rightarrow> go_error option"
  b_AddCollector :: "Collector \<Rightarrow> go_error option"
  b_Start :: "go_error option"

record system =
  sys_cache :: CacheOptions
  sys_reconciler :: ApplicationReconciler
  sys_pusher :: "Pusher option"
  sys_collector :: "Collector option"

text \<open>time.Duration(n) * time.Second: a product of int64 values, which may wrap.\<close>

definition duration_of_seconds :: "int64 \<Rightarrow> int64" where
  "duration_of_seconds n = n * Second"

definition cache_options :: "Flags \<Rightarrow> CacheOptions" where
  "cache_options fl =
     \<lparr>co_SyncPeriod = duration_of_seconds (fl_syncPeriod fl),
      co_DefaultNamespaces = (if fl_namespace fl \<noteq> [] then [fl_namespace fl] else []),
      co_WarningEventsOnly = (fl_pushEndpoint fl \<noteq> [])\<rparr>"

definition push_options :: "boot_env \<Rightarrow> Flags \<Rightarrow> PushOptions" where
  "push_options B fl =
     (let nsList = ParseNamespaces (fl_pushNamespaces fl);
          nsList' = (if length nsList = 0 \<and> fl_namespace fl \<noteq> [] then [fl_namespace fl] else nsList)
      in \<lparr>po_Endpoint = fl_pushEndpoint fl, po_ClusterName = fl_clusterName fl, po_Tenant = fl_pushTenant fl,
          po_Token = fl_pushToken fl, po_TokenFile = fl_pushTokenFile fl, po_Namespaces = nsList',
          po_AgentVersion = b_version B, po_Heartbeat = duration_of_seconds (fl_pushHeartbeat fl),
          po_InsecureTLS = fl_pushInsecure fl, po_SnapshotChunk = 0, po_LogMetrics = fl_logMetricsEnabled fl\<rparr>)"

text \<open>The push part: an exit, or the pusher that the manager runs.\<close>

definition setup_push :: "boot_env \<Rightarrow> Flags \<Rightarrow> string + Pusher option" where
  "setup_push B fl =
     (if fl_pushEndpoint fl = [] then Inr None
      else if ValidateEndpoint (b_quote B) (b_url_rest B) (fl_pushEndpoint fl) (fl_pushAllowPlaintext fl) \<noteq> None
      then Inl ''invalid --push-endpoint''
      else if fl_clusterName fl = [] then Inl ''--cluster-name is required when --push-endpoint is set''
      else if fl_pushTenant fl = [] then Inl ''--tenant is required when --push-endpoint is set''
      else if fl_pushToken fl = [] \<and> fl_pushTokenFile fl = []
      then Inl ''an HMAC key is required: set --push-token or --push-token-file''
      else
        (let pusher = push_New (push_options B fl)
         in if b_AddPusher B pusher \<noteq> None then Inl ''unable to add push runnable'' else Inr pusher))"

definition log_options :: "Flags \<Rightarrow> LogOptions" where
  "log_options fl =
     \<lparr>lo_ServiceNamespace = fl_logMetricsServiceNamespace fl, lo_ServiceName = fl_logMetricsServiceName fl,
      lo_Port = fl_logMetricsPort fl, lo_Interval = duration_of_seconds (fl_logMetricsIntervalSeconds fl),
      lo_ScrapeTimeout = 0, lo_ErrorThreshold = fl_logMetricsErrorThreshold fl,
      lo_ErrorMetric = fl_logMetricsErrorMetric fl, lo_WarnMetric = fl_logMetricsWarnMetric fl,
      lo_TotalMetric = fl_logMetricsTotalMetric fl, lo_NamespaceLabel = fl_logMetricsNamespaceLabel fl,
      lo_ServiceLabel = fl_logMetricsServiceLabel fl,
      lo_ServiceLabelFallback = fl_logMetricsServiceLabelFallback fl, lo_SampleLabel = ''''\<rparr>"

text \<open>The log-metrics part: the interface value is nil exactly if there is no pusher.\<close>

definition setup_log_metrics :: "boot_env \<Rightarrow> Flags \<Rightarrow> Pusher option \<Rightarrow> string + Collector option" where
  "setup_log_metrics B fl pusher =
     (if \<not> fl_logMetricsEnabled fl then Inr None
      else if fl_logMetricsServiceNamespace fl = []
      then Inl ''--log-metrics-service-namespace is required when --log-metrics-enabled is set''
      else
        (let sender_nil = (pusher = None) in
         case log_New (log_options fl) sender_nil of
           None \<Rightarrow> Inr None
         | Some collector \<Rightarrow>
             if b_AddCollector B collector \<noteq> None then Inl ''unable to add log-metrics collector runnable''
             else Inr (Some collector)))"

definition main_reconciler :: "Flags \<Rightarrow> ApplicationReconciler" where
  "main_reconciler fl =
     \<lparr>r_StabilizationPeriod = duration_of_seconds (fl_stabilizationPeriod fl),
      r_ConcurrentReconciles = fl_concurrentReconciles fl, r_wired = False, r_watchedKinds = {}\<rparr>"

text \<open>The last step: the manager runs until the signal context ends, or fails.\<close>

definition start_manager :: "boot_env \<Rightarrow> system \<Rightarrow> string + system" where
  "start_manager B s = (if b_Start B \<noteq> None then Inl ''problem running app-controller'' else Inr s)"

definition main :: "boot_env \<Rightarrow> Flags \<Rightarrow> string + system" where
  "main B fl =
     (if b_NewManager B (cache_options fl) \<noteq> None then Inl ''unable to start app-controller''
      else case SetupWithManager (b_Build B) (main_reconciler fl) of
        (Some e, r) \<Rightarrow> Inl ''unable to create controller''
      | (None, r) \<Rightarrow>
          (case setup_push B fl of
             Inl msg \<Rightarrow> Inl msg
           | Inr pusher \<Rightarrow>
               (case setup_log_metrics B fl pusher of
                  Inl msg \<Rightarrow> Inl msg
                | Inr collector \<Rightarrow>
                    start_manager B \<lparr>sys_cache = cache_options fl, sys_reconciler = r, sys_pusher = pusher,
                      sys_collector = collector\<rparr>)))"

text \<open>The command line without arguments.\<close>

definition default_flags :: Flags where
  "default_flags =
     \<lparr>fl_namespace = '''', fl_syncPeriod = 120, fl_stabilizationPeriod = 30, fl_concurrentReconciles = 4,
      fl_pushEndpoint = '''', fl_clusterName = '''', fl_pushTenant = '''', fl_pushToken = '''',
      fl_pushTokenFile = '''', fl_pushNamespaces = '''', fl_pushHeartbeat = 20, fl_pushInsecure = False,
      fl_pushAllowPlaintext = False, fl_logMetricsEnabled = False, fl_logMetricsServiceNamespace = '''',
      fl_logMetricsServiceName = ''triage-fluentbit'', fl_logMetricsPort = 2021, fl_logMetricsIntervalSeconds = 60,
      fl_logMetricsErrorThreshold = 10, fl_logMetricsErrorMetric = ''log_metric_counter_log_errors_total'',
      fl_logMetricsWarnMetric = ''log_metric_counter_log_warns_total'',
      fl_logMetricsTotalMetric = ''log_metric_counter_log_lines_total'', fl_logMetricsNamespaceLabel = ''namespace'',
      fl_logMetricsServiceLabel = ''service'', fl_logMetricsServiceLabelFallback = ''service_fallback''\<rparr>"

lemma default_flags_reconcile_only:
  assumes "b_NewManager B (cache_options default_flags) = None" "b_Build B 4 = None" "b_Start B = None"
  shows "\<exists>s. main B default_flags = Inr s \<and> sys_pusher s = None \<and> sys_collector s = None \<and>
    r_StabilizationPeriod (sys_reconciler s) = Seconds 30"
proof -
  have fl: "fl_pushEndpoint default_flags = []" "\<not> fl_logMetricsEnabled default_flags"
    "fl_stabilizationPeriod default_flags = 30" "fl_concurrentReconciles default_flags = 4"
    by (simp_all add: default_flags_def)
  show ?thesis
    using assms
    by (simp add: main_def setup_push_def setup_log_metrics_def start_manager_def SetupWithManager_def
        main_reconciler_def duration_of_seconds_def Seconds_def Second_def Let_def fl)
qed

section \<open>What a started system satisfies\<close>

lemma duration_exact:
  assumes "0 \<le> sint n" and "sint n \<le> 9223372036"
  shows "sint (duration_of_seconds n) = sint n * 1000000000"
proof -
  have "word_of_int (sint n * 1000000000) = (word_of_int (sint n) * 1000000000 :: int64)" by simp
  then have "duration_of_seconds n = word_of_int (sint n * 1000000000)"
    by (simp only: int64_of_sint duration_of_seconds_def Second_def)
  moreover have "sint (word_of_int (sint n * 1000000000) :: int64) = sint n * 1000000000"
    using assms by (intro sint_of_int64) simp_all
  ultimately show ?thesis by (simp only:)
qed

lemma SetupWithManager_wires: "SetupWithManager Build r = (None, r') \<Longrightarrow> r_wired r'"
  by (auto simp: SetupWithManager_def Let_def split: option.splits)

lemma push_options_simps:
  "po_Endpoint (push_options B fl) = fl_pushEndpoint fl" "po_ClusterName (push_options B fl) = fl_clusterName fl"
  "po_Tenant (push_options B fl) = fl_pushTenant fl" "po_Token (push_options B fl) = fl_pushToken fl"
  "po_TokenFile (push_options B fl) = fl_pushTokenFile fl"
  "ParseNamespaces (fl_pushNamespaces fl) = [] \<and> fl_namespace fl \<noteq> [] \<longrightarrow>
     po_Namespaces (push_options B fl) = [fl_namespace fl]"
  by (simp_all add: push_options_def Let_def)

text \<open>New corrects the heartbeat and the snapshot size and keeps the other options.\<close>

lemma push_New_options:
  assumes "push_New opts = Some p"
  shows "po_Endpoint (ps_opts p) = po_Endpoint opts" "po_ClusterName (ps_opts p) = po_ClusterName opts"
    "po_Tenant (ps_opts p) = po_Tenant opts" "po_Token (ps_opts p) = po_Token opts"
    "po_TokenFile (ps_opts p) = po_TokenFile opts" "po_Namespaces (ps_opts p) = po_Namespaces opts"
    "0 < sint (po_Heartbeat (ps_opts p))" "0 < po_SnapshotChunk (ps_opts p)"
  using assms by (auto simp: push_New_def Let_def sint_Seconds split: if_splits)

lemma setup_push_none: "setup_push B fl = Inr None \<Longrightarrow> fl_pushEndpoint fl = []"
  by (rule ccontr) (auto simp: setup_push_def push_New_def Let_def push_options_simps(1) split: if_splits)

lemma setup_push_some:
  assumes "setup_push B fl = Inr (Some p)"
  shows "fl_pushEndpoint fl \<noteq> []" "push_New (push_options B fl) = Some p"
    "ValidateEndpoint (b_quote B) (b_url_rest B) (fl_pushEndpoint fl) (fl_pushAllowPlaintext fl) = None"
    "fl_clusterName fl \<noteq> []" "fl_pushTenant fl \<noteq> []" "fl_pushToken fl \<noteq> [] \<or> fl_pushTokenFile fl \<noteq> []"
  using assms by (auto simp: setup_push_def Let_def split: if_splits)

lemma setup_log_metrics_some:
  assumes "setup_log_metrics B fl pusher = Inr (Some c)"
  shows "pusher \<noteq> None" "fl_logMetricsEnabled fl" "lo_ServiceNamespace (lc_opts c) \<noteq> []"
    "lo_ServiceName (lc_opts c) \<noteq> []" "0 < sint (lo_ErrorThreshold (lc_opts c))"
  using assms
  by (auto simp: setup_log_metrics_def log_New_def log_options_def setDefaults_def Let_def split: if_splits option.splits)

text \<open>
  C39: whatever the flags, a system that starts is consistent.  Push mode runs exactly if an endpoint is given, and then the
  endpoint passed the check, cluster and tenant are named, a key source is given, and the
  heartbeat and snapshot size are positive; without push namespaces the pusher is limited to the namespace of the
  controller.  The collector runs only beside a pusher, with a service and its namespace named.  The
  Event cache is limited to warnings exactly in push mode, and the controller is wired.
\<close>

theorem started_system_consistent:
  assumes "main B fl = Inr s"
  shows "(sys_pusher s = None \<longleftrightarrow> fl_pushEndpoint fl = []) \<and>
    (\<forall>p. sys_pusher s = Some p \<longrightarrow>
       ValidateEndpoint (b_quote B) (b_url_rest B) (po_Endpoint (ps_opts p)) (fl_pushAllowPlaintext fl) = None \<and>
       po_ClusterName (ps_opts p) \<noteq> [] \<and> po_Tenant (ps_opts p) \<noteq> [] \<and>
       (po_Token (ps_opts p) \<noteq> [] \<or> po_TokenFile (ps_opts p) \<noteq> []) \<and>
       0 < sint (po_Heartbeat (ps_opts p)) \<and> 0 < po_SnapshotChunk (ps_opts p) \<and>
       (ParseNamespaces (fl_pushNamespaces fl) = [] \<and> fl_namespace fl \<noteq> [] \<longrightarrow> po_Namespaces (ps_opts p) = [fl_namespace fl])) \<and>
    (\<forall>c. sys_collector s = Some c \<longrightarrow> sys_pusher s \<noteq> None \<and> fl_logMetricsEnabled fl \<and>
       lo_ServiceNamespace (lc_opts c) \<noteq> [] \<and> lo_ServiceName (lc_opts c) \<noteq> [] \<and> 0 < sint (lo_ErrorThreshold (lc_opts c))) \<and>
    (co_WarningEventsOnly (sys_cache s) \<longleftrightarrow> sys_pusher s \<noteq> None) \<and> r_wired (sys_reconciler s)"
proof -
  obtain r where r: "SetupWithManager (b_Build B) (main_reconciler fl) = (None, r)"
    and push: "setup_push B fl = Inr (sys_pusher s)"
    and log: "setup_log_metrics B fl (sys_pusher s) = Inr (sys_collector s)"
    and rest: "sys_cache s = cache_options fl" "sys_reconciler s = r"
    using assms by (auto simp: main_def start_manager_def split: if_splits prod.splits option.splits sum.splits)
  have none: "sys_pusher s = None \<longleftrightarrow> fl_pushEndpoint fl = []"
    using push setup_push_none setup_push_some(1) by (cases "sys_pusher s") auto
  moreover have "co_WarningEventsOnly (sys_cache s) \<longleftrightarrow> sys_pusher s \<noteq> None"
    using none rest(1) by (simp add: cache_options_def)
  moreover have "r_wired (sys_reconciler s)" using SetupWithManager_wires [OF r] rest(2) by simp
  moreover have "sys_pusher s \<noteq> None \<and> fl_logMetricsEnabled fl \<and> lo_ServiceNamespace (lc_opts c) \<noteq> [] \<and>
      lo_ServiceName (lc_opts c) \<noteq> [] \<and> 0 < sint (lo_ErrorThreshold (lc_opts c))" if "sys_collector s = Some c" for c
    using setup_log_metrics_some [OF log [unfolded that]] by simp
  moreover have "ValidateEndpoint (b_quote B) (b_url_rest B) (po_Endpoint (ps_opts p)) (fl_pushAllowPlaintext fl) = None \<and>
      po_ClusterName (ps_opts p) \<noteq> [] \<and> po_Tenant (ps_opts p) \<noteq> [] \<and>
      (po_Token (ps_opts p) \<noteq> [] \<or> po_TokenFile (ps_opts p) \<noteq> []) \<and>
      0 < sint (po_Heartbeat (ps_opts p)) \<and> 0 < po_SnapshotChunk (ps_opts p) \<and>
      (ParseNamespaces (fl_pushNamespaces fl) = [] \<and> fl_namespace fl \<noteq> [] \<longrightarrow> po_Namespaces (ps_opts p) = [fl_namespace fl])"
    if "sys_pusher s = Some p" for p
  proof -
    note set_up = setup_push_some [OF push [unfolded that]]
    show ?thesis using push_New_options [OF set_up(2)] set_up by (simp add: push_options_simps)
  qed
  ultimately show ?thesis by blast
qed

definition example_boot :: boot_env where
  "example_boot = \<lparr>b_version = ''dev'', b_quote = \<lambda>s. s, b_url_rest = \<lambda>s. None, b_NewManager = \<lambda>c. None,
     b_Build = \<lambda>n. None, b_AddPusher = \<lambda>p. None, b_AddCollector = \<lambda>c. None, b_Start = None\<rparr>"

definition example_flags :: Flags where
  "example_flags =
     \<lparr>fl_namespace = ''ops'', fl_syncPeriod = 120, fl_stabilizationPeriod = 30, fl_concurrentReconciles = 4,
      fl_pushEndpoint = ''wss://hub'', fl_clusterName = ''prod'', fl_pushTenant = ''acme'', fl_pushToken = ''secret'',
      fl_pushTokenFile = '''', fl_pushNamespaces = '''', fl_pushHeartbeat = 20, fl_pushInsecure = False,
      fl_pushAllowPlaintext = False, fl_logMetricsEnabled = True, fl_logMetricsServiceNamespace = ''triage'',
      fl_logMetricsServiceName = ''triage-fluentbit'', fl_logMetricsPort = 2021, fl_logMetricsIntervalSeconds = 60,
      fl_logMetricsErrorThreshold = 10, fl_logMetricsErrorMetric = '''', fl_logMetricsWarnMetric = '''',
      fl_logMetricsTotalMetric = '''', fl_logMetricsNamespaceLabel = '''', fl_logMetricsServiceLabel = '''',
      fl_logMetricsServiceLabelFallback = ''''\<rparr>"

theorem started_system_consistent_witness:
  "\<exists>s. main example_boot example_flags = Inr s \<and> sys_pusher s \<noteq> None \<and> r_wired (sys_reconciler s)"
proof -
  have lower: "lower_ascii (CHR ''w'') = CHR ''w''" "lower_ascii (CHR ''s'') = CHR ''s''" by code_simp+
  have "url_scheme ''wss://hub'' = Inr ''wss''"
    using url_scheme_letters [of "''wss''" "''//hub''"] by (simp add: is_letter_def lower)
  then have endpoint: "ValidateEndpoint (\<lambda>s. s) (\<lambda>s. None) ''wss://hub'' False = None"
    by (simp add: ValidateEndpoint_def parse_scheme_def)
  have "\<exists>s. main example_boot example_flags = Inr s"
    by (simp add: main_def start_manager_def example_boot_def example_flags_def SetupWithManager_def setup_push_def setup_log_metrics_def
        endpoint log_New_def log_options_def push_New_def push_options_def Let_def)
  then obtain s where s: "main example_boot example_flags = Inr s" ..
  then show ?thesis using started_system_consistent [OF s] by (auto simp: example_flags_def)
qed

text \<open>
  With the collector enabled but its service name empty, the collector does not start, while the
  hello frame still advertises log_metrics.
\<close>

lemma capability_without_collector:
  "log_New (log_options (fl\<lparr>fl_logMetricsServiceName := ''''\<rparr>)) sender_nil = None \<and>
   po_LogMetrics (push_options B (fl\<lparr>fl_logMetricsEnabled := True\<rparr>))"
  by (simp add: log_New_def log_options_def push_options_def Let_def)

end
