(* ===== verification/Spec2Isabelle.thy ===== *)
theory Spec2Isabelle
  imports Readiness Watch_Registry Status_Memory Main_Config
begin

text \<open>
  A verification library for the Application controller: a Kubernetes controller that computes the
  status of Application resources from their components (src/controllers, src/api/v1beta1), with an
  optional client that pushes Applications, Warning events and log metrics to a remote receiver
  (src/push), a collector of log metrics (src/logmetrics), and the program that puts them together
  (src/main.go).

  \<^bold>\<open>The program and its theories.\<close>

  Reconcile (application_controller.go) reads an Application, registers watches for its component
  kinds, lists the components, computes a verdict for each (status.go), folds the verdicts into
  conditions (condition.go), and writes the status unless nothing changed or the
  stabilization period holds it back.

    \<^item> App_Prelude: machine integers, error values, lists, and the chunking contract (locale
      \<open>chunking\<close>).  Go_Strings, Go_Float, Go_Crypto: what the program uses of Go's standard library
      (strings, strconv, net/url schemes, float64 with IEEE rounding, SHA-256, HMAC, base64),
      executable and with the lemmas the components need.
    \<^item> Api_Types (application_types.go): every type as a record with the fields of the Go struct, and
      StripVersion.
    \<^item> Conditions (condition.go): the condition list; the contract of a condition store is the locale
      \<open>condition_store\<close>, interpreted by setCondition.
    \<^item> Workload_Status (status.go): one function per kind and the dispatch; the contract of a status
      function is the locale \<open>status_reader\<close>, interpreted by every one of them.  Readiness: when
      exactly each kind is Ready, and what a scale-up does to its verdict.
    \<^item> Aggregation: objectStatuses, aggregateReady, getNewApplicationStatus and the readings of the
      Ready condition.  Reconciler: the client, mapper and clock as the record \<open>cluster\<close> over an
      abstract world, and Reconcile with all that it calls.  Reconcile_Facts: early exits, no write
      before a requeue, the stabilization, the steady state, the listed components, the fan-out, and
      the outcomes of a write.
    \<^item> Go_Memory: pointers, slices and arrays, and the contract of a deep copy (locale
      \<open>deep_copier\<close>: the copy denotes the same value, old memory is untouched, every address of the
      copy is new).  Api_Memory: the structs of api/v1beta1 with their pointers and slices, each the
      view of a record of Api_Types.  Deep_Copy (zz_generated.deepcopy.go): every generated
      function statement by statement.  Deep_Copy_Facts interprets \<open>deep_copier\<close> for each of them;
      the generated code of k8s.io/apimachinery that they call is a parameter under the law
      \<open>apimachinery_law\<close>, which is the same contract.  Status_Memory: setCondition and the tail of
      getNewApplicationStatus on memory, shown to refine the functions on values of Conditions and
      Aggregation and to leave the Application that they read as it was.
    \<^item> Watch_Registry: ensureComponentWatches under concurrency.  Workers share the sync.Map; an
      inductive relation interleaves their atomic steps; the sequential loop of Reconciler is shown to
      be a run of one worker, with the answers of the cluster.
    \<^item> Push_Protocol (protocol.go, hmac.go): frames, constructors, chunkServices (interpreting
      \<open>chunking\<close>) and the handshake signature.
    \<^item> Pusher (pusher.go): options, the bounded queue and its producers, the snapshot loop
      (\<open>partial_function\<close>, since it does not end for a chunk size that is not positive), and one
      connection as a step function over events: informer callbacks, collector calls, writes, ticks,
      cancellation and read errors in any order.  Pusher_Facts: no silent loss, the protocol on the
      wire, handler removal, the key, the reconnect waits.  Push_Lifecycle: the read side with its
      deadline, runOnce from the dial to the return, and Start over any number of connections:
      when a silent peer is noticed, that the snapshot ends, and that every connection is the one a
      new pusher would have made, whatever state the one before has left behind.
    \<^item> Log_Metrics (collector.go, deltas.go): discovery, scrape, deltas, totals, gate.  Go maps are
      association lists, and every range statement goes through an arbitrary reordering.
      Log_Metrics_Facts: deltas, their sums over any series of scrapes against the history of the
      exporter, independence of the map order, and the services sent.
    \<^item> Log_Pipeline: the interface Sender as the locale \<open>metrics_sender\<close>, interpreted by the push
      client; the path from a scrape to the queue, and where a window gets lost.
    \<^item> Main_Config (main.go, groupversion_info.go): the scheme and its registration, flags to
      options, the exits, and the runnables.

  \<^bold>\<open>Conventions.\<close>  A fallible Go function returns a sum or a pair with an optional error.  The code
  of other packages is a parameter: a field of \<open>k8s_lib\<close>, \<open>go_lib\<close>, \<open>cluster\<close>, \<open>push_env\<close>,
  \<open>scrape_env\<close> or \<open>boot_env\<close>.  Where a theorem relies on documented behaviour of one of
  them, it names the law: \<open>sort_slice_law\<close> (sort.Slice sorts a permutation), \<open>new_aggregate_law\<close>
  (NewAggregate is nil for no errors), \<open>deep_equal_law\<close>, \<open>retry_law\<close>, \<open>range_law\<close>,
  \<open>apimachinery_law\<close>.  Each theorem with a hypothesis has a witness, named after it, at a
  concrete input.  A loop is a recursive function;
  all of them terminate but \<open>snapshot_loop\<close>, which may run for ever on a chunk size that is not
  positive; Push_Lifecycle shows that it ends for every pusher that New
  makes.  There is no fuel.

  \<^bold>\<open>Not modelled.\<close>  Logging (but for the log lines of dropped frames), the JSON codec, TLS and the
  WebSocket framing (parameters), flag parsing, and the goroutines of client-go and
  controller-runtime.  The deadline of the read side is a time; a write deadline is a write that
  fails.  Frames enqueued while a connection registers its handlers count as enqueued right after
  that.  A deep copy of a struct into itself (in and out the same pointer) is outside the contract,
  and no caller does it.  The end-to-end package is a test driver without logic of the program.
  Test hooks (listAppsFn, skipHandlers, injectable clocks) are fixed to their production values.
\<close>

end
